theory Spec2Isabelle
  imports Complex_Main
begin

section \<open>Python values, dictionaries and exceptions\<close>

text \<open>
  The orchestration plugin \<^verbatim>\<open>atomic_reactor/plugins/build_orchestrate_build.py\<close> is
  embedded function by function.  Python values that travel through keyword arguments,
  annotations and failure reasons are JSON-like trees.  A \<^verbatim>\<open>dict\<close> is an association
  list in insertion order; the operations below keep the keys distinct, as Python does.
\<close>

datatype pyval =
    PNone
  | PBool bool
  | PInt int
  | PStr string
  | PList "pyval list"
  | PDict "(string \<times> pyval) list"

type_synonym pydict = "(string \<times> pyval) list"

text \<open>\<^verbatim>\<open>d[k] = v\<close>: an existing key keeps its position, a new key goes last.\<close>

fun dict_set :: "('k \<times> 'v) list \<Rightarrow> 'k \<Rightarrow> 'v \<Rightarrow> ('k \<times> 'v) list" where
  "dict_set [] k v = [(k, v)]"
| "dict_set ((k', v') # d) k v =
     (if k' = k then (k, v) # d else (k', v') # dict_set d k v)"

text \<open>\<^verbatim>\<open>d.update(other)\<close>: the pairs of \<^verbatim>\<open>other\<close> are stored one after another.\<close>

fun dict_update :: "('k \<times> 'v) list \<Rightarrow> ('k \<times> 'v) list \<Rightarrow> ('k \<times> 'v) list" where
  "dict_update d [] = d"
| "dict_update d ((k, v) # other) = dict_update (dict_set d k v) other"

text \<open>\<^verbatim>\<open>d.pop(k, None)\<close>, the popped value dropped.\<close>

definition dict_pop :: "('k \<times> 'v) list \<Rightarrow> 'k \<Rightarrow> ('k \<times> 'v) list" where
  "dict_pop d k = filter (\<lambda>kv. fst kv \<noteq> k) d"

text \<open>
  Exceptions.  Each constructor carries the text that \<^verbatim>\<open>str(e)\<close> gives.
  \<open>OtherException\<close> stands for any exception class the plugin has no handler for.
\<close>

datatype exn =
    OsbsException string
  | UnknownPlatformException string
  | AllClustersFailedException string
  | PluginFailedException string
  | RuntimeError string
  | KeyError string
  | AttributeError string
  | ZeroDivisionError string
  | ValueError string
  | TypeError string
  | OtherException string

fun str_exn :: "exn \<Rightarrow> string" where
  "str_exn (OsbsException m) = m"
| "str_exn (UnknownPlatformException m) = m"
| "str_exn (AllClustersFailedException m) = m"
| "str_exn (PluginFailedException m) = m"
| "str_exn (RuntimeError m) = m"
| "str_exn (KeyError m) = m"
| "str_exn (AttributeError m) = m"
| "str_exn (ZeroDivisionError m) = m"
| "str_exn (ValueError m) = m"
| "str_exn (TypeError m) = m"
| "str_exn (OtherException m) = m"

text \<open>\<^verbatim>\<open>except OsbsException\<close> matches exactly these.\<close>

fun is_OsbsException :: "exn \<Rightarrow> bool" where
  "is_OsbsException (OsbsException m) = True"
| "is_OsbsException e = False"

section \<open>Clusters, remote sessions and the clock\<close>

text \<open>
  A configured worker cluster (the reactor configuration's cluster entry): only the three
  attributes the plugin reads.
\<close>

record cluster =
  name :: string
  priority :: int
  max_concurrent_builds :: int

text \<open>
  What the plugin reads of an osbs build response: \<^verbatim>\<open>get_build_name()\<close>,
  \<^verbatim>\<open>get_annotations()\<close> (which may be \<^verbatim>\<open>None\<close>), \<^verbatim>\<open>is_finished()\<close> and
  \<^verbatim>\<open>is_succeeded()\<close>.
\<close>

record build_response =
  build_name :: string
  annotations :: "(string \<times> string) list option"
  is_finished :: bool
  is_succeeded :: bool

text \<open>
  Every remote request the plugin issues is appended to a trace.  The number of requests
  made so far indexes the environment's answers, so an answer may depend on who is asked,
  what is asked and when.  Times are microseconds, as \<^verbatim>\<open>datetime\<close> counts them.
\<close>

datatype event =
    ListBuilds string string
  | Sleep int
  | CreateWorkerBuild string pydict
  | GetBuildLogs string string
  | WaitForBuild string string
  | CancelBuild string string
  | GetPodForBuild string string

record world =
  clock :: int
  trace :: "event list"

text \<open>
  The environment: the remote clusters behind their osbs sessions (addressed by cluster
  name), the time each request takes, and the \<^verbatim>\<open>json\<close> module.  A remote call either
  raises or returns.  \<open>float_div a b\<close> is the float that Python's \<^verbatim>\<open>a / b\<close> gives for
  integers with \<open>b \<noteq> 0\<close>: a float is a rational number, and which one the quotient
  is rounded to is left to the environment.
\<close>

record env =
  latency :: "nat \<Rightarrow> nat"
  float_div :: "nat \<Rightarrow> int \<Rightarrow> rat"
  osbs_list_builds :: "string \<Rightarrow> string \<Rightarrow> nat \<Rightarrow> exn + nat"
  osbs_build_conf :: "string \<Rightarrow> pyval \<times> pyval \<times> pyval"
  osbs_create_worker_build :: "string \<Rightarrow> pydict \<Rightarrow> nat \<Rightarrow> exn + build_response"
  osbs_get_build_logs :: "string \<Rightarrow> string \<Rightarrow> nat \<Rightarrow> exn option"
  osbs_wait_for_build_to_finish :: "string \<Rightarrow> string \<Rightarrow> nat \<Rightarrow> exn + build_response"
  osbs_cancel_build :: "string \<Rightarrow> string \<Rightarrow> nat \<Rightarrow> exn option"
  osbs_pod_failure_reason :: "string \<Rightarrow> string \<Rightarrow> nat \<Rightarrow> exn + pyval"
  json_loads :: "string \<Rightarrow> exn + pyval"
  json_dumps :: "pyval \<Rightarrow> string"

definition emit :: "env \<Rightarrow> event \<Rightarrow> world \<Rightarrow> world" where
  "emit E e w =
     w\<lparr>clock := clock w + int (latency E (length (trace w))), trace := trace w @ [e]\<rparr>"

text \<open>\<^verbatim>\<open>time.sleep(s)\<close>: at least \<open>s\<close> seconds pass.\<close>

definition sleep :: "env \<Rightarrow> int \<Rightarrow> world \<Rightarrow> world" where
  "sleep E s w = emit E (Sleep s) (w\<lparr>clock := clock w + s * 1000000\<rparr>)"

section \<open>ClusterRetryContext\<close>

record ClusterRetryContext =
  fails :: int
  retry_at :: int
  max_cluster_fails :: int

text \<open>\<^verbatim>\<open>__init__\<close>: no failure yet, retry allowed since the epoch.\<close>

definition new_ClusterRetryContext :: "int \<Rightarrow> ClusterRetryContext" where
  "new_ClusterRetryContext m = \<lparr>fails = 0, retry_at = 0, max_cluster_fails = m\<rparr>"

definition failed :: "ClusterRetryContext \<Rightarrow> bool" where
  "failed ctx = (fails ctx \<ge> max_cluster_fails ctx)"

definition in_retry_wait :: "int \<Rightarrow> ClusterRetryContext \<Rightarrow> bool" where
  "in_retry_wait now ctx = (now < retry_at ctx)"

text \<open>\<open>seconds\<close> is the delay as the \<^verbatim>\<open>timedelta\<close> holds it, in microseconds.\<close>

definition try_again_later :: "int \<Rightarrow> int \<Rightarrow> ClusterRetryContext \<Rightarrow> ClusterRetryContext" where
  "try_again_later now seconds ctx =
     (if \<not> failed ctx
      then ctx\<lparr>fails := fails ctx + 1, retry_at := now + seconds\<rparr>
      else ctx)"

type_synonym contexts = "(string \<times> ClusterRetryContext) list"

text \<open>
  \<^verbatim>\<open>timedelta.seconds\<close> of a non-negative duration: whole seconds within the day, the
  days and the microseconds left out.
\<close>

definition timedelta_seconds :: "int \<Rightarrow> int" where
  "timedelta_seconds t = (t div 1000000) mod 86400"

definition wait_for_any_cluster :: "env \<Rightarrow> contexts \<Rightarrow> world \<Rightarrow> (exn + unit) \<times> world" where
  "wait_for_any_cluster E ctxs w =
     (case map retry_at (filter (\<lambda>ctx. \<not> failed ctx) (map snd ctxs)) of
        [] \<Rightarrow> (Inl (AllClustersFailedException
                 ''Could not find appropriate cluster for worker build.''), w)
      | r # rs \<Rightarrow>
          (let earliest_retry_at = fold min rs r;
               time_until_next = earliest_retry_at - clock w
           in (Inr (), sleep E (timedelta_seconds (max 0 time_until_next)) w)))"

section \<open>Cluster selection\<close>

text \<open>
  \<^verbatim>\<open>ClusterInfo\<close> as \<^verbatim>\<open>get_cluster_info\<close> builds it.  The osbs session is represented by
  the name of the cluster it talks to.  The load is the float quotient of two integers.
\<close>

record ClusterInfo =
  ci_cluster :: cluster
  ci_platform :: string
  ci_osbs :: string
  ci_load :: rat

definition get_cluster_info :: "env \<Rightarrow> cluster \<Rightarrow> string \<Rightarrow> world \<Rightarrow> (exn + ClusterInfo) \<times> world" where
  "get_cluster_info E c platform w =
     (let w' = emit E (ListBuilds (name c) platform) w in
      case osbs_list_builds E (name c) platform (length (trace w)) of
        Inl e \<Rightarrow> (Inl e, w')
      | Inr current_builds \<Rightarrow>
          if max_concurrent_builds c = 0
          then (Inl (ZeroDivisionError ''division by zero''), w')
          else (Inr \<lparr>ci_cluster = c, ci_platform = platform, ci_osbs = name c,
                     ci_load = float_div E current_builds (max_concurrent_builds c)\<rparr>, w'))"

type_synonym possible = "(cluster \<times> ClusterInfo) list"

text \<open>
  The body of the \<^verbatim>\<open>for\<close> loop of \<^verbatim>\<open>get_clusters\<close> for one candidate.  The
  result's first component is the exception that leaves the loop, if any.
\<close>

definition query_cluster ::
  "env \<Rightarrow> string \<Rightarrow> int \<Rightarrow> cluster \<Rightarrow> contexts \<Rightarrow> possible \<Rightarrow> world
     \<Rightarrow> exn option \<times> contexts \<times> possible \<times> world" where
  "query_cluster E platform delay c ctxs pci w =
     (case map_of ctxs (name c) of
        None \<Rightarrow> (Some (KeyError (name c)), ctxs, pci, w)
      | Some ctx \<Rightarrow>
          if in_retry_wait (clock w) ctx then (None, ctxs, pci, w)
          else if failed ctx then (None, ctxs, pci, w)
          else (case get_cluster_info E c platform w of
                  (Inr cluster_info, w') \<Rightarrow> (None, ctxs, dict_set pci c cluster_info, w')
                | (Inl e, w') \<Rightarrow>
                    if is_OsbsException e
                    then (None, dict_set ctxs (name c) (try_again_later (clock w') delay ctx),
                          pci, w')
                    else (Some e, ctxs, pci, w')))"

text \<open>The \<^verbatim>\<open>for\<close> loop over the candidates sorted by priority.\<close>

fun query_candidates ::
  "env \<Rightarrow> string \<Rightarrow> int \<Rightarrow> cluster list \<Rightarrow> contexts \<Rightarrow> possible \<Rightarrow> world
     \<Rightarrow> exn option \<times> contexts \<times> possible \<times> world" where
  "query_candidates E platform delay [] ctxs pci w = (None, ctxs, pci, w)"
| "query_candidates E platform delay (c # cs) ctxs pci w =
     (case query_cluster E platform delay c ctxs pci w of
        (Some e, ctxs', pci', w') \<Rightarrow> (Some e, ctxs', pci', w')
      | (None, ctxs', pci', w') \<Rightarrow> query_candidates E platform delay cs ctxs' pci' w')"

text \<open>\<^verbatim>\<open>candidates -= {c for c in candidates if retry_contexts[c.name].failed}\<close>\<close>

fun remove_failed :: "contexts \<Rightarrow> cluster list \<Rightarrow> exn + cluster list" where
  "remove_failed ctxs [] = Inr []"
| "remove_failed ctxs (c # cs) =
     (case map_of ctxs (name c) of
        None \<Rightarrow> Inl (KeyError (name c))
      | Some ctx \<Rightarrow>
          (case remove_failed ctxs cs of
             Inl e \<Rightarrow> Inl e
           | Inr rest \<Rightarrow> Inr (if failed ctx then rest else c # rest)))"

text \<open>
  The \<^verbatim>\<open>while candidates and not possible_cluster_info\<close> loop.  The first argument bounds
  the number of rounds; \<open>None\<close> means the bound was reached.
\<close>

fun get_clusters_loop ::
  "nat \<Rightarrow> env \<Rightarrow> string \<Rightarrow> int \<Rightarrow> cluster list \<Rightarrow> contexts \<Rightarrow> possible \<Rightarrow> world
     \<Rightarrow> ((exn + possible) \<times> contexts \<times> world) option" where
  "get_clusters_loop 0 E platform delay candidates ctxs pci w =
     (if candidates \<noteq> [] \<and> pci = [] then None else Some (Inr pci, ctxs, w))"
| "get_clusters_loop (Suc n) E platform delay candidates ctxs pci w =
     (if candidates \<noteq> [] \<and> pci = [] then
        (case wait_for_any_cluster E ctxs w of
           (Inl e, w1) \<Rightarrow> Some (Inl e, ctxs, w1)
         | (Inr u, w1) \<Rightarrow>
             (case query_candidates E platform delay (sort_key priority candidates) ctxs pci w1 of
                (Some e, ctxs2, pci2, w2) \<Rightarrow> Some (Inl e, ctxs2, w2)
              | (None, ctxs2, pci2, w2) \<Rightarrow>
                  (case remove_failed ctxs2 candidates of
                     Inl e \<Rightarrow> Some (Inl e, ctxs2, w2)
                   | Inr candidates2 \<Rightarrow>
                       get_clusters_loop n E platform delay candidates2 ctxs2 pci2 w2)))
      else Some (Inr pci, ctxs, w))"

text \<open>
  \<^verbatim>\<open>get_clusters\<close>.  \<^verbatim>\<open>set(copy.copy(all_clusters))\<close> drops duplicates; a Python set
  iterates in an order of its own, here the order of the list.  \<^verbatim>\<open>sorted\<close> is stable,
  as \<open>sort_key\<close> is.
\<close>

definition get_clusters ::
  "nat \<Rightarrow> env \<Rightarrow> int \<Rightarrow> string \<Rightarrow> contexts \<Rightarrow> cluster list \<Rightarrow> world
     \<Rightarrow> ((exn + ClusterInfo list) \<times> contexts \<times> world) option" where
  "get_clusters fuel E find_cluster_retry_delay platform retry_contexts all_clusters w =
     (case get_clusters_loop fuel E platform find_cluster_retry_delay
             (remdups all_clusters) retry_contexts [] w of
        None \<Rightarrow> None
      | Some (Inl e, ctxs, w') \<Rightarrow> Some (Inl e, ctxs, w')
      | Some (Inr possible_cluster_info, ctxs, w') \<Rightarrow>
          (let ret = sort_key (\<lambda>c. priority (ci_cluster c)) (map snd possible_cluster_info);
               ret = sort_key ci_load ret
           in Some (Inr ret, ctxs, w')))"


section \<open>The plugin object and its mutable state\<close>

text \<open>
  Dictionaries that the plugin shares with its caller (\<^verbatim>\<open>self.build_kwargs\<close>, the
  reactor configuration, the override dictionaries of the workspace) are objects in a
  heap and are referred to by address, so that an in-place update of one of them is
  visible through every reference.  A Python reference always points to a live object;
  an address outside the heap reads as the empty dictionary.
\<close>

type_synonym heap = "pydict list"

definition heap_get :: "heap \<Rightarrow> nat \<Rightarrow> pydict" where
  "heap_get h a = (if a < length h then h ! a else [])"

definition heap_upd :: "heap \<Rightarrow> nat \<Rightarrow> (pydict \<Rightarrow> pydict) \<Rightarrow> heap" where
  "heap_upd h a f = h[a := f (heap_get h a)]"

text \<open>\<^verbatim>\<open>deepcopy(d)\<close>: a new object with the same contents.\<close>

definition deepcopy :: "heap \<Rightarrow> nat \<Rightarrow> nat \<times> heap" where
  "deepcopy h a = (length h, h @ [heap_get h a])"

text \<open>The attributes of \<^verbatim>\<open>self\<close> that stay fixed during \<^verbatim>\<open>run\<close>.\<close>

record plugin =
  platforms :: "string list"
  build_kwargs :: nat
  reactor_config_is_default :: bool
  reactor_config_conf :: nat
  get_enabled_clusters_for_platform :: "string \<Rightarrow> cluster list"
  find_cluster_retry_delay :: int
  failure_retry_delay :: int
  plugin_max_cluster_fails :: int
  release :: pyval
  koji_upload_dir :: pyval
  fs_task_id :: "int option"

text \<open>
  \<^verbatim>\<open>monitor_exception\<close> holds either the exception caught while monitoring or, for the
  placeholder of an exhausted platform, the text of the exception.
\<close>

datatype monitor_exc = MonExc exn | MonStr string

text \<open>\<^verbatim>\<open>str(self.monitor_exception)\<close>\<close>

fun str_monitor :: "monitor_exc option \<Rightarrow> string" where
  "str_monitor None = ''None''"
| "str_monitor (Some (MonExc e)) = str_exn e"
| "str_monitor (Some (MonStr m)) = m"

text \<open>Truth value: an exception object is true, a string is true unless empty.\<close>

fun truthy_monitor :: "monitor_exc option \<Rightarrow> bool" where
  "truthy_monitor None = False"
| "truthy_monitor (Some (MonExc e)) = True"
| "truthy_monitor (Some (MonStr m)) = (m \<noteq> [])"

record WorkerBuildInfo =
  wb_build :: "build_response option"
  wb_cluster :: "cluster option"
  wb_osbs :: "string option"
  wb_platform :: string
  wb_monitor_exception :: "monitor_exc option"

text \<open>The plugin's entry of \<^verbatim>\<open>workflow.data.plugin_workspace\<close>; an absent key is \<open>None\<close>.\<close>

record workspace =
  ws_override_kwargs :: "(string option \<times> nat) list option"
  ws_koji_upload_dir :: "pyval option"
  ws_build_info :: "(string \<times> WorkerBuildInfo) list option"

record state =
  st_world :: world
  st_heap :: heap
  worker_builds :: "WorkerBuildInfo list"
  st_workspace :: workspace

section \<open>WorkerBuildInfo\<close>

text \<open>\<^verbatim>\<open>WorkerBuildInfo(build, cluster_info, logger)\<close>\<close>

definition new_WorkerBuildInfo :: "build_response option \<Rightarrow> ClusterInfo \<Rightarrow> WorkerBuildInfo" where
  "new_WorkerBuildInfo b cluster_info =
     \<lparr>wb_build = b, wb_cluster = Some (ci_cluster cluster_info),
      wb_osbs = Some (ci_osbs cluster_info), wb_platform = ci_platform cluster_info,
      wb_monitor_exception = None\<rparr>"

text \<open>
  The same constructor on \<^verbatim>\<open>ClusterInfo(None, platform, None, None)\<close> with no build,
  as \<^verbatim>\<open>select_and_start_cluster\<close> calls it when no cluster is left.
\<close>

definition placeholder_WorkerBuildInfo :: "string \<Rightarrow> WorkerBuildInfo" where
  "placeholder_WorkerBuildInfo platform =
     \<lparr>wb_build = None, wb_cluster = None, wb_osbs = None, wb_platform = platform,
      wb_monitor_exception = None\<rparr>"

definition wb_name :: "WorkerBuildInfo \<Rightarrow> string" where
  "wb_name bi = (case wb_build bi of Some b \<Rightarrow> build_name b | None \<Rightarrow> ''N/A'')"

definition no_osbs :: exn where
  "no_osbs = AttributeError ''NoneType object has no attribute''"

definition watch_logs :: "env \<Rightarrow> WorkerBuildInfo \<Rightarrow> world \<Rightarrow> exn option \<times> world" where
  "watch_logs E bi w =
     (case wb_osbs bi of
        None \<Rightarrow> (Some no_osbs, w)
      | Some osbs \<Rightarrow>
          (osbs_get_build_logs E osbs (wb_name bi) (length (trace w)),
           emit E (GetBuildLogs osbs (wb_name bi)) w))"

definition wait_to_finish ::
  "env \<Rightarrow> WorkerBuildInfo \<Rightarrow> world \<Rightarrow> exn option \<times> WorkerBuildInfo \<times> world" where
  "wait_to_finish E bi w =
     (case wb_osbs bi of
        None \<Rightarrow> (Some no_osbs, bi, w)
      | Some osbs \<Rightarrow>
          (let w' = emit E (WaitForBuild osbs (wb_name bi)) w in
           case osbs_wait_for_build_to_finish E osbs (wb_name bi) (length (trace w)) of
             Inl e \<Rightarrow> (Some e, bi, w')
           | Inr b \<Rightarrow> (None, bi\<lparr>wb_build := Some b\<rparr>, w')))"

definition cancel_build :: "env \<Rightarrow> WorkerBuildInfo \<Rightarrow> world \<Rightarrow> exn option \<times> world" where
  "cancel_build E bi w =
     (case wb_build bi of
        None \<Rightarrow> (None, w)
      | Some b \<Rightarrow>
          if is_finished b then (None, w)
          else (case wb_osbs bi of
                  None \<Rightarrow> (Some no_osbs, w)
                | Some osbs \<Rightarrow>
                    (osbs_cancel_build E osbs (wb_name bi) (length (trace w)),
                     emit E (CancelBuild osbs (wb_name bi)) w)))"

text \<open>\<^verbatim>\<open>metadata['errors']\<close> on a decoded JSON value.\<close>

fun py_getitem :: "pyval \<Rightarrow> string \<Rightarrow> exn + pyval" where
  "py_getitem (PDict d) k =
     (case map_of d k of Some v \<Rightarrow> Inr v | None \<Rightarrow> Inl (KeyError k))"
| "py_getitem (PList xs) k = Inl (TypeError ''list indices must be integers or slices, not str'')"
| "py_getitem (PStr s) k = Inl (TypeError ''string indices must be integers'')"
| "py_getitem v k = Inl (TypeError ''object is not subscriptable'')"

text \<open>
  \<^verbatim>\<open>fail_reason.update(v)\<close>.  A mapping is merged; a value that cannot be iterated
  raises.  A string or a list would be read as a sequence of key/value pairs: the model
  does not cover that case and answers \<open>None\<close>.
\<close>

fun py_dict_update :: "pydict \<Rightarrow> pyval \<Rightarrow> (exn + pydict) option" where
  "py_dict_update d (PDict other) = Some (Inr (dict_update d other))"
| "py_dict_update d (PList xs) = None"
| "py_dict_update d (PStr s) = None"
| "py_dict_update d v = Some (Inl (TypeError ''object is not iterable''))"

definition is_OsbsException_or_AttributeError :: "exn \<Rightarrow> bool" where
  "is_OsbsException_or_AttributeError e =
     (case e of OsbsException m \<Rightarrow> True | AttributeError m \<Rightarrow> True | _ \<Rightarrow> False)"

text \<open>
  The inner \<^verbatim>\<open>try\<close> of \<^verbatim>\<open>get_fail_reason\<close>: ask for the pod of the build and store its
  failure reason; \<^verbatim>\<open>OsbsException\<close> and \<^verbatim>\<open>AttributeError\<close> are passed over.
\<close>

definition pod_fail_reason ::
  "env \<Rightarrow> WorkerBuildInfo \<Rightarrow> build_response \<Rightarrow> pydict \<Rightarrow> world \<Rightarrow> (exn + pydict) \<times> world" where
  "pod_fail_reason E bi b fail_reason w =
     (case wb_osbs bi of
        None \<Rightarrow> (Inr fail_reason, w)
      | Some osbs \<Rightarrow>
          (let w' = emit E (GetPodForBuild osbs (build_name b)) w in
           case osbs_pod_failure_reason E osbs (build_name b) (length (trace w)) of
             Inr r \<Rightarrow> (Inr (dict_set fail_reason ''pod'' r), w')
           | Inl e \<Rightarrow>
               if is_OsbsException_or_AttributeError e then (Inr fail_reason, w')
               else (Inl e, w')))"

text \<open>
  \<^verbatim>\<open>(self.build.get_annotations() or {}).get('plugins-metadata', '{}')\<close>: the text that
  \<^verbatim>\<open>get_fail_reason\<close> decodes.
\<close>

definition plugins_metadata :: "build_response \<Rightarrow> string" where
  "plugins_metadata b =
     (let build_annotations = (case annotations b of None \<Rightarrow> [] | Some a \<Rightarrow> a)
      in case map_of build_annotations ''plugins-metadata'' of None \<Rightarrow> ''{}'' | Some t \<Rightarrow> t)"

text \<open>
  \<^verbatim>\<open>get_fail_reason\<close>.  \<open>None\<close> only where \<open>py_dict_update\<close> is not modelled.
\<close>

definition get_fail_reason ::
  "env \<Rightarrow> WorkerBuildInfo \<Rightarrow> world \<Rightarrow> ((exn + pydict) \<times> world) option" where
  "get_fail_reason E bi w =
     (let fail_reason = [];
          fail_reason =
            (if truthy_monitor (wb_monitor_exception bi)
             then dict_set fail_reason ''general''
                    (PStr (str_monitor (wb_monitor_exception bi)))
             else if wb_build bi = None
             then dict_set fail_reason ''general'' (PStr ''build not started'')
             else fail_reason)
      in case wb_build bi of
           None \<Rightarrow> Some (Inr fail_reason, w)
         | Some b \<Rightarrow>
             (case json_loads E (plugins_metadata b) of
                Inl e \<Rightarrow> Some (Inl e, w)
              | Inr metadata \<Rightarrow>
                  (let fail_reason =
                         (if truthy_monitor (wb_monitor_exception bi)
                          then dict_set fail_reason ''general''
                                 (PStr (str_monitor (wb_monitor_exception bi)))
                          else fail_reason)
                   in case py_getitem metadata ''errors'' of
                        Inr errors \<Rightarrow>
                          (case py_dict_update fail_reason errors of
                             None \<Rightarrow> None
                           | Some r \<Rightarrow> Some (r, w))
                      | Inl (KeyError k) \<Rightarrow> Some (pod_fail_reason E bi b fail_reason w)
                      | Inl e \<Rightarrow> Some (Inl e, w))))"

section \<open>Launching a worker build\<close>

text \<open>Python's truth value of a JSON-like value (\<^verbatim>\<open>not x\<close>, \<^verbatim>\<open>if x\<close>).\<close>

fun truthy :: "pyval \<Rightarrow> bool" where
  "truthy PNone = False"
| "truthy (PBool b) = b"
| "truthy (PInt i) = (i \<noteq> 0)"
| "truthy (PStr s) = (s \<noteq> [])"
| "truthy (PList xs) = (xs \<noteq> [])"
| "truthy (PDict d) = (d \<noteq> [])"

text \<open>
  \<^verbatim>\<open>for v in x\<close>: a list gives its elements, a string its characters, a mapping its
  keys; anything else cannot be iterated.
\<close>

fun py_iter :: "pyval \<Rightarrow> exn + pyval list" where
  "py_iter (PList xs) = Inr xs"
| "py_iter (PStr s) = Inr (map (\<lambda>c. PStr [c]) s)"
| "py_iter (PDict d) = Inr (map (\<lambda>kv. PStr (fst kv)) d)"
| "py_iter v = Inl (TypeError ''object is not iterable'')"

text \<open>
  \<^verbatim>\<open>_update_content_versions(worker_reactor_conf)\<close> with the default
  \<^verbatim>\<open>valid_values=('v2',)\<close>, on the dictionary at address \<open>a\<close>.
\<close>

definition update_content_versions :: "nat \<Rightarrow> heap \<Rightarrow> exn option \<times> heap" where
  "update_content_versions a h =
     (case map_of (heap_get h a) ''content_versions'' of
        None \<Rightarrow> (None, h)
      | Some cv \<Rightarrow>
          (case py_iter cv of
             Inl e \<Rightarrow> (Some e, h)
           | Inr vs \<Rightarrow>
               (let kept = filter (\<lambda>v. v = PStr ''v2'') vs;
                    h' = heap_upd h a (\<lambda>d. dict_set d ''content_versions'' (PList kept))
                in if kept = []
                   then (Some (RuntimeError ''content_versions is empty''), h')
                   else (None, h'))))"

text \<open>
  \<^verbatim>\<open>get_worker_build_kwargs\<close>: the result is the address of the new dictionary.
  \<^verbatim>\<open>if task_id\<close> is false for \<^verbatim>\<open>None\<close> and for 0.
\<close>

definition get_worker_build_kwargs ::
  "plugin \<Rightarrow> pyval \<Rightarrow> string \<Rightarrow> pyval \<Rightarrow> int option \<Rightarrow> pyval \<Rightarrow> heap \<Rightarrow> (exn + nat) \<times> heap" where
  "get_worker_build_kwargs P rel platform upload_dir task_id worker_openshift h =
     (let (kw, h) = deepcopy h (build_kwargs P);
          h = heap_upd h kw (\<lambda>d. dict_pop d ''architecture'');
          h = heap_upd h kw (\<lambda>d. dict_set d ''release'' rel);
          h = heap_upd h kw (\<lambda>d. dict_set d ''platform'' (PStr platform));
          h = heap_upd h kw (\<lambda>d. dict_set d ''koji_upload_dir'' upload_dir);
          h = (case task_id of
                 None \<Rightarrow> h
               | Some t \<Rightarrow>
                   if t \<noteq> 0
                   then heap_upd h kw (\<lambda>d. dict_set d ''filesystem_koji_task_id'' (PInt t))
                   else h)
      in if \<not> reactor_config_is_default P then
           (let (wrc, h) = deepcopy h (reactor_config_conf P);
                h = heap_upd h wrc (\<lambda>d. dict_set d ''openshift'' worker_openshift);
                h = heap_upd h wrc (\<lambda>d. dict_pop d ''worker_token_secrets'')
            in case update_content_versions wrc h of
                 (Some e, h) \<Rightarrow> (Inl e, h)
               | (None, h) \<Rightarrow>
                   (Inr kw, heap_upd h kw
                      (\<lambda>d. dict_set d ''reactor_config_override'' (PDict (heap_get h wrc)))))
         else (Inr kw, h))"

text \<open>The \<^verbatim>\<open>worker_openshift\<close> dictionary built from the session's configuration.\<close>

definition worker_openshift_of :: "env \<Rightarrow> string \<Rightarrow> pyval" where
  "worker_openshift_of E osbs =
     (case osbs_build_conf E osbs of
        (base_uri, verify_ssl, use_auth) \<Rightarrow>
          PDict [(''url'', base_uri),
                 (''insecure'', PBool (\<not> truthy verify_ssl)),
                 (''auth'', PDict [(''enable'', use_auth)])])"

text \<open>
  The first \<^verbatim>\<open>try\<close> block of \<^verbatim>\<open>do_worker_build\<close>, up to and including the call of
  \<^verbatim>\<open>create_worker_build(**kwargs)\<close>.
\<close>

definition create_build ::
  "plugin \<Rightarrow> env \<Rightarrow> ClusterInfo \<Rightarrow> state \<Rightarrow> (exn + build_response) \<times> state" where
  "create_build P E cluster_info s =
     (let override_kwargs =
            (case ws_override_kwargs (st_workspace s) of None \<Rightarrow> [] | Some ov \<Rightarrow> ov);
          worker_openshift = worker_openshift_of E (ci_osbs cluster_info)
      in case get_worker_build_kwargs P (release P) (ci_platform cluster_info)
                (koji_upload_dir P) (fs_task_id P) worker_openshift (st_heap s) of
           (Inl e, h) \<Rightarrow> (Inl e, s\<lparr>st_heap := h\<rparr>)
         | (Inr kwargs, h) \<Rightarrow>
             (let h = (case map_of override_kwargs None of
                         None \<Rightarrow> h
                       | Some a \<Rightarrow> heap_upd h kwargs (\<lambda>d. dict_update d (heap_get h a)));
                  h = (case map_of override_kwargs (Some (ci_platform cluster_info)) of
                         None \<Rightarrow> h
                       | Some a \<Rightarrow> heap_upd h kwargs (\<lambda>d. dict_update d (heap_get h a)));
                  w = st_world s
              in (osbs_create_worker_build E (ci_osbs cluster_info) (heap_get h kwargs)
                    (length (trace w)),
                  s\<lparr>st_heap := h,
                    st_world := emit E (CreateWorkerBuild (ci_osbs cluster_info)
                                          (heap_get h kwargs)) w\<rparr>)))"

text \<open>
  The body of the monitoring \<^verbatim>\<open>try\<close> of \<^verbatim>\<open>do_worker_build\<close>:
  \<^verbatim>\<open>build_info.watch_logs(); build_info.wait_to_finish()\<close>.
\<close>

definition watch_and_wait ::
  "env \<Rightarrow> WorkerBuildInfo \<Rightarrow> world \<Rightarrow> exn option \<times> WorkerBuildInfo \<times> world" where
  "watch_and_wait E bi w =
     (case watch_logs E bi w of
        (Some e, w1) \<Rightarrow> (Some e, bi, w1)
      | (None, w1) \<Rightarrow> wait_to_finish E bi w1)"

text \<open>
  The monitoring \<^verbatim>\<open>try\<close> block with its handler, for the build information stored at
  index \<open>i\<close> of \<^verbatim>\<open>self.worker_builds\<close>: any exception is recorded and the build is
  cancelled, \<^verbatim>\<open>OsbsException\<close> from the cancellation being passed over.
\<close>

definition monitor_build :: "env \<Rightarrow> nat \<Rightarrow> state \<Rightarrow> exn option \<times> state" where
  "monitor_build E i s =
     (case watch_and_wait E (worker_builds s ! i) (st_world s) of
        (None, bi, w) \<Rightarrow>
          (None, s\<lparr>st_world := w, worker_builds := (worker_builds s)[i := bi]\<rparr>)
      | (Some e, bi, w) \<Rightarrow>
          (let bi = bi\<lparr>wb_monitor_exception := Some (MonExc e)\<rparr> in
           case cancel_build E bi w of
             (c, w') \<Rightarrow>
               (case c of
                  None \<Rightarrow> None
                | Some ce \<Rightarrow> if is_OsbsException ce then None else Some ce,
                s\<lparr>st_world := w', worker_builds := (worker_builds s)[i := bi]\<rparr>)))"

text \<open>\<^verbatim>\<open>do_worker_build\<close>: the result is the exception that leaves it, if any.\<close>

definition do_worker_build :: "plugin \<Rightarrow> env \<Rightarrow> ClusterInfo \<Rightarrow> state \<Rightarrow> exn option \<times> state" where
  "do_worker_build P E cluster_info s =
     (case create_build P E cluster_info s of
        (Inl e, s1) \<Rightarrow>
          if is_OsbsException e then (Some e, s1)
          else (None, s1\<lparr>worker_builds :=
                           worker_builds s1 @ [new_WorkerBuildInfo None cluster_info]\<rparr>)
      | (Inr b, s1) \<Rightarrow>
          monitor_build E (length (worker_builds s1))
            (s1\<lparr>worker_builds :=
                  worker_builds s1 @ [new_WorkerBuildInfo (Some b) cluster_info]\<rparr>))"

section \<open>One platform's task\<close>

text \<open>
  The body of the \<^verbatim>\<open>for cluster_info in possible_cluster_info\<close> loop of
  \<^verbatim>\<open>select_and_start_cluster\<close>.  \<open>Inr True\<close>: a build was handled and the task
  returns; \<open>Inr False\<close>: the cluster refused and is put in retry-wait.
\<close>

definition start_on_cluster ::
  "plugin \<Rightarrow> env \<Rightarrow> ClusterInfo \<Rightarrow> contexts \<Rightarrow> state \<Rightarrow> (exn + bool) \<times> contexts \<times> state" where
  "start_on_cluster P E cluster_info ctxs s =
     (case map_of ctxs (name (ci_cluster cluster_info)) of
        None \<Rightarrow> (Inl (KeyError (name (ci_cluster cluster_info))), ctxs, s)
      | Some ctx \<Rightarrow>
          (case do_worker_build P E cluster_info s of
             (None, s') \<Rightarrow> (Inr True, ctxs, s')
           | (Some e, s') \<Rightarrow>
               if is_OsbsException e
               then (Inr False,
                     dict_set ctxs (name (ci_cluster cluster_info))
                       (try_again_later (clock (st_world s')) (failure_retry_delay P) ctx), s')
               else (Inl e, ctxs, s')))"

text \<open>
  The loop itself: it ends with the first cluster that does not refuse; \<open>Inr False\<close>
  means every cluster refused and the \<^verbatim>\<open>while\<close> loop goes round again.
\<close>

fun start_on_clusters ::
  "plugin \<Rightarrow> env \<Rightarrow> ClusterInfo list \<Rightarrow> contexts \<Rightarrow> state \<Rightarrow> (exn + bool) \<times> contexts \<times> state" where
  "start_on_clusters P E [] ctxs s = (Inr False, ctxs, s)"
| "start_on_clusters P E (cluster_info # rest) ctxs s =
     (case start_on_cluster P E cluster_info ctxs s of
        (Inr False, ctxs', s') \<Rightarrow> start_on_clusters P E rest ctxs' s'
      | (Inr True, ctxs', s') \<Rightarrow> (Inr True, ctxs', s')
      | (Inl e, ctxs', s') \<Rightarrow> (Inl e, ctxs', s'))"

text \<open>
  The \<^verbatim>\<open>while True\<close> loop of \<^verbatim>\<open>select_and_start_cluster\<close>; the first argument bounds
  the number of rounds (of this loop and of the loop inside \<^verbatim>\<open>get_clusters\<close>).
\<close>

fun select_loop ::
  "nat \<Rightarrow> plugin \<Rightarrow> env \<Rightarrow> string \<Rightarrow> cluster list \<Rightarrow> contexts \<Rightarrow> state
     \<Rightarrow> (exn option \<times> contexts \<times> state) option" where
  "select_loop 0 P E platform clusters ctxs s = None"
| "select_loop (Suc n) P E platform clusters ctxs s =
     (case get_clusters n E (find_cluster_retry_delay P) platform ctxs clusters (st_world s) of
        None \<Rightarrow> None
      | Some (Inl ex, ctxs1, w1) \<Rightarrow>
          (case ex of
             AllClustersFailedException m \<Rightarrow>
               (let build_info = placeholder_WorkerBuildInfo platform;
                    build_info = build_info\<lparr>wb_monitor_exception := Some (MonStr (str_exn ex))\<rparr>
                in Some (None, ctxs1,
                         s\<lparr>st_world := w1, worker_builds := worker_builds s @ [build_info]\<rparr>))
           | _ \<Rightarrow> Some (Some ex, ctxs1, s\<lparr>st_world := w1\<rparr>))
      | Some (Inr possible_cluster_info, ctxs1, w1) \<Rightarrow>
          (case start_on_clusters P E possible_cluster_info ctxs1 (s\<lparr>st_world := w1\<rparr>) of
             (Inl e, ctxs2, s2) \<Rightarrow> Some (Some e, ctxs2, s2)
           | (Inr True, ctxs2, s2) \<Rightarrow> Some (None, ctxs2, s2)
           | (Inr False, ctxs2, s2) \<Rightarrow> select_loop n P E platform clusters ctxs2 s2))"

text \<open>\<^verbatim>\<open>{cluster.name: ClusterRetryContext(self.max_cluster_fails) for cluster in clusters}\<close>\<close>

definition new_retry_contexts :: "plugin \<Rightarrow> cluster list \<Rightarrow> contexts" where
  "new_retry_contexts P clusters =
     foldl (\<lambda>d c. dict_set d (name c) (new_ClusterRetryContext (plugin_max_cluster_fails P)))
       [] clusters"

definition select_and_start_cluster ::
  "nat \<Rightarrow> plugin \<Rightarrow> env \<Rightarrow> string \<Rightarrow> state \<Rightarrow> (exn option \<times> state) option" where
  "select_and_start_cluster fuel P E platform s =
     (let clusters = get_enabled_clusters_for_platform P platform in
      if clusters = []
      then Some (Some (UnknownPlatformException
                         (''No clusters found for platform '' @ platform @ ''!'')), s)
      else (case select_loop fuel P E platform clusters (new_retry_contexts P clusters) s of
              None \<Rightarrow> None
            | Some (r, ctxs, s') \<Rightarrow> Some (r, s')))"

section \<open>The dispatch: run\<close>

text \<open>
  \<^verbatim>\<open>ThreadPool(len(platforms)).map_async(self.select_and_start_cluster, platforms)\<close>
  followed by \<^verbatim>\<open>result.get()\<close>.  Each platform is a task of its own; the pool runs every
  task to its end and the result becomes ready when all have ended, holding the first
  exception raised.  The tasks share nothing but the environment and the list
  \<^verbatim>\<open>self.worker_builds\<close>, to which each appends: the model runs them one after another in
  the order of \<^verbatim>\<open>platforms\<close>.
\<close>

fun run_tasks ::
  "nat \<Rightarrow> plugin \<Rightarrow> env \<Rightarrow> string list \<Rightarrow> state \<Rightarrow> (exn option \<times> state) option" where
  "run_tasks fuel P E [] s = Some (None, s)"
| "run_tasks fuel P E (platform # rest) s =
     (case select_and_start_cluster fuel P E platform s of
        None \<Rightarrow> None
      | Some (r, s1) \<Rightarrow>
          (case run_tasks fuel P E rest s1 of
             None \<Rightarrow> None
           | Some (r', s2) \<Rightarrow> Some (case r of Some e \<Rightarrow> Some e | None \<Rightarrow> r', s2)))"

text \<open>
  \<^verbatim>\<open>ThreadPool(...).map(lambda bi: bi.cancel_build(), self.worker_builds)\<close>: every build
  is cancelled, the first exception is raised afterwards.
\<close>

fun cancel_all :: "env \<Rightarrow> WorkerBuildInfo list \<Rightarrow> world \<Rightarrow> exn option \<times> world" where
  "cancel_all E [] w = (None, w)"
| "cancel_all E (bi # rest) w =
     (case cancel_build E bi w of
        (r, w1) \<Rightarrow>
          (case cancel_all E rest w1 of
             (r', w2) \<Rightarrow> (case r of Some e \<Rightarrow> Some e | None \<Rightarrow> r', w2)))"

definition build_failed :: "WorkerBuildInfo \<Rightarrow> bool" where
  "build_failed build_info =
     (case wb_build build_info of None \<Rightarrow> True | Some b \<Rightarrow> \<not> is_succeeded b)"

text \<open>
  The dictionary comprehension \<^verbatim>\<open>fail_reasons\<close> of \<^verbatim>\<open>run\<close>, over the remaining worker
  builds, \<open>acc\<close> holding the entries made so far.
\<close>

fun fail_reasons_of ::
  "env \<Rightarrow> WorkerBuildInfo list \<Rightarrow> (string \<times> pydict) list \<Rightarrow> world
     \<Rightarrow> ((exn + (string \<times> pydict) list) \<times> world) option" where
  "fail_reasons_of E [] acc w = Some (Inr acc, w)"
| "fail_reasons_of E (build_info # rest) acc w =
     (if build_failed build_info then
        (case get_fail_reason E build_info w of
           None \<Rightarrow> None
         | Some (Inl e, w1) \<Rightarrow> Some (Inl e, w1)
         | Some (Inr reason, w1) \<Rightarrow>
             fail_reasons_of E rest (dict_set acc (wb_platform build_info) reason) w1)
      else fail_reasons_of E rest acc w)"

text \<open>\<^verbatim>\<open>{build_info.platform: build_info for build_info in self.worker_builds}\<close>\<close>

definition build_info_by_platform :: "WorkerBuildInfo list \<Rightarrow> (string \<times> WorkerBuildInfo) list" where
  "build_info_by_platform bs = foldl (\<lambda>d bi. dict_set d (wb_platform bi) bi) [] bs"

definition run :: "nat \<Rightarrow> plugin \<Rightarrow> env \<Rightarrow> state \<Rightarrow> ((exn + unit) \<times> state) option" where
  "run fuel P E s =
     (if platforms P = []
      then Some (Inl (RuntimeError ''No enabled platform to build on''), s)
      else
        (case run_tasks fuel P E (platforms P) s of
           None \<Rightarrow> None
         | Some (Some e, s1) \<Rightarrow>
             (case cancel_all E (worker_builds s1) (st_world s1) of
                (Some ce, w) \<Rightarrow> Some (Inl ce, s1\<lparr>st_world := w\<rparr>)
              | (None, w) \<Rightarrow> Some (Inl e, s1\<lparr>st_world := w\<rparr>))
         | Some (None, s1) \<Rightarrow>
             (case fail_reasons_of E (worker_builds s1) [] (st_world s1) of
                None \<Rightarrow> None
              | Some (Inl e, w) \<Rightarrow> Some (Inl e, s1\<lparr>st_world := w\<rparr>)
              | Some (Inr fail_reasons, w) \<Rightarrow>
                  (let s2 = s1\<lparr>st_world := w,
                              st_workspace := (st_workspace s1)
                                \<lparr>ws_koji_upload_dir := Some (koji_upload_dir P),
                                 ws_build_info :=
                                   Some (build_info_by_platform (worker_builds s1))\<rparr>\<rparr>
                   in if fail_reasons \<noteq> []
                      then Some (Inl (PluginFailedException
                                        (json_dumps E (PDict (map (\<lambda>pr. (fst pr, PDict (snd pr)))
                                                                fail_reasons)))), s2)
                      else Some (Inr (), s2)))))"

section \<open>Notions used in the statements\<close>

fun event_cluster :: "event \<Rightarrow> string option" where
  "event_cluster (ListBuilds c p) = Some c"
| "event_cluster (Sleep n) = None"
| "event_cluster (CreateWorkerBuild c kw) = Some c"
| "event_cluster (GetBuildLogs c b) = Some c"
| "event_cluster (WaitForBuild c b) = Some c"
| "event_cluster (CancelBuild c b) = Some c"
| "event_cluster (GetPodForBuild c b) = Some c"

definition new_events :: "world \<Rightarrow> world \<Rightarrow> event list" where
  "new_events w w' = drop (length (trace w)) (trace w')"

definition later :: "world \<Rightarrow> world \<Rightarrow> bool" where
  "later w w' \<longleftrightarrow> clock w \<le> clock w' \<and> take (length (trace w)) (trace w') = trace w"

definition dead :: "contexts \<Rightarrow> string \<Rightarrow> bool" where
  "dead ctxs k = (case map_of ctxs k of None \<Rightarrow> False | Some ctx \<Rightarrow> failed ctx)"

definition ctxs_rel :: "contexts \<Rightarrow> contexts \<Rightarrow> bool" where
  "ctxs_rel ctxs ctxs' \<longleftrightarrow>
     (\<forall>k. rel_option (\<lambda>ctx ctx'. failed ctx \<longrightarrow> ctx' = ctx) (map_of ctxs k) (map_of ctxs' k))"

definition fresh_info :: "contexts \<Rightarrow> string \<Rightarrow> cluster \<times> ClusterInfo \<Rightarrow> bool" where
  "fresh_info ctxs0 p x \<longleftrightarrow>
     ci_cluster (snd x) = fst x \<and> ci_osbs (snd x) = name (fst x) \<and> ci_platform (snd x) = p \<and>
     \<not> dead ctxs0 (name (fst x))"

definition ranked_before :: "ClusterInfo \<Rightarrow> ClusterInfo \<Rightarrow> bool" where
  "ranked_before a b \<longleftrightarrow>
     ci_load a < ci_load b \<or>
     (ci_load a = ci_load b \<and> priority (ci_cluster a) \<le> priority (ci_cluster b))"

definition usable :: "contexts \<Rightarrow> int \<Rightarrow> cluster \<Rightarrow> bool" where
  "usable ctxs now c =
     (case map_of ctxs (name c) of
        None \<Rightarrow> False
      | Some ctx \<Rightarrow> \<not> failed ctx \<and> \<not> in_retry_wait now ctx)"

definition answers :: "env \<Rightarrow> string \<Rightarrow> cluster \<Rightarrow> bool" where
  "answers E p c \<longleftrightarrow> (\<forall>n. \<exists>b. osbs_list_builds E (name c) p n = Inr b)"

definition exhausted_build_info :: "string \<Rightarrow> string \<Rightarrow> WorkerBuildInfo" where
  "exhausted_build_info platform m =
     (placeholder_WorkerBuildInfo platform)\<lparr>wb_monitor_exception := Some (MonStr m)\<rparr>"

definition no_cluster_message :: string where
  "no_cluster_message = ''Could not find appropriate cluster for worker build.''"

text \<open>
  The entries of a failure reason before the build is inspected: the monitor exception's
  text if one is recorded, else ``build not started'' if there is no build.
\<close>

definition base_reason :: "WorkerBuildInfo \<Rightarrow> pydict" where
  "base_reason bi =
     (if truthy_monitor (wb_monitor_exception bi)
      then [(''general'', PStr (str_monitor (wb_monitor_exception bi)))]
      else if wb_build bi = None then [(''general'', PStr ''build not started'')]
      else [])"

text \<open>What asking for the pod of the build and for its failure reason gives at \<open>w\<close>.\<close>

definition pod_outcome :: "env \<Rightarrow> WorkerBuildInfo \<Rightarrow> build_response \<Rightarrow> world \<Rightarrow> exn + pyval" where
  "pod_outcome E bi b w =
     (case wb_osbs bi of
        None \<Rightarrow> Inl no_osbs
      | Some osbs \<Rightarrow> osbs_pod_failure_reason E osbs (build_name b) (length (trace w)))"

text \<open>
  The heap \<open>h'\<close> holds every object of \<open>h\<close> unchanged (and possibly new ones).
\<close>

definition heap_extends :: "heap \<Rightarrow> heap \<Rightarrow> bool" where
  "heap_extends h h' \<longleftrightarrow> length h \<le> length h' \<and> take (length h) h' = h"

text \<open>
  The contents that \<^verbatim>\<open>get_worker_build_kwargs\<close> gives to its copy of
  \<^verbatim>\<open>self.build_kwargs\<close> before the reactor configuration is looked at, and to its copy
  of the reactor configuration before the content versions are filtered.
\<close>

definition adjusted_kwargs :: "pyval \<Rightarrow> string \<Rightarrow> pyval \<Rightarrow> int option \<Rightarrow> pydict \<Rightarrow> pydict" where
  "adjusted_kwargs rel platform upload_dir task_id d =
     (let d = dict_set (dict_set (dict_set (dict_pop d ''architecture'') ''release'' rel)
                 ''platform'' (PStr platform)) ''koji_upload_dir'' upload_dir
      in case task_id of
           None \<Rightarrow> d
         | Some t \<Rightarrow> if t \<noteq> 0 then dict_set d ''filesystem_koji_task_id'' (PInt t) else d)"

definition adjusted_reactor_conf :: "pyval \<Rightarrow> pydict \<Rightarrow> pydict" where
  "adjusted_reactor_conf worker_openshift d =
     dict_pop (dict_set d ''openshift'' worker_openshift) ''worker_token_secrets''"

text \<open>
  The request at position \<open>n\<close> of the trace was refused: the session raised
  \<^verbatim>\<open>OsbsException\<close>.  Only the load query and the creation of a build can be refused in
  this sense; these are the requests after which \<^verbatim>\<open>try_again_later\<close> is called.
\<close>

definition refused :: "env \<Rightarrow> nat \<Rightarrow> event \<Rightarrow> bool" where
  "refused E n ev =
     (case ev of
        ListBuilds c p \<Rightarrow>
          (case osbs_list_builds E c p n of Inl e \<Rightarrow> is_OsbsException e | Inr b \<Rightarrow> False)
      | CreateWorkerBuild c kw \<Rightarrow>
          (case osbs_create_worker_build E c kw n of Inl e \<Rightarrow> is_OsbsException e | Inr b \<Rightarrow> False)
      | _ \<Rightarrow> False)"

text \<open>The number of refused requests to cluster \<open>k\<close> at the positions \<open>i \<le> n < j\<close> of a trace.\<close>

definition refusals :: "env \<Rightarrow> string \<Rightarrow> event list \<Rightarrow> nat \<Rightarrow> nat \<Rightarrow> nat" where
  "refusals E k tr i j =
     length (filter (\<lambda>n. event_cluster (tr ! n) = Some k \<and> refused E n (tr ! n)) [i..<j])"

text \<open>
  The retry context of cluster \<open>k\<close> keeps count of the refusals since position \<open>i0\<close> of
  the trace, where it was \<open>ctx0\<close>, and every request to \<open>k\<close> since then was sent while
  the count was below the maximum.
\<close>

definition tracked :: "env \<Rightarrow> string \<Rightarrow> ClusterRetryContext \<Rightarrow> nat \<Rightarrow> contexts \<Rightarrow> world \<Rightarrow> bool" where
  "tracked E k ctx0 i0 ctxs w \<longleftrightarrow>
     i0 \<le> length (trace w) \<and>
     (\<exists>ctx. map_of ctxs k = Some ctx \<and> max_cluster_fails ctx = max_cluster_fails ctx0 \<and>
            fails ctx = fails ctx0 + int (refusals E k (trace w) i0 (length (trace w)))) \<and>
     (\<forall>n. i0 \<le> n \<and> n < length (trace w) \<and> event_cluster (trace w ! n) = Some k \<longrightarrow>
          fails ctx0 + int (refusals E k (trace w) i0 n) < max_cluster_fails ctx0)"

text \<open>
  The load query of a cluster is answered: whenever it is made, \<^verbatim>\<open>get_cluster_info\<close>
  returns a \<^verbatim>\<open>ClusterInfo\<close>.
\<close>

definition load_query_answers :: "env \<Rightarrow> string \<Rightarrow> cluster \<Rightarrow> bool" where
  "load_query_answers E p c \<longleftrightarrow> (\<forall>w. \<exists>ci w'. get_cluster_info E c p w = (Inr ci, w'))"

text \<open>
  The load of a \<^verbatim>\<open>ClusterInfo\<close> is the quotient, as the float division gives it, of a
  number of active builds that the cluster reported by its \<^verbatim>\<open>max_concurrent_builds\<close>.
\<close>

definition load_measured :: "env \<Rightarrow> string \<Rightarrow> ClusterInfo \<Rightarrow> bool" where
  "load_measured E p ci \<longleftrightarrow>
     max_concurrent_builds (ci_cluster ci) \<noteq> 0 \<and>
     (\<exists>n b. osbs_list_builds E (name (ci_cluster ci)) p n = Inr b \<and>
            ci_load ci = float_div E b (max_concurrent_builds (ci_cluster ci)))"

text \<open>Requests to cancel a build.\<close>

fun is_cancel :: "event \<Rightarrow> bool" where
  "is_cancel (CancelBuild c b) = True"
| "is_cancel e = False"

text \<open>
  The build information of a build \<open>b\<close> created on the cluster of \<open>cluster_info\<close> whose
  monitoring raised \<open>e\<close>.
\<close>

definition monitor_failed_info :: "build_response \<Rightarrow> ClusterInfo \<Rightarrow> exn \<Rightarrow> WorkerBuildInfo" where
  "monitor_failed_info b cluster_info e =
     (new_WorkerBuildInfo (Some b) cluster_info)\<lparr>wb_monitor_exception := Some (MonExc e)\<rparr>"

text \<open>
  Every dictionary that the override mapping of the workspace refers to is an object of
  the heap: a Python reference points to a live object.
\<close>

definition live_overrides :: "state \<Rightarrow> bool" where
  "live_overrides s =
     (case ws_override_kwargs (st_workspace s) of
        None \<Rightarrow> True
      | Some ov \<Rightarrow> list_all (\<lambda>ka. snd ka < length (st_heap s)) ov)"

text \<open>
  The overrides that the workspace holds under key \<open>k\<close> (\<open>None\<close> for all platforms,
  or a platform); empty when there are none.
\<close>

definition override_for :: "state \<Rightarrow> string option \<Rightarrow> pydict" where
  "override_for s k =
     (case ws_override_kwargs (st_workspace s) of
        None \<Rightarrow> []
      | Some ov \<Rightarrow> (case map_of ov k of None \<Rightarrow> [] | Some a \<Rightarrow> heap_get (st_heap s) a))"

text \<open>
  The build parameters as the specification describes them: the value of a key is taken
  from the platform's overrides, else from the overrides for all platforms, else from the
  base parameters.
\<close>

definition spec_build_parameters :: "pydict \<Rightarrow> pydict \<Rightarrow> pydict \<Rightarrow> string \<Rightarrow> pyval option" where
  "spec_build_parameters base glob plat k =
     (case map_of plat k of
        Some v \<Rightarrow> Some v
      | None \<Rightarrow> (case map_of glob k of Some v \<Rightarrow> Some v | None \<Rightarrow> map_of base k))"

subsection \<open>A scenario: two healthy clusters\<close>

text \<open>
  Every cluster answers its load query with two active builds, creates the build it is
  asked for and reports it complete; every request takes a microsecond.  The decoder
  answers as \<^verbatim>\<open>json.loads\<close> does for the three JSON texts the scenarios use and for the
  text \<^verbatim>\<open>not json\<close>; the scenarios decode no other text.
\<close>

definition errors_general_text :: string where
  \<open>errors_general_text = ''{"errors": {"general": "plugin failed"}}''\<close>

definition scenario_json_loads :: "string \<Rightarrow> exn + pyval" where
  "scenario_json_loads t =
     (if t = ''{}'' then Inr (PDict [])
      else if t = ''[]'' then Inr (PList [])
      else if t = errors_general_text
      then Inr (PDict [(''errors'', PDict [(''general'', PStr ''plugin failed'')])])
      else Inl (ValueError ''Expecting value: line 1 column 1 (char 0)''))"

definition healthy_env :: env where
  "healthy_env =
     \<lparr>latency = (\<lambda>n. 1),
      float_div = (\<lambda>a b. of_nat a / of_int b),
      osbs_list_builds = (\<lambda>c p n. Inr 2),
      osbs_build_conf = (\<lambda>c. (PStr ''https://worker/'', PBool True, PNone)),
      osbs_create_worker_build =
        (\<lambda>c kw n. Inr \<lparr>build_name = ''worker-build-'' @ c, annotations = Some [],
                          is_finished = False, is_succeeded = False\<rparr>),
      osbs_get_build_logs = (\<lambda>c b n. None),
      osbs_wait_for_build_to_finish =
        (\<lambda>c b n. Inr \<lparr>build_name = b, annotations = Some [],
                         is_finished = True, is_succeeded = True\<rparr>),
      osbs_cancel_build = (\<lambda>c b n. None),
      osbs_pod_failure_reason = (\<lambda>c b n. Inl (OsbsException ''no pod'')),
      json_loads = scenario_json_loads,
      json_dumps = (\<lambda>v. ''{}'')\<rparr>"

definition cluster_a :: cluster where
  "cluster_a = \<lparr>name = ''a'', priority = 1, max_concurrent_builds = 4\<rparr>"
definition cluster_b :: cluster where
  "cluster_b = \<lparr>name = ''b'', priority = 0, max_concurrent_builds = 8\<rparr>"
definition world0 :: world where "world0 = \<lparr>clock = 1000, trace = []\<rparr>"
definition ctxs_ab :: contexts where
  "ctxs_ab = [(''a'', new_ClusterRetryContext 20), (''b'', new_ClusterRetryContext 20)]"

definition plugin0 :: plugin where
  "plugin0 =
     \<lparr>platforms = [''x86_64''],
      build_kwargs = 0,
      reactor_config_is_default = True,
      reactor_config_conf = 1,
      get_enabled_clusters_for_platform =
        (\<lambda>p. if p = ''x86_64'' then [cluster_a, cluster_b] else []),
      find_cluster_retry_delay = 15000000,
      failure_retry_delay = 10000000,
      plugin_max_cluster_fails = 20,
      release = PStr ''10'',
      koji_upload_dir = PStr ''koji-upload/1'',
      fs_task_id = None\<rparr>"

definition state0 :: state where
  "state0 =
     \<lparr>st_world = world0,
      st_heap = [[(''git_uri'', PStr ''https://git/repo''), (''user'', PStr ''bacon'')], []],
      worker_builds = [],
      st_workspace = \<lparr>ws_override_kwargs = None, ws_koji_upload_dir = None,
                      ws_build_info = None\<rparr>\<rparr>"

definition ctxs_a_dead :: contexts where
  "ctxs_a_dead =
     [(''a'', \<lparr>fails = 20, retry_at = 0, max_cluster_fails = 20\<rparr>),
      (''b'', new_ClusterRetryContext 20)]"






subsection \<open>A scenario: builds whose metadata cannot be used\<close>

definition undecodable_build :: WorkerBuildInfo where
  "undecodable_build =
     \<lparr>wb_build = Some \<lparr>build_name = ''worker-build-1'',
                        annotations = Some [(''plugins-metadata'', ''not json'')],
                        is_finished = True, is_succeeded = False\<rparr>,
      wb_cluster = Some cluster_a, wb_osbs = Some ''a'', wb_platform = ''x86_64'',
      wb_monitor_exception = None\<rparr>"

definition list_metadata_build :: WorkerBuildInfo where
  "list_metadata_build =
     \<lparr>wb_build = Some \<lparr>build_name = ''worker-build-2'',
                        annotations = Some [(''plugins-metadata'', ''[]'')],
                        is_finished = True, is_succeeded = False\<rparr>,
      wb_cluster = Some cluster_a, wb_osbs = Some ''a'', wb_platform = ''x86_64'',
      wb_monitor_exception = None\<rparr>"

definition errors_general_build :: WorkerBuildInfo where
  "errors_general_build =
     \<lparr>wb_build = Some \<lparr>build_name = ''worker-build-3'',
                        annotations = Some [(''plugins-metadata'', errors_general_text)],
                        is_finished = True, is_succeeded = False\<rparr>,
      wb_cluster = Some cluster_a, wb_osbs = Some ''a'', wb_platform = ''x86_64'',
      wb_monitor_exception = None\<rparr>"

definition unwatched_build :: WorkerBuildInfo where
  "unwatched_build =
     \<lparr>wb_build = Some \<lparr>build_name = ''worker-build-4'', annotations = None,
                        is_finished = True, is_succeeded = False\<rparr>,
      wb_cluster = Some cluster_a, wb_osbs = Some ''a'', wb_platform = ''x86_64'',
      wb_monitor_exception = Some (MonExc (OtherException ''it happens''))\<rparr>"

subsection \<open>A scenario: the reactor configuration leaves no content version\<close>

text \<open>
  The reactor configuration is not the default one and lists only the content version
  \<^verbatim>\<open>v1\<close>, which \<^verbatim>\<open>_update_content_versions\<close> removes.
\<close>

definition plugin_v1 :: plugin where
  "plugin_v1 = plugin0\<lparr>reactor_config_is_default := False\<rparr>"

definition state_v1 :: state where
  "state_v1 =
     state0\<lparr>st_heap := [[(''git_uri'', PStr ''https://git/repo''), (''user'', PStr ''bacon'')],
                         [(''version'', PInt 1), (''content_versions'', PList [PStr ''v1''])]]\<rparr>"

definition info_b :: ClusterInfo where
  "info_b = \<lparr>ci_cluster = cluster_b, ci_platform = ''x86_64'', ci_osbs = ''b'', ci_load = 1/4\<rparr>"

subsection \<open>A scenario: the session fails to create the build\<close>

definition create_boom_env :: env where
  "create_boom_env =
     healthy_env\<lparr>osbs_create_worker_build := (\<lambda>c kw n. Inl (OtherException ''boom''))\<rparr>"

subsection \<open>A scenario: every cluster refuses to create the build\<close>

text \<open>
  The load queries are answered, the creation of a build is refused, and one failure
  makes a cluster dead.  In \<open>plugin_twins\<close> the platform has two clusters of the same
  name, which share one retry context.
\<close>

definition refuse_env :: env where
  "refuse_env =
     healthy_env\<lparr>osbs_create_worker_build := (\<lambda>c kw n. Inl (OsbsException ''refused''))\<rparr>"

definition plugin_one :: plugin where
  "plugin_one = plugin0\<lparr>find_cluster_retry_delay := 2, failure_retry_delay := 2,
                        plugin_max_cluster_fails := 1\<rparr>"

definition cluster_a2 :: cluster where
  "cluster_a2 = \<lparr>name = ''a'', priority = 2, max_concurrent_builds = 4\<rparr>"

definition plugin_twins :: plugin where
  "plugin_twins =
     plugin_one\<lparr>get_enabled_clusters_for_platform :=
                  (\<lambda>p. if p = ''x86_64'' then [cluster_a, cluster_a2] else [])\<rparr>"

definition ctxs_ab1 :: contexts where
  "ctxs_ab1 = [(''a'', new_ClusterRetryContext 1), (''b'', new_ClusterRetryContext 1)]"

definition ctxs_a1 :: contexts where
  "ctxs_a1 = [(''a'', new_ClusterRetryContext 1)]"

definition info_a :: ClusterInfo where
  "info_a = \<lparr>ci_cluster = cluster_a, ci_platform = ''x86_64'', ci_osbs = ''a'', ci_load = 1/2\<rparr>"

definition info_a2 :: ClusterInfo where
  "info_a2 = \<lparr>ci_cluster = cluster_a2, ci_platform = ''x86_64'', ci_osbs = ''a'', ci_load = 1/2\<rparr>"

subsection \<open>A scenario: waiting for the build fails\<close>

text \<open>
  The build is created with a \<^verbatim>\<open>plugins-metadata\<close> annotation that has its own
  \<^verbatim>\<open>general\<close> error; waiting for it raises.
\<close>

definition wait_fails_env :: env where
  "wait_fails_env =
     healthy_env\<lparr>osbs_create_worker_build :=
                   (\<lambda>c kw n. Inr \<lparr>build_name = ''worker-build-'' @ c,
                                     annotations = Some [(''plugins-metadata'', errors_general_text)],
                                     is_finished = False, is_succeeded = False\<rparr>),
                 osbs_wait_for_build_to_finish := (\<lambda>c b n. Inl (OsbsException ''it happens''))\<rparr>"

text \<open>Waiting raises, and so does the request to cancel the build.\<close>

definition cancel_fails_env :: env where
  "cancel_fails_env =
     healthy_env\<lparr>osbs_wait_for_build_to_finish := (\<lambda>c b n. Inl (OsbsException ''it happens'')),
                 osbs_cancel_build := (\<lambda>c b n. Some (OtherException ''cancel failed''))\<rparr>"

text \<open>The builds that the two sessions create on cluster \<^verbatim>\<open>b\<close>.\<close>

definition annotated_build :: build_response where
  "annotated_build =
     \<lparr>build_name = ''worker-build-b'',
      annotations = Some [(''plugins-metadata'', errors_general_text)],
      is_finished = False, is_succeeded = False\<rparr>"

definition plain_build :: build_response where
  "plain_build =
     \<lparr>build_name = ''worker-build-b'', annotations = Some [],
      is_finished = False, is_succeeded = False\<rparr>"

subsection \<open>A scenario: overrides for all platforms and for one platform\<close>

text \<open>
  The heap holds \<^verbatim>\<open>self.build_kwargs\<close>, the reactor configuration, the overrides for all
  platforms and the overrides for \<^verbatim>\<open>x86_64\<close>.
\<close>

definition state_ov :: state where
  "state_ov =
     state0\<lparr>st_heap := [[(''git_uri'', PStr ''https://git/repo''), (''user'', PStr ''bacon'')],
                         [],
                         [(''release'', PStr ''99''), (''user'', PStr ''eggs'')],
                         [(''release'', PStr ''4'')]],
            st_workspace := \<lparr>ws_override_kwargs = Some [(None, 2), (Some ''x86_64'', 3)],
                             ws_koji_upload_dir = None, ws_build_info = None\<rparr>\<rparr>"

definition submitted_ov :: pydict where
  "submitted_ov =
     [(''git_uri'', PStr ''https://git/repo''), (''user'', PStr ''eggs''),
      (''release'', PStr ''4''), (''platform'', PStr ''x86_64''),
      (''koji_upload_dir'', PStr ''koji-upload/1'')]"

section \<open>Dictionaries, retry contexts and the trace\<close>

lemma map_of_dict_set: "map_of (dict_set d k v) = (map_of d)(k \<mapsto> v)"
  by (induction d) auto

lemma keys_dict_set: "fst ` set (dict_set d k v) = insert k (fst ` set d)"
  by (simp add: dom_map_of_conv_image_fst[symmetric] map_of_dict_set)

lemma distinct_dict_set: "distinct (map fst d) \<Longrightarrow> distinct (map fst (dict_set d k v))"
  by (induction d) (auto simp: keys_dict_set)

lemma map_of_dict_update: "map_of (dict_update d other) = map_of d ++ map_of (rev other)"
  by (induction other arbitrary: d) (auto simp: map_of_dict_set)

lemma try_again_later_alive:
  "\<not> failed ctx \<Longrightarrow> try_again_later now d ctx = ctx\<lparr>fails := fails ctx + 1, retry_at := now + d\<rparr>"
  by (simp add: try_again_later_def)

lemma try_again_later_dead: "failed ctx \<Longrightarrow> try_again_later now d ctx = ctx"
  by (simp add: try_again_later_def)

lemma try_again_later_bound:
  "fails ctx \<le> max_cluster_fails ctx \<Longrightarrow>
   fails (try_again_later now d ctx) \<le> max_cluster_fails (try_again_later now d ctx)"
  by (auto simp: try_again_later_def failed_def)

lemma try_again_later_max [simp]:
  "max_cluster_fails (try_again_later now d ctx) = max_cluster_fails ctx"
  by (simp add: try_again_later_def)

lemma failed_try_again_later: "failed ctx \<Longrightarrow> failed (try_again_later now d ctx)"
  by (simp add: try_again_later_def)

lemma fold_try_again_later_bound:
  "fails ctx \<le> max_cluster_fails ctx \<Longrightarrow>
   fails (fold (\<lambda>(now, d). try_again_later now d) calls ctx)
     \<le> max_cluster_fails ctx \<and>
   max_cluster_fails (fold (\<lambda>(now, d). try_again_later now d) calls ctx) = max_cluster_fails ctx"
proof (induction calls arbitrary: ctx)
  case Nil then show ?case by simp
next
  case (Cons c calls)
  obtain now d where c: "c = (now, d)" by (cases c)
  have "fails (try_again_later now d ctx) \<le> max_cluster_fails (try_again_later now d ctx)"
    using Cons.prems by (rule try_again_later_bound)
  from Cons.IH[OF this] show ?case by (simp add: c)
qed

lemma later_refl [simp]: "later w w" by (simp add: later_def)

lemma later_iff: "later w w' \<longleftrightarrow> clock w \<le> clock w' \<and> (\<exists>evs. trace w' = trace w @ evs)"
  unfolding later_def by (metis append_eq_conv_conj append_take_drop_id)

lemma later_trans: "later w1 w2 \<Longrightarrow> later w2 w3 \<Longrightarrow> later w1 w3"
  unfolding later_iff by auto

lemma new_events_append:
  "later w1 w2 \<Longrightarrow> later w2 w3 \<Longrightarrow> new_events w1 w3 = new_events w1 w2 @ new_events w2 w3"
  unfolding later_iff new_events_def by auto

lemma new_events_same [simp]: "new_events w w = []" by (simp add: new_events_def)

lemma later_emit: "later w (emit E e w)" and new_events_emit: "new_events w (emit E e w) = [e]"
  by (simp_all add: later_def emit_def new_events_def)

lemma timedelta_seconds_nonneg: "0 \<le> timedelta_seconds t"
  by (simp add: timedelta_seconds_def)

lemma later_sleep: "0 \<le> n \<Longrightarrow> later w (sleep E n w)"
  and new_events_sleep: "new_events w (sleep E n w) = [Sleep n]"
  by (simp_all add: later_def emit_def new_events_def sleep_def)

lemma wait_for_any_cluster_later:
  "wait_for_any_cluster E ctxs w = (r, w') \<Longrightarrow>
     later w w' \<and> (\<forall>e \<in> set (new_events w w'). event_cluster e = None)"
  by (auto simp: wait_for_any_cluster_def Let_def later_sleep new_events_sleep
        timedelta_seconds_nonneg split: list.splits)

lemma get_cluster_info_later:
  "get_cluster_info E c p w = (r, w') \<Longrightarrow>
     later w w' \<and> new_events w w' = [ListBuilds (name c) p]"
  by (auto simp: get_cluster_info_def Let_def later_emit new_events_emit split: sum.splits if_splits)

lemma get_cluster_info_Inr:
  "get_cluster_info E c p w = (Inr ci, w') \<Longrightarrow>
     ci_cluster ci = c \<and> ci_osbs ci = name c \<and> ci_platform ci = p"
  by (auto simp: get_cluster_info_def Let_def split: sum.splits if_splits)

lemma ctxs_rel_refl [simp]: "ctxs_rel c c"
  by (simp add: ctxs_rel_def option.rel_refl)

lemma ctxs_rel_trans: "ctxs_rel a b \<Longrightarrow> ctxs_rel b c \<Longrightarrow> ctxs_rel a c"
  unfolding ctxs_rel_def
proof (intro allI)
  fix k assume ab: "\<forall>k. rel_option (\<lambda>ctx ctx'. failed ctx \<longrightarrow> ctx' = ctx) (map_of a k) (map_of b k)"
    and bc: "\<forall>k. rel_option (\<lambda>ctx ctx'. failed ctx \<longrightarrow> ctx' = ctx) (map_of b k) (map_of c k)"
  from ab[rule_format, of k] bc[rule_format, of k]
  show "rel_option (\<lambda>ctx ctx'. failed ctx \<longrightarrow> ctx' = ctx) (map_of a k) (map_of c k)"
    by (cases "map_of a k"; cases "map_of b k"; cases "map_of c k") auto
qed

lemma ctxs_rel_try_again:
  "map_of ctxs k = Some ctx \<Longrightarrow> ctxs_rel ctxs (dict_set ctxs k (try_again_later now d ctx))"
  unfolding ctxs_rel_def
  by (auto simp: map_of_dict_set try_again_later_dead option.rel_refl)

lemma ctxs_rel_dead: "ctxs_rel ctxs ctxs' \<Longrightarrow> dead ctxs k \<Longrightarrow> dead ctxs' k \<and> map_of ctxs' k = map_of ctxs k"
  unfolding ctxs_rel_def dead_def
  by (erule_tac x=k in allE) (auto split: option.splits elim: option.rel_cases)

lemma ctxs_rel_alive:
  "ctxs_rel ctxs ctxs' \<Longrightarrow> map_of ctxs' k = Some ctx' \<Longrightarrow> \<not> failed ctx' \<Longrightarrow>
     \<exists>ctx. map_of ctxs k = Some ctx \<and> \<not> failed ctx"
  unfolding ctxs_rel_def
  by (erule_tac x=k in allE) (auto elim: option.rel_cases)

lemma set_dict_set: "set (dict_set d k v) \<subseteq> insert (k, v) (set d)"
  by (induction d) (auto split: if_splits)

lemma keys_dict_set_mono: "fst ` set d \<subseteq> fst ` set (dict_set d k v)"
  by (simp add: keys_dict_set subset_insertI)

lemma not_dead_of_alive: "ctxs_rel ctxs0 ctxs \<Longrightarrow> map_of ctxs k = Some ctx \<Longrightarrow> \<not> failed ctx \<Longrightarrow> \<not> dead ctxs0 k"
  by (auto dest!: ctxs_rel_alive simp: dead_def)

lemma query_cluster_later:
  "query_cluster E p d c ctxs pci w = (r, ctxs', pci', w') \<Longrightarrow> later w w' \<and> ctxs_rel ctxs ctxs'"
  by (auto simp: query_cluster_def ctxs_rel_try_again dest: get_cluster_info_later
        split: option.splits if_splits prod.splits sum.splits)

lemma query_candidates_later:
  "query_candidates E p d cs ctxs pci w = (r, ctxs', pci', w') \<Longrightarrow> later w w' \<and> ctxs_rel ctxs ctxs'"
proof (induction cs arbitrary: ctxs pci w)
  case Nil
  then show ?case by simp
next
  case (Cons c cs)
  obtain r1 ctxs1 pci1 w1 where q: "query_cluster E p d c ctxs pci w = (r1, ctxs1, pci1, w1)"
    by (metis prod_cases4)
  note l = query_cluster_later[OF q]
  show ?case
  proof (cases r1)
    case None
    with Cons.prems q have "query_candidates E p d cs ctxs1 pci1 w1 = (r, ctxs', pci', w')" by simp
    from Cons.IH[OF this] l show ?thesis by (auto intro: later_trans ctxs_rel_trans)
  next
    case (Some e)
    with Cons.prems q l show ?thesis by auto
  qed
qed

lemma in_dict_setD: "x \<in> set (dict_set d k v) \<Longrightarrow> x = (k, v) \<or> x \<in> set d"
  using set_dict_set[of d k v] by auto

lemma query_cluster_events:
  assumes "query_cluster E p d c ctxs pci w = (r, ctxs', pci', w')" and "ctxs_rel ctxs0 ctxs"
  shows "\<forall>e\<in>set (new_events w w'). e = ListBuilds (name c) p \<and> \<not> dead ctxs0 (name c)"
  using assms
  by (auto simp: query_cluster_def dest: get_cluster_info_later not_dead_of_alive
        split: option.splits if_splits prod.splits sum.splits)

lemma query_cluster_pci:
  assumes "query_cluster E p d c ctxs pci w = (r, ctxs', pci', w')" and "ctxs_rel ctxs0 ctxs"
  shows "\<forall>x\<in>set pci'. x \<in> set pci \<or> (fst x = c \<and> fresh_info ctxs0 p x)"
  using assms
  by (auto simp: query_cluster_def fresh_info_def
        dest!: get_cluster_info_Inr in_dict_setD dest: not_dead_of_alive
        split: option.splits if_splits prod.splits sum.splits)

lemma query_cluster_other:
  assumes "query_cluster E p d c ctxs pci w = (r, ctxs', pci', w')"
  shows "\<forall>k. k \<noteq> name c \<longrightarrow> map_of ctxs' k = map_of ctxs k"
  using assms
  by (auto simp: query_cluster_def map_of_dict_set
        split: option.splits if_splits prod.splits sum.splits)

lemma query_cluster_keys:
  assumes "query_cluster E p d c ctxs pci w = (r, ctxs', pci', w')"
  shows "fst ` set pci \<subseteq> fst ` set pci'"
  using assms keys_dict_set_mono[of pci c]
  by (auto simp: query_cluster_def
        split: option.splits if_splits prod.splits sum.splits)

lemma query_candidates_events:
  "query_candidates E p d cs ctxs pci w = (r, ctxs', pci', w') \<Longrightarrow> ctxs_rel ctxs0 ctxs \<Longrightarrow>
     \<forall>e\<in>set (new_events w w'). \<exists>c\<in>set cs. e = ListBuilds (name c) p \<and> \<not> dead ctxs0 (name c)"
proof (induction cs arbitrary: ctxs pci w)
  case Nil
  then show ?case by simp
next
  case (Cons c cs)
  obtain r1 ctxs1 pci1 w1 where q: "query_cluster E p d c ctxs pci w = (r1, ctxs1, pci1, w1)"
    by (metis prod_cases4)
  note l = query_cluster_later[OF q]
  note i = query_cluster_events[OF q Cons.prems(2)]
  show ?case
  proof (cases r1)
    case None
    with Cons.prems q have rest: "query_candidates E p d cs ctxs1 pci1 w1 = (r, ctxs', pci', w')" by simp
    have rel: "ctxs_rel ctxs0 ctxs1" using Cons.prems(2) l by (auto intro: ctxs_rel_trans)
    note ih = Cons.IH[OF rest rel]
    note l2 = query_candidates_later[OF rest]
    have ev: "new_events w w' = new_events w w1 @ new_events w1 w'"
      using l l2 by (blast intro: new_events_append)
    show ?thesis unfolding ev using ih i by auto
  next
    case (Some e)
    with Cons.prems q have "w' = w1" by auto
    with i show ?thesis by auto
  qed
qed

lemma query_candidates_pci:
  "query_candidates E p d cs ctxs pci w = (r, ctxs', pci', w') \<Longrightarrow> ctxs_rel ctxs0 ctxs \<Longrightarrow>
     \<forall>x\<in>set pci'. x \<in> set pci \<or> (fst x \<in> set cs \<and> fresh_info ctxs0 p x)"
proof (induction cs arbitrary: ctxs pci w)
  case Nil
  then show ?case by simp
next
  case (Cons c cs)
  obtain r1 ctxs1 pci1 w1 where q: "query_cluster E p d c ctxs pci w = (r1, ctxs1, pci1, w1)"
    by (metis prod_cases4)
  note l = query_cluster_later[OF q]
  note i = query_cluster_pci[OF q Cons.prems(2)]
  show ?case
  proof (cases r1)
    case None
    with Cons.prems q have rest: "query_candidates E p d cs ctxs1 pci1 w1 = (r, ctxs', pci', w')" by simp
    have rel: "ctxs_rel ctxs0 ctxs1" using Cons.prems(2) l by (auto intro: ctxs_rel_trans)
    note ih = Cons.IH[OF rest rel]
    show ?thesis
    proof
      fix x assume "x \<in> set pci'"
      with ih have "x \<in> set pci1 \<or> (fst x \<in> set cs \<and> fresh_info ctxs0 p x)" by blast
      then show "x \<in> set pci \<or> (fst x \<in> set (c # cs) \<and> fresh_info ctxs0 p x)"
        using i by auto
    qed
  next
    case (Some e)
    with Cons.prems q have "pci' = pci1" by auto
    with i show ?thesis by auto
  qed
qed

lemma query_candidates_other:
  "query_candidates E p d cs ctxs pci w = (r, ctxs', pci', w') \<Longrightarrow>
     \<forall>k. k \<notin> name ` set cs \<longrightarrow> map_of ctxs' k = map_of ctxs k"
proof (induction cs arbitrary: ctxs pci w)
  case Nil
  then show ?case by simp
next
  case (Cons c cs)
  obtain r1 ctxs1 pci1 w1 where q: "query_cluster E p d c ctxs pci w = (r1, ctxs1, pci1, w1)"
    by (metis prod_cases4)
  note i = query_cluster_other[OF q]
  show ?case
  proof (cases r1)
    case None
    with Cons.prems q have rest: "query_candidates E p d cs ctxs1 pci1 w1 = (r, ctxs', pci', w')" by simp
    from Cons.IH[OF rest] i show ?thesis by auto
  next
    case (Some e)
    with Cons.prems q have "ctxs' = ctxs1" by auto
    with i show ?thesis by auto
  qed
qed

lemma query_candidates_keys:
  "query_candidates E p d cs ctxs pci w = (r, ctxs', pci', w') \<Longrightarrow> fst ` set pci \<subseteq> fst ` set pci'"
proof (induction cs arbitrary: ctxs pci w)
  case Nil
  then show ?case by simp
next
  case (Cons c cs)
  obtain r1 ctxs1 pci1 w1 where q: "query_cluster E p d c ctxs pci w = (r1, ctxs1, pci1, w1)"
    by (metis prod_cases4)
  note i = query_cluster_keys[OF q]
  show ?case
  proof (cases r1)
    case None
    with Cons.prems q have rest: "query_candidates E p d cs ctxs1 pci1 w1 = (r, ctxs', pci', w')" by simp
    from Cons.IH[OF rest] i show ?thesis by blast
  next
    case (Some e)
    with Cons.prems q have "pci' = pci1" by auto
    with i show ?thesis by auto
  qed
qed

lemma remove_failed_subset: "remove_failed ctxs cs = Inr cs' \<Longrightarrow> set cs' \<subseteq> set cs"
  by (induction cs arbitrary: cs') (auto split: option.splits sum.splits if_splits)

lemma get_clusters_loop_nonempty:
  "pci \<noteq> [] \<Longrightarrow> get_clusters_loop n E p d cands ctxs pci w = Some (Inr pci, ctxs, w)"
  by (cases n) auto

lemma get_clusters_loop_SucE:
  assumes "get_clusters_loop (Suc n) E p d cands ctxs pci w = Some res"
    and "cands \<noteq> []" and "pci = []"
  obtains (wait_fail) e w1 where
      "wait_for_any_cluster E ctxs w = (Inl e, w1)" "res = (Inl e, ctxs, w1)"
  | (query_fail) u w1 e ctxs2 pci2 w2 where
      "wait_for_any_cluster E ctxs w = (Inr u, w1)"
      "query_candidates E p d (sort_key priority cands) ctxs pci w1 = (Some e, ctxs2, pci2, w2)"
      "res = (Inl e, ctxs2, w2)"
  | (remove_fail) u w1 e ctxs2 pci2 w2 where
      "wait_for_any_cluster E ctxs w = (Inr u, w1)"
      "query_candidates E p d (sort_key priority cands) ctxs pci w1 = (None, ctxs2, pci2, w2)"
      "remove_failed ctxs2 cands = Inl e"
      "res = (Inl e, ctxs2, w2)"
  | (round) u w1 ctxs2 pci2 w2 cands2 where
      "wait_for_any_cluster E ctxs w = (Inr u, w1)"
      "query_candidates E p d (sort_key priority cands) ctxs pci w1 = (None, ctxs2, pci2, w2)"
      "remove_failed ctxs2 cands = Inr cands2"
      "get_clusters_loop n E p d cands2 ctxs2 pci2 w2 = Some res"
  using assms
  by (auto split: prod.splits sum.splits option.splits)

lemma get_clusters_loop_stop:
  "\<not> (cands \<noteq> [] \<and> pci = []) \<Longrightarrow>
     get_clusters_loop n E p d cands ctxs pci w = Some (Inr pci, ctxs, w)"
  by (cases n) auto

lemma get_clusters_loop_inv:
  "get_clusters_loop n E p d cands ctxs pci w = Some (r, ctxs', w') \<Longrightarrow> ctxs_rel ctxs0 ctxs \<Longrightarrow>
     later w w' \<and> ctxs_rel ctxs ctxs' \<and>
     (\<forall>e\<in>set (new_events w w'). event_cluster e = None \<or>
         (\<exists>c\<in>set cands. e = ListBuilds (name c) p \<and> \<not> dead ctxs0 (name c))) \<and>
     (\<forall>pci'. r = Inr pci' \<longrightarrow>
         (\<forall>x\<in>set pci'. x \<in> set pci \<or> (fst x \<in> set cands \<and> fresh_info ctxs0 p x)))"
proof (induction n arbitrary: cands ctxs pci w)
  case 0
  then show ?case by (auto split: if_splits)
next
  case (Suc n)
  show ?case
  proof (cases "cands \<noteq> [] \<and> pci = []")
    case False
    with Suc.prems get_clusters_loop_stop[OF False, of "Suc n" E p d ctxs w] show ?thesis by auto
  next
    case True
    then have c: "cands \<noteq> []" and pe: "pci = []" by auto
    from Suc.prems(1) c pe show ?thesis
    proof (cases rule: get_clusters_loop_SucE)
      case (wait_fail e w1)
      with wait_for_any_cluster_later[OF wait_fail(1)] show ?thesis by auto
    next
      case (query_fail u w1 e ctxs2 pci2 w2)
      note lw = wait_for_any_cluster_later[OF query_fail(1)]
      note lq = query_candidates_later[OF query_fail(2)]
      note eq = query_candidates_events[OF query_fail(2) Suc.prems(2)]
      have ev: "new_events w w2 = new_events w w1 @ new_events w1 w2"
        using lw lq by (blast intro: new_events_append)
      have "later w w2" using lw lq by (auto intro: later_trans)
      moreover have "\<forall>e\<in>set (new_events w w2). event_cluster e = None \<or>
         (\<exists>c\<in>set cands. e = ListBuilds (name c) p \<and> \<not> dead ctxs0 (name c))"
        unfolding ev using lw eq by auto
      ultimately show ?thesis using query_fail(3) lq by auto
    next
      case (remove_fail u w1 e ctxs2 pci2 w2)
      note lw = wait_for_any_cluster_later[OF remove_fail(1)]
      note lq = query_candidates_later[OF remove_fail(2)]
      note eq = query_candidates_events[OF remove_fail(2) Suc.prems(2)]
      have ev: "new_events w w2 = new_events w w1 @ new_events w1 w2"
        using lw lq by (blast intro: new_events_append)
      have "later w w2" using lw lq by (auto intro: later_trans)
      moreover have "\<forall>e\<in>set (new_events w w2). event_cluster e = None \<or>
         (\<exists>c\<in>set cands. e = ListBuilds (name c) p \<and> \<not> dead ctxs0 (name c))"
        unfolding ev using lw eq by auto
      ultimately show ?thesis using remove_fail(4) lq by auto
    next
      case (round u w1 ctxs2 pci2 w2 cands2)
      note lw = wait_for_any_cluster_later[OF round(1)]
      note lq = query_candidates_later[OF round(2)]
      note eq = query_candidates_events[OF round(2) Suc.prems(2)]
      note pq = query_candidates_pci[OF round(2) Suc.prems(2)]
      note sub = remove_failed_subset[OF round(3)]
      have rel: "ctxs_rel ctxs0 ctxs2" using Suc.prems(2) lq by (auto intro: ctxs_rel_trans)
      note ih = Suc.IH[OF round(4) rel]
      note ih1 = ih[THEN conjunct1]
      note ih2 = ih[THEN conjunct2, THEN conjunct1]
      note ih3 = ih[THEN conjunct2, THEN conjunct2, THEN conjunct1]
      note ih4 = ih[THEN conjunct2, THEN conjunct2, THEN conjunct2]
      have l12: "later w w2" using lw lq by (auto intro: later_trans)
      have ev12: "new_events w w2 = new_events w w1 @ new_events w1 w2"
        using lw lq by (blast intro: new_events_append)
      have ev: "new_events w w' = new_events w w2 @ new_events w2 w'"
        using l12 ih1 by (blast intro: new_events_append)
      show ?thesis
      proof (intro conjI)
        show "later w w'" using l12 ih1 by (rule later_trans)
        show "ctxs_rel ctxs ctxs'" using lq ih2 by (auto intro: ctxs_rel_trans)
        show "\<forall>e\<in>set (new_events w w'). event_cluster e = None \<or>
           (\<exists>c\<in>set cands. e = ListBuilds (name c) p \<and> \<not> dead ctxs0 (name c))"
        proof
          fix e assume "e \<in> set (new_events w w')"
          then consider "e \<in> set (new_events w w1)" | "e \<in> set (new_events w1 w2)"
            | "e \<in> set (new_events w2 w')" unfolding ev ev12 by auto
          then show "event_cluster e = None \<or>
             (\<exists>c\<in>set cands. e = ListBuilds (name c) p \<and> \<not> dead ctxs0 (name c))"
          proof cases
            case 1 then show ?thesis using lw by auto
          next
            case 2 then show ?thesis using eq by auto
          next
            case 3 then show ?thesis using ih3 sub by blast
          qed
        qed
        show "\<forall>pci'. r = Inr pci' \<longrightarrow>
           (\<forall>x\<in>set pci'. x \<in> set pci \<or> fst x \<in> set cands \<and> fresh_info ctxs0 p x)"
        proof (intro allI impI ballI)
          fix pci' x assume "r = Inr pci'" "x \<in> set pci'"
          with ih4 have "x \<in> set pci2 \<or> (fst x \<in> set cands2 \<and> fresh_info ctxs0 p x)" by blast
          then show "x \<in> set pci \<or> fst x \<in> set cands \<and> fresh_info ctxs0 p x"
            using pq sub by auto
        qed
      qed
    qed
  qed
qed

lemma insort_two_keys:
  fixes f :: "'a \<Rightarrow> 'k::linorder" and g :: "'a \<Rightarrow> 'l::linorder"
  assumes "sorted_wrt (\<lambda>a b. g a < g b \<or> (g a = g b \<and> f a \<le> f b)) zs"
    and "\<forall>z\<in>set zs. f y \<le> f z"
  shows "sorted_wrt (\<lambda>a b. g a < g b \<or> (g a = g b \<and> f a \<le> f b)) (insort_key g y zs)"
  using assms
proof (induction zs)
  case Nil
  then show ?case by simp
next
  case (Cons z zs)
  show ?case
  proof (cases "g y \<le> g z")
    case True
    have "\<forall>x\<in>set (z # zs). g y < g x \<or> (g y = g x \<and> f y \<le> f x)"
    proof
      fix x assume x: "x \<in> set (z # zs)"
      have "g z \<le> g x" using x Cons.prems(1) by auto
      with True have "g y \<le> g x" by simp
      moreover have "f y \<le> f x" using x Cons.prems(2) by auto
      ultimately show "g y < g x \<or> (g y = g x \<and> f y \<le> f x)" by auto
    qed
    with True Cons.prems(1) show ?thesis by simp
  next
    case False
    have "sorted_wrt (\<lambda>a b. g a < g b \<or> (g a = g b \<and> f a \<le> f b)) (insort_key g y zs)"
      using Cons by simp
    moreover have "\<forall>x\<in>set (insort_key g y zs). g z < g x \<or> (g z = g x \<and> f z \<le> f x)"
      using False Cons.prems(1) by (auto simp: set_insort_key)
    ultimately show ?thesis using False by simp
  qed
qed

lemma sort_two_keys:
  fixes f :: "'a \<Rightarrow> 'k::linorder" and g :: "'a \<Rightarrow> 'l::linorder"
  shows "sorted (map f ys) \<Longrightarrow>
         sorted_wrt (\<lambda>a b. g a < g b \<or> (g a = g b \<and> f a \<le> f b)) (sort_key g ys)"
proof (induction ys)
  case Nil
  then show ?case by simp
next
  case (Cons y ys)
  have "\<forall>z\<in>set (sort_key g ys). f y \<le> f z" using Cons.prems by simp
  moreover have "sorted_wrt (\<lambda>a b. g a < g b \<or> (g a = g b \<and> f a \<le> f b)) (sort_key g ys)"
    using Cons by simp
  ultimately show ?case by (simp add: insort_two_keys)
qed

lemma ranking_sorted:
  "sorted_wrt ranked_before
     (sort_key ci_load (sort_key (\<lambda>c. priority (ci_cluster c)) xs))"
proof -
  have "sorted (map (\<lambda>c. priority (ci_cluster c)) (sort_key (\<lambda>c. priority (ci_cluster c)) xs))"
    by (rule sorted_sort_key)
  from sort_two_keys[OF this, of ci_load] show ?thesis
    by (simp add: ranked_before_def[abs_def])
qed

lemma query_cluster_complete:
  assumes "query_cluster E p d c0 ctxs pci w = (None, ctxs1, pci1, w1)"
    and "map_of ctxs (name c) = Some ctx" "\<not> failed ctx" "retry_at ctx \<le> clock w"
    and "answers E p c"
  shows "map_of ctxs1 (name c) = Some ctx \<and> retry_at ctx \<le> clock w1 \<and>
         (c0 = c \<longrightarrow> c \<in> fst ` set pci1)"
proof -
  note l = query_cluster_later[OF assms(1)]
  then have clk: "retry_at ctx \<le> clock w1" using assms(4) by (simp add: later_def)
  have same: "map_of ctxs1 (name c) = Some ctx"
  proof (cases "name c0 = name c")
    case False
    with query_cluster_other[OF assms(1)] assms(2) show ?thesis by simp
  next
    case True
    obtain b where b: "osbs_list_builds E (name c) p (length (trace w)) = Inr b"
      using assms(5) unfolding answers_def by blast
    with True assms(1,2) show ?thesis
      by (auto simp: query_cluster_def get_cluster_info_def Let_def
            split: option.splits if_splits prod.splits sum.splits)
  qed
  have "c0 = c \<longrightarrow> c \<in> fst ` set pci1"
  proof
    assume c0: "c0 = c"
    obtain b where b: "osbs_list_builds E (name c) p (length (trace w)) = Inr b"
      using assms(5) unfolding answers_def by blast
    with c0 assms(1,2,3,4) show "c \<in> fst ` set pci1"
      by (auto simp: query_cluster_def get_cluster_info_def Let_def in_retry_wait_def keys_dict_set
            split: option.splits if_splits prod.splits sum.splits)
  qed
  with same clk show ?thesis by simp
qed

lemma query_candidates_complete:
  "query_candidates E p d cs ctxs pci w = (None, ctxs', pci', w') \<Longrightarrow>
   map_of ctxs (name c) = Some ctx \<Longrightarrow> \<not> failed ctx \<Longrightarrow> retry_at ctx \<le> clock w \<Longrightarrow>
   answers E p c \<Longrightarrow> c \<in> set cs \<Longrightarrow> c \<in> fst ` set pci'"
proof (induction cs arbitrary: ctxs pci w)
  case Nil
  then show ?case by simp
next
  case (Cons c0 cs)
  obtain r1 ctxs1 pci1 w1 where q: "query_cluster E p d c0 ctxs pci w = (r1, ctxs1, pci1, w1)"
    by (metis prod_cases4)
  show ?case
  proof (cases r1)
    case (Some e)
    with Cons.prems(1) q show ?thesis by simp
  next
    case None
    with Cons.prems(1) q have rest: "query_candidates E p d cs ctxs1 pci1 w1 = (None, ctxs', pci', w')"
      by simp
    note st = query_cluster_complete[OF q[unfolded None] Cons.prems(2,3,4,5)]
    show ?thesis
    proof (cases "c0 = c")
      case True
      with st have "c \<in> fst ` set pci1" by simp
      with query_candidates_keys[OF rest] show ?thesis by blast
    next
      case False
      with Cons.prems(6) have "c \<in> set cs" by simp
      from Cons.IH[OF rest _ Cons.prems(3) _ Cons.prems(5) this] st show ?thesis by simp
    qed
  qed
qed

lemma usable_mono:
  "usable ctxs now c \<Longrightarrow> map_of ctxs' (name c) = map_of ctxs (name c) \<Longrightarrow> now \<le> now' \<Longrightarrow>
     usable ctxs' now' c"
  by (auto simp: usable_def in_retry_wait_def split: option.splits)

lemma query_cluster_usable:
  assumes "query_cluster E p d c ctxs pci w = (r, ctxs1, pci1, w1)"
  shows "\<forall>x\<in>set pci1. x \<in> set pci \<or> (fst x = c \<and> usable ctxs1 (clock w1) c)"
  using assms
  by (auto simp: query_cluster_def usable_def in_retry_wait_def later_def
        dest!: in_dict_setD dest: get_cluster_info_later
        split: option.splits if_splits prod.splits sum.splits)

lemma query_candidates_usable:
  "query_candidates E p d cs ctxs pci w = (r, ctxs', pci', w') \<Longrightarrow> distinct (map name cs) \<Longrightarrow>
     \<forall>x\<in>set pci'. x \<in> set pci \<or> usable ctxs' (clock w') (fst x)"
proof (induction cs arbitrary: ctxs pci w)
  case Nil
  then show ?case by simp
next
  case (Cons c cs)
  obtain r1 ctxs1 pci1 w1 where q: "query_cluster E p d c ctxs pci w = (r1, ctxs1, pci1, w1)"
    by (metis prod_cases4)
  note i = query_cluster_usable[OF q]
  show ?case
  proof (cases r1)
    case None
    with Cons.prems q have rest: "query_candidates E p d cs ctxs1 pci1 w1 = (r, ctxs', pci', w')" by simp
    from Cons.prems(2) have dist: "distinct (map name cs)" and notin: "name c \<notin> name ` set cs" by auto
    note ih = Cons.IH[OF rest dist]
    note l2 = query_candidates_later[OF rest]
    note o2 = query_candidates_other[OF rest]
    show ?thesis
    proof
      fix x assume "x \<in> set pci'"
      with ih consider "x \<in> set pci1" | "usable ctxs' (clock w') (fst x)" by blast
      then show "x \<in> set pci \<or> usable ctxs' (clock w') (fst x)"
      proof cases
        case 1
        with i consider "x \<in> set pci" | "fst x = c" "usable ctxs1 (clock w1) c" by blast
        then show ?thesis
        proof cases
          case 1 then show ?thesis by simp
        next
          case 2
          have "map_of ctxs' (name c) = map_of ctxs1 (name c)" using o2 notin by blast
          moreover have "clock w1 \<le> clock w'" using l2 by (simp add: later_def)
          ultimately have "usable ctxs' (clock w') c" using 2(2) by (rule usable_mono[rotated -1, rotated -1])
          with 2 show ?thesis by simp
        qed
      next
        case 2 then show ?thesis by simp
      qed
    qed
  next
    case (Some e)
    with Cons.prems q have "pci' = pci1" "ctxs' = ctxs1" "w' = w1" by auto
    with i show ?thesis by auto
  qed
qed

lemma remove_failed_filter:
  "remove_failed ctxs cs = Inr cs' \<Longrightarrow> cs' = filter (\<lambda>c. \<not> dead ctxs (name c)) cs"
  by (induction cs arbitrary: cs') (auto simp: dead_def split: option.splits sum.splits if_splits)

lemma distinct_names_sort: "distinct (map name (sort_key f cs)) = distinct (map name cs)"
  by (simp add: distinct_map)

lemma get_clusters_loop_usable:
  "get_clusters_loop n E p d cands ctxs [] w = Some (Inr pci', ctxs', w') \<Longrightarrow>
   distinct (map name cands) \<Longrightarrow> \<forall>x\<in>set pci'. usable ctxs' (clock w') (fst x)"
proof (induction n arbitrary: cands ctxs w)
  case 0
  then show ?case by (auto split: if_splits)
next
  case (Suc n)
  show ?case
  proof (cases "cands = []")
    case True
    with Suc.prems show ?thesis by auto
  next
    case False
    from Suc.prems(1) False refl show ?thesis
    proof (cases rule: get_clusters_loop_SucE)
      case (round u w1 ctxs2 pci2 w2 cands2)
      have d: "distinct (map name (sort_key priority cands))"
        using Suc.prems(2) by (simp add: distinct_names_sort)
      note us = query_candidates_usable[OF round(2) d]
      show ?thesis
      proof (cases "pci2 = []")
        case True
        have "distinct (map name cands2)"
          using remove_failed_filter[OF round(3)] Suc.prems(2) by (simp add: distinct_map_filter)
        with Suc.IH[of cands2 ctxs2 w2] round(4) True show ?thesis by simp
      next
        case False
        then have "get_clusters_loop n E p d cands2 ctxs2 pci2 w2 = Some (Inr pci2, ctxs2, w2)"
          by (simp add: get_clusters_loop_stop)
        with round(4) have "pci' = pci2" "ctxs' = ctxs2" "w' = w2" by auto
        with us show ?thesis by auto
      qed
    qed auto
  qed
qed

lemma get_clusters_loop_complete:
  assumes "get_clusters_loop n E p d cands ctxs [] w = Some (Inr pci', ctxs', w')"
    and "c \<in> set cands" "map_of ctxs (name c) = Some ctx" "\<not> failed ctx"
    and "retry_at ctx \<le> clock w" "answers E p c"
  shows "c \<in> fst ` set pci'"
proof (cases n)
  case 0
  with assms(1,2) show ?thesis by (auto split: if_splits)
next
  case (Suc m)
  from assms(2) have ne: "cands \<noteq> []" by auto
  from assms(1)[unfolded Suc] ne refl show ?thesis
  proof (cases rule: get_clusters_loop_SucE)
    case (round u w1 ctxs2 pci2 w2 cands2)
    have "retry_at ctx \<le> clock w1"
      using wait_for_any_cluster_later[OF round(1)] assms(5) by (simp add: later_def)
    from query_candidates_complete[OF round(2) assms(3,4) this assms(6)] assms(2)
    have in2: "c \<in> fst ` set pci2" by simp
    then have "pci2 \<noteq> []" by auto
    then have "get_clusters_loop m E p d cands2 ctxs2 pci2 w2 = Some (Inr pci2, ctxs2, w2)"
      by (simp add: get_clusters_loop_stop)
    with round(4) in2 show ?thesis by auto
  qed auto
qed

lemma get_clusters_SomeE:
  assumes "get_clusters fuel E d p ctxs all w = Some (Inr ret, ctxs', w')"
  obtains pci where
    "get_clusters_loop fuel E p d (remdups all) ctxs [] w = Some (Inr pci, ctxs', w')"
    "ret = sort_key ci_load (sort_key (\<lambda>c. priority (ci_cluster c)) (map snd pci))"
  using assms
  by (auto simp: get_clusters_def Let_def split: option.splits sum.splits prod.splits)

lemma sorted_wrt_hd:
  "sorted_wrt R xs \<Longrightarrow> (\<And>x. R x x) \<Longrightarrow> \<forall>x\<in>set xs. R (hd xs) x"
  by (cases xs) auto

lemma ranked_before_refl: "ranked_before a a"
  by (simp add: ranked_before_def)

lemma get_clusters_members:
  assumes "get_clusters fuel E d p ctxs all w = Some (Inr ret, ctxs', w')"
  shows "\<forall>ci\<in>set ret. ci_cluster ci \<in> set all \<and> ci_osbs ci = name (ci_cluster ci) \<and>
           ci_platform ci = p \<and> \<not> dead ctxs (name (ci_cluster ci))"
proof -
  from assms(1) obtain pci where
    loop: "get_clusters_loop fuel E p d (remdups all) ctxs [] w = Some (Inr pci, ctxs', w')"
    and ret: "ret = sort_key ci_load (sort_key (\<lambda>c. priority (ci_cluster c)) (map snd pci))"
    by (rule get_clusters_SomeE)
  have "\<forall>x\<in>set pci. x \<in> set [] \<or> (fst x \<in> set (remdups all) \<and> fresh_info ctxs p x)"
    using get_clusters_loop_inv[OF loop ctxs_rel_refl] by blast
  then have "\<forall>x\<in>set pci. fst x \<in> set all \<and> fresh_info ctxs p x" by simp
  then show ?thesis unfolding ret by (auto simp: fresh_info_def)
qed

lemma get_clusters_usable:
  assumes "get_clusters fuel E d p ctxs all w = Some (Inr ret, ctxs', w')"
    and "distinct (map name all)"
  shows "\<forall>ci\<in>set ret. usable ctxs' (clock w') (ci_cluster ci)"
proof -
  from assms(1) obtain pci where
    loop: "get_clusters_loop fuel E p d (remdups all) ctxs [] w = Some (Inr pci, ctxs', w')"
    and ret: "ret = sort_key ci_load (sort_key (\<lambda>c. priority (ci_cluster c)) (map snd pci))"
    by (rule get_clusters_SomeE)
  have d: "distinct (map name (remdups all))"
    using assms(2) by (simp add: distinct_map)
  have fr: "\<forall>x\<in>set pci. x \<in> set [] \<or> (fst x \<in> set (remdups all) \<and> fresh_info ctxs p x)"
    using get_clusters_loop_inv[OF loop ctxs_rel_refl] by blast
  have "\<forall>x\<in>set pci. usable ctxs' (clock w') (fst x)"
    using get_clusters_loop_usable[OF loop d] .
  with fr show ?thesis unfolding ret by (auto simp: fresh_info_def)
qed

lemma get_clusters_complete:
  assumes "get_clusters fuel E d p ctxs all w = Some (Inr ret, ctxs', w')"
    and "c \<in> set all" "usable ctxs (clock w) c" "answers E p c"
  shows "c \<in> ci_cluster ` set ret"
proof -
  from assms(1) obtain pci where
    loop: "get_clusters_loop fuel E p d (remdups all) ctxs [] w = Some (Inr pci, ctxs', w')"
    and ret: "ret = sort_key ci_load (sort_key (\<lambda>c. priority (ci_cluster c)) (map snd pci))"
    by (rule get_clusters_SomeE)
  from assms(3) obtain ctx where ctx: "map_of ctxs (name c) = Some ctx" "\<not> failed ctx"
    "retry_at ctx \<le> clock w"
    by (auto simp: usable_def in_retry_wait_def split: option.splits)
  have c: "c \<in> set (remdups all)" using assms(2) by simp
  from get_clusters_loop_complete[OF loop c ctx assms(4)] obtain x where
    x: "x \<in> set pci" "fst x = c" by auto
  have "\<forall>x\<in>set pci. x \<in> set [] \<or> (fst x \<in> set (remdups all) \<and> fresh_info ctxs p x)"
    using get_clusters_loop_inv[OF loop ctxs_rel_refl] by blast
  with x have "ci_cluster (snd x) = c" by (auto simp: fresh_info_def)
  moreover have "snd x \<in> set ret" using x unfolding ret by simp
  ultimately show ?thesis by blast
qed

lemma healthy_answers: "answers healthy_env p c"
  by (simp add: answers_def healthy_env_def)

lemma create_build_world:
  assumes "create_build P E ci s = (r, s')"
  shows "later (st_world s) (st_world s')"
    and "\<forall>e\<in>set (new_events (st_world s) (st_world s')). event_cluster e = Some (ci_osbs ci)"
    and "worker_builds s' = worker_builds s" and "st_workspace s' = st_workspace s"
  using assms
  by (auto simp: create_build_def Let_def later_emit new_events_emit
        split: prod.splits sum.splits option.splits)

lemma watch_logs_world:
  assumes "watch_logs E bi w = (r, w')"
  shows "later w w'" and "\<forall>e\<in>set (new_events w w'). event_cluster e = wb_osbs bi"
  using assms
  by (auto simp: watch_logs_def later_emit new_events_emit split: option.splits)

lemma wait_to_finish_world:
  assumes "wait_to_finish E bi w = (r, bi', w')"
  shows "later w w'" and "\<forall>e\<in>set (new_events w w'). event_cluster e = wb_osbs bi"
    and "wb_osbs bi' = wb_osbs bi" and "wb_platform bi' = wb_platform bi"
  using assms
  by (auto simp: wait_to_finish_def Let_def later_emit new_events_emit
        split: option.splits sum.splits)

lemma cancel_build_world:
  assumes "cancel_build E bi w = (r, w')"
  shows "later w w'" and "\<forall>e\<in>set (new_events w w'). event_cluster e = wb_osbs bi"
  using assms
  by (auto simp: cancel_build_def later_emit new_events_emit split: option.splits if_splits)

lemma later_events:
  assumes "later w1 w2" "later w2 w3"
    and "\<forall>e\<in>set (new_events w1 w2). Q e" "\<forall>e\<in>set (new_events w2 w3). Q e"
  shows "\<forall>e\<in>set (new_events w1 w3). Q e"
  using assms new_events_append[OF assms(1,2)] by auto


lemma watch_and_wait_world_all:
  assumes "watch_and_wait E bi w = (r, bi', w')"
  shows "later w w' \<and> (\<forall>e\<in>set (new_events w w'). event_cluster e = wb_osbs bi) \<and>
         wb_osbs bi' = wb_osbs bi \<and> wb_platform bi' = wb_platform bi \<and>
         wb_build bi' = (if r = None then wb_build bi' else wb_build bi) \<and>
         wb_cluster bi' = wb_cluster bi \<and> wb_monitor_exception bi' = wb_monitor_exception bi"
proof -
  obtain r1 w1 where wl: "watch_logs E bi w = (r1, w1)" by force
  note l1 = watch_logs_world[OF wl]
  show ?thesis
  proof (cases r1)
    case (Some e)
    with assms wl l1 show ?thesis by (auto simp: watch_and_wait_def)
  next
    case None
    with assms wl have wf: "wait_to_finish E bi w1 = (r, bi', w')"
      by (simp add: watch_and_wait_def)
    note l2 = wait_to_finish_world[OF wf]
    have "wb_cluster bi' = wb_cluster bi \<and> wb_monitor_exception bi' = wb_monitor_exception bi \<and>
          (r \<noteq> None \<longrightarrow> bi' = bi)"
      using wf by (auto simp: wait_to_finish_def Let_def split: option.splits sum.splits)
    then show ?thesis
      using later_trans[OF l1(1) l2(1)] later_events[OF l1(1) l2(1) l1(2) l2(2)] l2(3,4)
      by auto
  qed
qed

lemma watch_and_wait_world:
  assumes "watch_and_wait E bi w = (r, bi', w')"
  shows "later w w'" and "\<forall>e\<in>set (new_events w w'). event_cluster e = wb_osbs bi"
    and "wb_osbs bi' = wb_osbs bi" and "wb_platform bi' = wb_platform bi"
  using watch_and_wait_world_all[OF assms] by simp_all

lemma monitor_build_world_all:
  assumes "monitor_build E i s = (r, s')"
  shows "later (st_world s) (st_world s') \<and>
      (\<forall>e\<in>set (new_events (st_world s) (st_world s')).
            event_cluster e = wb_osbs (worker_builds s ! i)) \<and>
      st_workspace s' = st_workspace s \<and> st_heap s' = st_heap s \<and>
      (\<exists>bi. worker_builds s' = (worker_builds s)[i := bi] \<and>
              wb_platform bi = wb_platform (worker_builds s ! i)) \<and>
      \<not> (\<exists>e. r = Some e \<and> is_OsbsException e)"
proof -
  obtain r1 bi1 w1 where ww: "watch_and_wait E (worker_builds s ! i) (st_world s) = (r1, bi1, w1)"
    by (metis prod_cases3)
  note l1 = watch_and_wait_world[OF ww]
  show ?thesis
  proof (cases r1)
    case None
    with assms ww l1 show ?thesis by (auto simp: monitor_build_def)
  next
    case (Some e)
    define bi2 where "bi2 = bi1\<lparr>wb_monitor_exception := Some (MonExc e)\<rparr>"
    obtain c w2 where cb: "cancel_build E bi2 w1 = (c, w2)" by force
    note l2 = cancel_build_world[OF cb]
    have o: "wb_osbs bi2 = wb_osbs (worker_builds s ! i)" using l1(3) by (simp add: bi2_def)
    from assms ww Some cb have s': "s' = s\<lparr>st_world := w2, worker_builds := (worker_builds s)[i := bi2]\<rparr>"
      and r: "r = (case c of None \<Rightarrow> None | Some ce \<Rightarrow> if is_OsbsException ce then None else Some ce)"
      by (auto simp: monitor_build_def Let_def bi2_def)
    have "later (st_world s) w2" using l1(1) l2(1) by (rule later_trans)
    moreover have "\<forall>e\<in>set (new_events (st_world s) w2).
            event_cluster e = wb_osbs (worker_builds s ! i)"
      using later_events[OF l1(1) l2(1) l1(2)] l2(2) o by simp
    moreover have "wb_platform bi2 = wb_platform (worker_builds s ! i)"
      using l1(4) by (simp add: bi2_def)
    moreover have "\<not> (\<exists>e. r = Some e \<and> is_OsbsException e)"
      unfolding r by (auto split: option.splits)
    ultimately show ?thesis unfolding s' by auto
  qed
qed

lemma monitor_build_world:
  assumes "monitor_build E i s = (r, s')"
  shows "later (st_world s) (st_world s')"
    and "\<forall>e\<in>set (new_events (st_world s) (st_world s')).
            event_cluster e = wb_osbs (worker_builds s ! i)"
    and "st_workspace s' = st_workspace s" and "st_heap s' = st_heap s"
    and "\<exists>bi. worker_builds s' = (worker_builds s)[i := bi] \<and>
              wb_platform bi = wb_platform (worker_builds s ! i)"
    and "\<not> (\<exists>e. r = Some e \<and> is_OsbsException e)"
  using monitor_build_world_all[OF assms] by simp_all

lemma do_worker_build_world_all:
  assumes "do_worker_build P E ci s = (r, s')"
  shows "later (st_world s) (st_world s') \<and>
      (\<forall>e\<in>set (new_events (st_world s) (st_world s')). event_cluster e = Some (ci_osbs ci)) \<and>
      st_workspace s' = st_workspace s \<and>
      ((\<exists>e. r = Some e \<and> is_OsbsException e) \<longrightarrow> worker_builds s' = worker_builds s) \<and>
      (\<not> (\<exists>e. r = Some e \<and> is_OsbsException e) \<longrightarrow>
           (\<exists>bi. worker_builds s' = worker_builds s @ [bi] \<and> wb_platform bi = ci_platform ci))"
proof -
  obtain q s1 where cb: "create_build P E ci s = (q, s1)" by force
  note l1 = create_build_world[OF cb]
  show ?thesis
  proof (cases q)
    case (Inl e)
    with assms cb l1 show ?thesis
      by (auto simp: do_worker_build_def new_WorkerBuildInfo_def split: if_splits)
  next
    case (Inr b)
    define s2 where "s2 = s1\<lparr>worker_builds := worker_builds s1 @ [new_WorkerBuildInfo (Some b) ci]\<rparr>"
    from assms cb Inr have mb: "monitor_build E (length (worker_builds s1)) s2 = (r, s')"
      by (simp add: do_worker_build_def s2_def)
    note l2 = monitor_build_world[OF mb]
    have nth: "worker_builds s2 ! length (worker_builds s1) = new_WorkerBuildInfo (Some b) ci"
      by (simp add: s2_def)
    have w2: "st_world s2 = st_world s1" "st_workspace s2 = st_workspace s1" by (simp_all add: s2_def)
    have "later (st_world s) (st_world s')" using l1(1) l2(1) unfolding w2 by (rule later_trans)
    moreover have "\<forall>e\<in>set (new_events (st_world s) (st_world s')). event_cluster e = Some (ci_osbs ci)"
      using later_events[OF l1(1) l2(1)[unfolded w2] l1(2)] l2(2)
      unfolding w2 nth by (simp add: new_WorkerBuildInfo_def)
    moreover have "st_workspace s' = st_workspace s" using l1(4) l2(3) w2 by simp
    moreover have "\<exists>bi. worker_builds s' = worker_builds s @ [bi] \<and> wb_platform bi = ci_platform ci"
      using l2(5) l1(3) unfolding nth by (auto simp: s2_def new_WorkerBuildInfo_def)
    ultimately show ?thesis using l2(6) by blast
  qed
qed

lemma do_worker_build_world:
  assumes "do_worker_build P E ci s = (r, s')"
  shows "later (st_world s) (st_world s')"
    and "\<forall>e\<in>set (new_events (st_world s) (st_world s')). event_cluster e = Some (ci_osbs ci)"
    and "st_workspace s' = st_workspace s"
    and "(\<exists>e. r = Some e \<and> is_OsbsException e) \<longrightarrow> worker_builds s' = worker_builds s"
    and "\<not> (\<exists>e. r = Some e \<and> is_OsbsException e) \<longrightarrow>
           (\<exists>bi. worker_builds s' = worker_builds s @ [bi] \<and> wb_platform bi = ci_platform ci)"
  using do_worker_build_world_all[OF assms] by simp_all

lemma get_clusters_world:
  assumes "get_clusters fuel E d p ctxs all w = Some (r, ctxs', w')"
  shows "later w w'" and "ctxs_rel ctxs ctxs'"
    and "\<forall>e\<in>set (new_events w w'). \<forall>k. dead ctxs k \<longrightarrow> event_cluster e \<noteq> Some k"
proof -
  from assms obtain r0 where
    loop: "get_clusters_loop fuel E p d (remdups all) ctxs [] w = Some (r0, ctxs', w')"
    by (auto simp: get_clusters_def Let_def split: option.splits sum.splits prod.splits)
  note i = get_clusters_loop_inv[OF loop ctxs_rel_refl]
  show "later w w'" using i by blast
  show "ctxs_rel ctxs ctxs'" using i by blast
  have "\<forall>e\<in>set (new_events w w'). event_cluster e = None \<or>
         (\<exists>c\<in>set (remdups all). e = ListBuilds (name c) p \<and> \<not> dead ctxs (name c))"
    using i[THEN conjunct2, THEN conjunct2, THEN conjunct1] .
  then show "\<forall>e\<in>set (new_events w w'). \<forall>k. dead ctxs k \<longrightarrow> event_cluster e \<noteq> Some k"
    by fastforce
qed

lemma start_on_cluster_inv:
  assumes "start_on_cluster P E ci ctxs s = (r, ctxs', s')"
  shows "later (st_world s) (st_world s') \<and> ctxs_rel ctxs ctxs' \<and>
     (\<forall>e\<in>set (new_events (st_world s) (st_world s')). event_cluster e = Some (ci_osbs ci)) \<and>
     st_workspace s' = st_workspace s \<and>
     (r = Inr False \<longrightarrow> worker_builds s' = worker_builds s) \<and>
     (r = Inr True \<longrightarrow>
        (\<exists>bi. worker_builds s' = worker_builds s @ [bi] \<and> wb_platform bi = ci_platform ci))"
proof (cases "map_of ctxs (name (ci_cluster ci))")
  case None
  with assms show ?thesis by (auto simp: start_on_cluster_def)
next
  case (Some ctx)
  obtain q s1 where d: "do_worker_build P E ci s = (q, s1)" by force
  note l = do_worker_build_world[OF d]
  show ?thesis
  proof (cases q)
    case None
    with assms Some d have "r = Inr True" "ctxs' = ctxs" "s' = s1"
      by (auto simp: start_on_cluster_def)
    with l None show ?thesis by auto
  next
    case (Some e)
    show ?thesis
    proof (cases "is_OsbsException e")
      case True
      with assms \<open>map_of ctxs (name (ci_cluster ci)) = Some ctx\<close> d Some
      have "r = Inr False" "s' = s1"
        "ctxs' = dict_set ctxs (name (ci_cluster ci))
                   (try_again_later (clock (st_world s1)) (failure_retry_delay P) ctx)"
        by (auto simp: start_on_cluster_def)
      with l Some True ctxs_rel_try_again[OF \<open>map_of ctxs (name (ci_cluster ci)) = Some ctx\<close>]
      show ?thesis by auto
    next
      case False
      with assms \<open>map_of ctxs (name (ci_cluster ci)) = Some ctx\<close> d Some
      have "r = Inl e" "s' = s1" "ctxs' = ctxs"
        by (auto simp: start_on_cluster_def)
      with l show ?thesis by auto
    qed
  qed
qed

lemma start_on_clusters_inv:
  "start_on_clusters P E infos ctxs s = (r, ctxs', s') \<Longrightarrow>
   \<forall>ci\<in>set infos. Q (ci_osbs ci) \<and> ci_platform ci = p \<Longrightarrow>
     later (st_world s) (st_world s') \<and> ctxs_rel ctxs ctxs' \<and>
     (\<forall>e\<in>set (new_events (st_world s) (st_world s')). \<exists>c. event_cluster e = Some c \<and> Q c) \<and>
     st_workspace s' = st_workspace s \<and>
     (r = Inr False \<longrightarrow> worker_builds s' = worker_builds s) \<and>
     (r = Inr True \<longrightarrow>
        (\<exists>bi. worker_builds s' = worker_builds s @ [bi] \<and> wb_platform bi = p))"
proof (induction infos arbitrary: ctxs s)
  case Nil
  then show ?case by auto
next
  case (Cons ci infos)
  obtain r1 ctxs1 s1 where st: "start_on_cluster P E ci ctxs s = (r1, ctxs1, s1)"
    by (metis prod_cases3)
  note i = start_on_cluster_inv[OF st]
  from Cons.prems(2) have q: "Q (ci_osbs ci)" "ci_platform ci = p" by auto
  show ?case
  proof (cases "r1 = Inr False")
    case False
    with Cons.prems(1) st have "r = r1" "ctxs' = ctxs1" "s' = s1"
      by (auto split: sum.splits bool.splits)
    with i q show ?thesis by auto
  next
    case True
    with Cons.prems(1) st have rest: "start_on_clusters P E infos ctxs1 s1 = (r, ctxs', s')" by simp
    from Cons.prems(2) have "\<forall>ci\<in>set infos. Q (ci_osbs ci) \<and> ci_platform ci = p" by simp
    note ih = Cons.IH[OF rest this]
    have l1: "later (st_world s) (st_world s1)" using i by blast
    have l2: "later (st_world s1) (st_world s')" using ih by blast
    have e1: "\<forall>e\<in>set (new_events (st_world s) (st_world s1)). \<exists>c. event_cluster e = Some c \<and> Q c"
      using i q by auto
    have e2: "\<forall>e\<in>set (new_events (st_world s1) (st_world s')). \<exists>c. event_cluster e = Some c \<and> Q c"
      using ih by blast
    have wb: "worker_builds s1 = worker_builds s" using i True by blast
    have ws: "st_workspace s1 = st_workspace s" using i by blast
    have c1: "ctxs_rel ctxs ctxs1" using i by blast
    have c2: "ctxs_rel ctxs1 ctxs'" using ih by blast
    show ?thesis
      using later_trans[OF l1 l2] ctxs_rel_trans[OF c1 c2] later_events[OF l1 l2 e1 e2]
        ih[THEN conjunct2, THEN conjunct2, THEN conjunct2] wb ws
      by simp
  qed
qed

lemma select_loop_SucE:
  assumes "select_loop (Suc n) P E p clusters ctxs s = Some res"
  obtains (exhausted) m ctxs1 w1 where
      "get_clusters n E (find_cluster_retry_delay P) p ctxs clusters (st_world s)
         = Some (Inl (AllClustersFailedException m), ctxs1, w1)"
      "res = (None, ctxs1, s\<lparr>st_world := w1,
                worker_builds := worker_builds s @ [exhausted_build_info p m]\<rparr>)"
  | (select_fail) ex ctxs1 w1 where
      "get_clusters n E (find_cluster_retry_delay P) p ctxs clusters (st_world s)
         = Some (Inl ex, ctxs1, w1)"
      "\<forall>m. ex \<noteq> AllClustersFailedException m"
      "res = (Some ex, ctxs1, s\<lparr>st_world := w1\<rparr>)"
  | (start_fail) ret ctxs1 w1 e ctxs2 s2 where
      "get_clusters n E (find_cluster_retry_delay P) p ctxs clusters (st_world s)
         = Some (Inr ret, ctxs1, w1)"
      "start_on_clusters P E ret ctxs1 (s\<lparr>st_world := w1\<rparr>) = (Inl e, ctxs2, s2)"
      "res = (Some e, ctxs2, s2)"
  | (started) ret ctxs1 w1 ctxs2 s2 where
      "get_clusters n E (find_cluster_retry_delay P) p ctxs clusters (st_world s)
         = Some (Inr ret, ctxs1, w1)"
      "start_on_clusters P E ret ctxs1 (s\<lparr>st_world := w1\<rparr>) = (Inr True, ctxs2, s2)"
      "res = (None, ctxs2, s2)"
  | (again) ret ctxs1 w1 ctxs2 s2 where
      "get_clusters n E (find_cluster_retry_delay P) p ctxs clusters (st_world s)
         = Some (Inr ret, ctxs1, w1)"
      "start_on_clusters P E ret ctxs1 (s\<lparr>st_world := w1\<rparr>) = (Inr False, ctxs2, s2)"
      "select_loop n P E p clusters ctxs2 s2 = Some res"
proof (cases "get_clusters n E (find_cluster_retry_delay P) p ctxs clusters (st_world s)")
  case None
  with assms show ?thesis by simp
next
  case (Some a)
  obtain q ctxs1 w1 where a: "a = (q, ctxs1, w1)" by (metis prod_cases3)
  show ?thesis
  proof (cases q)
    case (Inl ex)
    show ?thesis
    proof (cases "\<exists>m. ex = AllClustersFailedException m")
      case True
      then obtain m where "ex = AllClustersFailedException m" by blast
      with assms Some a Inl show ?thesis
        by (intro exhausted[of m ctxs1 w1]) (auto simp: exhausted_build_info_def Let_def)
    next
      case False
      with assms Some a Inl show ?thesis
        by (intro select_fail[of ex ctxs1 w1]) (auto split: exn.splits)
    qed
  next
    case (Inr ret)
    obtain r2 ctxs2 s2 where st: "start_on_clusters P E ret ctxs1 (s\<lparr>st_world := w1\<rparr>) = (r2, ctxs2, s2)"
      by (metis prod_cases3)
    show ?thesis
    proof (cases r2)
      case (Inl e)
      with assms Some a Inr st show ?thesis by (intro start_fail[of ret ctxs1 w1 e ctxs2 s2]) auto
    next
      case (Inr b)
      show ?thesis
      proof (cases b)
        case True
        with assms Some a \<open>q = Inr ret\<close> st Inr show ?thesis
          by (intro started[of ret ctxs1 w1 ctxs2 s2]) auto
      next
        case False
        with assms Some a \<open>q = Inr ret\<close> st Inr show ?thesis
          by (intro again[of ret ctxs1 w1 ctxs2 s2]) auto
      qed
    qed
  qed
qed

lemma select_loop_inv:
  "select_loop n P E p clusters ctxs s = Some (r, ctxs', s') \<Longrightarrow>
     later (st_world s) (st_world s') \<and> ctxs_rel ctxs ctxs' \<and>
     (\<forall>e\<in>set (new_events (st_world s) (st_world s')).
         \<forall>k. dead ctxs k \<longrightarrow> event_cluster e \<noteq> Some k) \<and>
     st_workspace s' = st_workspace s \<and>
     (r = None \<longrightarrow> (\<exists>bi. worker_builds s' = worker_builds s @ [bi] \<and> wb_platform bi = p))"
proof (induction n arbitrary: ctxs s)
  case 0
  then show ?case by simp
next
  case (Suc n)
  from Suc.prems show ?case
  proof (cases rule: select_loop_SucE)
    case (exhausted m ctxs1 w1)
    note g = get_clusters_world[OF exhausted(1)]
    from exhausted(2) g show ?thesis
      by (auto simp: exhausted_build_info_def placeholder_WorkerBuildInfo_def)
  next
    case (select_fail ex ctxs1 w1)
    note g = get_clusters_world[OF select_fail(1)]
    from select_fail(3) g show ?thesis by auto
  next
    case (start_fail ret ctxs1 w1 e ctxs2 s2)
    note g = get_clusters_world[OF start_fail(1)]
    note m = get_clusters_members[OF start_fail(1)]
    have q: "\<forall>ci\<in>set ret. \<not> dead ctxs (ci_osbs ci) \<and> ci_platform ci = p" using m by simp
    note st = start_on_clusters_inv[OF start_fail(2) q]
    have l2: "later w1 (st_world s2)" using st by simp
    have e2: "\<forall>e\<in>set (new_events w1 (st_world s2)). \<forall>k. dead ctxs k \<longrightarrow> event_cluster e \<noteq> Some k"
      using st by fastforce
    have c2: "ctxs_rel ctxs1 ctxs2" using st by blast
    have ws: "st_workspace s2 = st_workspace s" using st by simp
    from start_fail(3) later_trans[OF g(1) l2] ctxs_rel_trans[OF g(2) c2]
      later_events[OF g(1) l2 g(3) e2] ws
    show ?thesis by simp
  next
    case (started ret ctxs1 w1 ctxs2 s2)
    note g = get_clusters_world[OF started(1)]
    note m = get_clusters_members[OF started(1)]
    have q: "\<forall>ci\<in>set ret. \<not> dead ctxs (ci_osbs ci) \<and> ci_platform ci = p" using m by simp
    note st = start_on_clusters_inv[OF started(2) q]
    have l2: "later w1 (st_world s2)" using st by simp
    have e2: "\<forall>e\<in>set (new_events w1 (st_world s2)). \<forall>k. dead ctxs k \<longrightarrow> event_cluster e \<noteq> Some k"
      using st by fastforce
    have c2: "ctxs_rel ctxs1 ctxs2" using st by blast
    have ws: "st_workspace s2 = st_workspace s" using st by simp
    have wb: "\<exists>bi. worker_builds s2 = worker_builds s @ [bi] \<and> wb_platform bi = p"
      using st by simp
    from started(3) later_trans[OF g(1) l2] ctxs_rel_trans[OF g(2) c2]
      later_events[OF g(1) l2 g(3) e2] ws wb
    show ?thesis by simp
  next
    case (again ret ctxs1 w1 ctxs2 s2)
    note g = get_clusters_world[OF again(1)]
    note m = get_clusters_members[OF again(1)]
    have q: "\<forall>ci\<in>set ret. \<not> dead ctxs (ci_osbs ci) \<and> ci_platform ci = p" using m by simp
    note st = start_on_clusters_inv[OF again(2) q]
    note ih = Suc.IH[OF again(3)]
    have l2: "later w1 (st_world s2)" using st by simp
    have e2: "\<forall>e\<in>set (new_events w1 (st_world s2)). \<forall>k. dead ctxs k \<longrightarrow> event_cluster e \<noteq> Some k"
      using st by fastforce
    have c2: "ctxs_rel ctxs1 ctxs2" using st by blast
    have c02: "ctxs_rel ctxs ctxs2" using g(2) c2 by (rule ctxs_rel_trans)
    have ws: "st_workspace s2 = st_workspace s" using st by simp
    have wb: "worker_builds s2 = worker_builds s" using st by simp
    have l02: "later (st_world s) (st_world s2)" using g(1) l2 by (rule later_trans)
    have e02: "\<forall>e\<in>set (new_events (st_world s) (st_world s2)).
                 \<forall>k. dead ctxs k \<longrightarrow> event_cluster e \<noteq> Some k"
      using later_events[OF g(1) l2 g(3) e2] .
    have l3: "later (st_world s2) (st_world s')" using ih by blast
    have e3: "\<forall>e\<in>set (new_events (st_world s2) (st_world s')).
                 \<forall>k. dead ctxs k \<longrightarrow> event_cluster e \<noteq> Some k"
      using ih[THEN conjunct2, THEN conjunct2, THEN conjunct1] ctxs_rel_dead[OF c02] by blast
    have c3: "ctxs_rel ctxs2 ctxs'" using ih by blast
    show ?thesis
      using later_trans[OF l02 l3] ctxs_rel_trans[OF c02 c3] later_events[OF l02 l3 e02 e3]
        ih[THEN conjunct2, THEN conjunct2, THEN conjunct2] ws wb
      by simp
  qed
qed




lemma get_fail_reason_no_build:
  "wb_build bi = None \<Longrightarrow> get_fail_reason E bi w = Some (Inr (base_reason bi), w)"
  by (simp add: get_fail_reason_def base_reason_def)

lemma get_fail_reason_decoded:
  assumes "wb_build bi = Some b" "json_loads E (plugins_metadata b) = Inr metadata"
  shows "get_fail_reason E bi w =
     (case py_getitem metadata ''errors'' of
        Inr errors \<Rightarrow>
          (case py_dict_update (base_reason bi) errors of None \<Rightarrow> None | Some r \<Rightarrow> Some (r, w))
      | Inl (KeyError k) \<Rightarrow> Some (pod_fail_reason E bi b (base_reason bi) w)
      | Inl e \<Rightarrow> Some (Inl e, w))"
  using assms
  by (cases "truthy_monitor (wb_monitor_exception bi)")
     (simp_all add: get_fail_reason_def base_reason_def Let_def
        split: sum.splits exn.splits option.splits)

lemma get_fail_reason_undecodable:
  assumes "wb_build bi = Some b" "json_loads E (plugins_metadata b) = Inl e"
  shows "get_fail_reason E bi w = Some (Inl e, w)"
  using assms by (simp add: get_fail_reason_def)

lemma get_fail_reason_errors:
  assumes "wb_build bi = Some b" "json_loads E (plugins_metadata b) = Inr (PDict md)"
    and "map_of md ''errors'' = Some (PDict errs)"
  shows "get_fail_reason E bi w = Some (Inr (dict_update (base_reason bi) errs), w)"
  using assms by (simp add: get_fail_reason_decoded)

lemma get_fail_reason_pod:
  assumes "wb_build bi = Some b" "json_loads E (plugins_metadata b) = Inr (PDict md)"
    and "map_of md ''errors'' = None"
  shows "get_fail_reason E bi w = Some (pod_fail_reason E bi b (base_reason bi) w)"
  using assms by (simp add: get_fail_reason_decoded)

lemma pod_fail_reason_cases:
  "pod_fail_reason E bi b reason w =
     (case pod_outcome E bi b w of
        Inr v \<Rightarrow> (Inr (dict_set reason ''pod'' v), emit E (GetPodForBuild (the (wb_osbs bi)) (build_name b)) w)
      | Inl e \<Rightarrow>
          if is_OsbsException_or_AttributeError e
          then (Inr reason, if wb_osbs bi = None then w
                            else emit E (GetPodForBuild (the (wb_osbs bi)) (build_name b)) w)
          else (Inl e, emit E (GetPodForBuild (the (wb_osbs bi)) (build_name b)) w))"
  by (auto simp: pod_fail_reason_def pod_outcome_def Let_def no_osbs_def
        is_OsbsException_or_AttributeError_def split: option.splits sum.splits)

lemma map_of_dict_update_key:
  "map_of (dict_update d other) k =
     (case map_of (rev other) k of Some v \<Rightarrow> Some v | None \<Rightarrow> map_of d k)"
  by (simp add: map_of_dict_update map_add_def)

lemma map_of_dict_update_notin:
  "k \<notin> fst ` set other \<Longrightarrow> map_of (dict_update d other) k = map_of d k"
  by (simp add: map_of_dict_update_key map_of_eq_None_iff[THEN iffD2])

subsection \<open>The heap\<close>

lemma heap_extends_refl: "heap_extends h h"
  by (simp add: heap_extends_def)

lemma heap_extends_trans: "heap_extends a b \<Longrightarrow> heap_extends b c \<Longrightarrow> heap_extends a c"
proof -
  assume ab: "heap_extends a b" and bc: "heap_extends b c"
  have "take (length a) c = take (length a) (take (length b) c)"
    using ab by (simp add: heap_extends_def min_def)
  also have "\<dots> = a" using ab bc by (simp add: heap_extends_def)
  finally show ?thesis using ab bc by (simp add: heap_extends_def)
qed

lemma heap_extends_get: "heap_extends h h' \<Longrightarrow> a < length h \<Longrightarrow> heap_get h' a = heap_get h a"
proof -
  assume e: "heap_extends h h'" and a: "a < length h"
  have "h ! a = take (length h) h' ! a" using e by (simp add: heap_extends_def)
  also have "\<dots> = h' ! a" using a by simp
  finally show ?thesis using e a by (simp add: heap_get_def heap_extends_def)
qed

lemma heap_extends_append: "heap_extends h (h @ xs)"
  by (simp add: heap_extends_def)

lemma heap_get_append:
  "heap_get (h @ xs) a = (if a < length h then heap_get h a else heap_get xs (a - length h))"
  by (auto simp: heap_get_def nth_append)

lemma heap_upd_last: "heap_upd (h @ [d]) (length h) f = h @ [f d]"
  by (simp add: heap_upd_def heap_get_def)

lemma heap_upd_last2: "heap_upd (h @ [d, c]) (Suc (length h)) f = h @ [d, f c]"
  by (simp add: heap_upd_def heap_get_def list_update_append nth_append)

lemma heap_upd_last1: "heap_upd (h @ [d, c]) (length h) f = h @ [f d, c]"
  by (simp add: heap_upd_def heap_get_def list_update_append nth_append)

lemma heap_get_last: "heap_get (h @ [d]) (length h) = d"
  "heap_get (h @ [d, c]) (length h) = d" "heap_get (h @ [d, c]) (Suc (length h)) = c"
  by (simp_all add: heap_get_def nth_append)

lemma update_content_versions_last:
  "update_content_versions (Suc (length h)) (h @ [d, c])
     = (case map_of c ''content_versions'' of
          None \<Rightarrow> (None, h @ [d, c])
        | Some cv \<Rightarrow>
            (case py_iter cv of
               Inl e \<Rightarrow> (Some e, h @ [d, c])
             | Inr vs \<Rightarrow>
                 (let kept = filter (\<lambda>v. v = PStr ''v2'') vs;
                      c' = dict_set c ''content_versions'' (PList kept)
                  in if kept = []
                     then (Some (RuntimeError ''content_versions is empty''), h @ [d, c'])
                     else (None, h @ [d, c']))))"
  by (simp add: update_content_versions_def heap_get_last heap_upd_last2 Let_def
        split: option.splits sum.splits)

text \<open>
  \<^verbatim>\<open>get_worker_build_kwargs\<close> in one equation: the two copies are the objects added to
  the heap, and nothing else is written.
\<close>

lemma get_worker_build_kwargs_eq:
  "get_worker_build_kwargs P rel p u t wo h =
     (let d = adjusted_kwargs rel p u t (heap_get h (build_kwargs P)) in
      if reactor_config_is_default P then (Inr (length h), h @ [d])
      else (case update_content_versions (Suc (length h))
                   (h @ [d, adjusted_reactor_conf wo (heap_get (h @ [d]) (reactor_config_conf P))]) of
              (Some e, h') \<Rightarrow> (Inl e, h')
            | (None, h') \<Rightarrow>
                (Inr (length h),
                 heap_upd h' (length h)
                   (\<lambda>d. dict_set d ''reactor_config_override''
                          (PDict (heap_get h' (Suc (length h))))))))"
  unfolding get_worker_build_kwargs_def deepcopy_def adjusted_kwargs_def adjusted_reactor_conf_def
  by (cases t)
     (simp_all add: Let_def heap_upd_last heap_upd_last2 heap_get_last
        split: prod.split option.split)

lemma update_content_versions_snd:
  "\<exists>c'. snd (update_content_versions (Suc (length h)) (h @ [d, c])) = h @ [d, c']"
  by (simp add: update_content_versions_last Let_def split: option.splits sum.splits)

lemma get_worker_build_kwargs_default:
  assumes "reactor_config_is_default P"
  shows "get_worker_build_kwargs P rel p u t wo h
           = (Inr (length h), h @ [adjusted_kwargs rel p u t (heap_get h (build_kwargs P))])"
  using assms by (simp add: get_worker_build_kwargs_eq)

lemma get_worker_build_kwargs_override:
  assumes "\<not> reactor_config_is_default P"
    and "update_content_versions (Suc (length h))
           (h @ [adjusted_kwargs rel p u t (heap_get h (build_kwargs P)),
                 adjusted_reactor_conf wo
                   (heap_get (h @ [adjusted_kwargs rel p u t (heap_get h (build_kwargs P))])
                      (reactor_config_conf P))]) = (q, hh)"
  shows "get_worker_build_kwargs P rel p u t wo h
           = (case q of
                Some e \<Rightarrow> (Inl e, hh)
              | None \<Rightarrow> (Inr (length h),
                          heap_upd hh (length h)
                            (\<lambda>d. dict_set d ''reactor_config_override''
                                   (PDict (heap_get hh (Suc (length h)))))))"
  using assms by (simp add: get_worker_build_kwargs_eq)

lemma get_worker_build_kwargs_shape:
  assumes "get_worker_build_kwargs P rel p u t wo h = (r, h')"
  shows "\<exists>xs. xs \<noteq> [] \<and> h' = h @ xs \<and> (\<forall>kw. r = Inr kw \<longrightarrow> kw = length h)"
proof (cases "reactor_config_is_default P")
  case True
  have "h' = h @ [adjusted_kwargs rel p u t (heap_get h (build_kwargs P))]" "r = Inr (length h)"
    using assms unfolding get_worker_build_kwargs_default[OF True] by simp_all
  then show ?thesis by blast
next
  case False
  define d where "d = adjusted_kwargs rel p u t (heap_get h (build_kwargs P))"
  define c where "c = adjusted_reactor_conf wo (heap_get (h @ [d]) (reactor_config_conf P))"
  obtain q hh where q: "update_content_versions (Suc (length h)) (h @ [d, c]) = (q, hh)"
    by (cases "update_content_versions (Suc (length h)) (h @ [d, c])")
  obtain c' where "snd (update_content_versions (Suc (length h)) (h @ [d, c])) = h @ [d, c']"
    using update_content_versions_snd by blast
  then have c': "hh = h @ [d, c']" unfolding q by simp
  note eq = get_worker_build_kwargs_override[OF False q[unfolded d_def c_def], folded d_def c_def]
  show ?thesis
  proof (cases q)
    case None
    have "get_worker_build_kwargs P rel p u t wo h
            = (Inr (length h), h @ [dict_set d ''reactor_config_override'' (PDict c'), c'])"
      unfolding eq None c' by (simp add: heap_upd_last1 heap_get_last)
    then have "h' = h @ [dict_set d ''reactor_config_override'' (PDict c'), c']" "r = Inr (length h)"
      using assms by simp_all
    then show ?thesis by blast
  next
    case (Some e)
    have "get_worker_build_kwargs P rel p u t wo h = (Inl e, h @ [d, c'])"
      unfolding eq Some c' by simp
    then have "h' = h @ [d, c']" "r = Inl e"
      using assms by simp_all
    then show ?thesis by blast
  qed
qed

lemma get_worker_build_kwargs_heap:
  assumes "get_worker_build_kwargs P rel p u t wo h = (r, h')"
  shows "heap_extends h h'" and "length h < length h'"
    and "\<And>kw. r = Inr kw \<Longrightarrow> kw = length h"
proof -
  from get_worker_build_kwargs_shape[OF assms]
  obtain xs where xs: "xs \<noteq> []" "h' = h @ xs" "\<forall>kw. r = Inr kw \<longrightarrow> kw = length h"
    by blast
  show "heap_extends h h'" unfolding xs(2) by (rule heap_extends_append)
  show "length h < length h'" using xs(1) unfolding xs(2) by simp
  show "\<And>kw. r = Inr kw \<Longrightarrow> kw = length h" using xs(3) by blast
qed

subsection \<open>Creating the build\<close>

lemma do_worker_build_create_error:
  assumes "create_build P E ci s = (Inl e, s1)" and "\<not> is_OsbsException e"
  shows "do_worker_build P E ci s
           = (None, s1\<lparr>worker_builds := worker_builds s1 @ [new_WorkerBuildInfo None ci]\<rparr>)"
  using assms by (simp add: do_worker_build_def)

lemma do_worker_build_create_refused:
  assumes "create_build P E ci s = (Inl e, s1)" and "is_OsbsException e"
  shows "do_worker_build P E ci s = (Some e, s1)"
  using assms by (simp add: do_worker_build_def)

lemma create_build_default:
  assumes "reactor_config_is_default P" and "ws_override_kwargs (st_workspace s) = None"
  shows "fst (create_build P E ci s)
           = osbs_create_worker_build E (ci_osbs ci)
               (adjusted_kwargs (release P) (ci_platform ci) (koji_upload_dir P) (fs_task_id P)
                  (heap_get (st_heap s) (build_kwargs P)))
               (length (trace (st_world s)))"
  using assms
  by (simp add: create_build_def get_worker_build_kwargs_default Let_def heap_get_last)

lemma create_build_kwargs_error:
  assumes "get_worker_build_kwargs P (release P) (ci_platform ci) (koji_upload_dir P)
             (fs_task_id P) (worker_openshift_of E (ci_osbs ci)) (st_heap s) = (Inl e, h)"
  shows "create_build P E ci s = (Inl e, s\<lparr>st_heap := h\<rparr>)"
  using assms by (simp add: create_build_def Let_def)

lemma boom_create: "fst (create_build plugin0 create_boom_env info_b state0) = Inl (OtherException ''boom'')"
  by (simp add: create_build_default plugin0_def state0_def create_boom_env_def)

lemma v1_kwargs:
  "fst (get_worker_build_kwargs plugin_v1 rel p u t wo (st_heap state_v1))
     = Inl (RuntimeError ''content_versions is empty'')"
  by (simp add: get_worker_build_kwargs_eq plugin_v1_def plugin0_def state_v1_def
        update_content_versions_last[where h = "[a, b]" for a b, simplified]
        adjusted_reactor_conf_def heap_get_def dict_pop_def Let_def)

lemma v1_create:
  "fst (create_build plugin_v1 healthy_env info_b state_v1)
     = Inl (RuntimeError ''content_versions is empty'')"
proof -
  obtain r h where g: "get_worker_build_kwargs plugin_v1 (release plugin_v1) (ci_platform info_b)
      (koji_upload_dir plugin_v1) (fs_task_id plugin_v1)
      (worker_openshift_of healthy_env (ci_osbs info_b)) (st_heap state_v1) = (r, h)"
    by force
  with v1_kwargs have "r = Inl (RuntimeError ''content_versions is empty'')"
    by (metis fst_conv)
  with g show ?thesis by (simp add: create_build_kwargs_error)
qed

subsection \<open>Refusals and the retry contexts\<close>

lemma refusals_append:
  "j \<le> length tr \<Longrightarrow> refusals E k (tr @ evs) i j = refusals E k tr i j"
proof -
  assume j: "j \<le> length tr"
  have "filter (\<lambda>n. event_cluster ((tr @ evs) ! n) = Some k \<and> refused E n ((tr @ evs) ! n)) [i..<j]
        = filter (\<lambda>n. event_cluster (tr ! n) = Some k \<and> refused E n (tr ! n)) [i..<j]"
    using j by (intro filter_cong) (auto simp: nth_append)
  then show ?thesis by (simp add: refusals_def)
qed

lemma refusals_Suc:
  "i \<le> length tr \<Longrightarrow>
   refusals E k (tr @ [ev]) i (Suc (length tr))
     = refusals E k tr i (length tr)
       + (if event_cluster ev = Some k \<and> refused E (length tr) ev then 1 else 0)"
proof -
  assume i: "i \<le> length tr"
  have "refusals E k (tr @ [ev]) i (Suc (length tr))
        = refusals E k (tr @ [ev]) i (length tr)
          + (if event_cluster ev = Some k \<and> refused E (length tr) ev then 1 else 0)"
    using i by (simp add: refusals_def)
  then show ?thesis by (simp add: refusals_append)
qed

lemma refusals_empty [simp]: "refusals E k tr i i = 0"
  by (simp add: refusals_def)

lemma refusals_mono: "j \<le> j' \<Longrightarrow> refusals E k tr i j \<le> refusals E k tr i j'"
proof -
  assume "j \<le> j'"
  then obtain d where d: "j' = j + d" by (metis le_Suc_ex)
  show ?thesis
  proof (cases "i \<le> j")
    case True
    then have "[i..<j + d] = [i..<j] @ [j..<j + d]" by (rule upt_add_eq_append)
    then show ?thesis unfolding d by (simp add: refusals_def)
  next
    case False
    then show ?thesis by (simp add: refusals_def)
  qed
qed

lemma tracked_init: "map_of ctxs k = Some ctx \<Longrightarrow> tracked E k ctx (length (trace w)) ctxs w"
  by (simp add: tracked_def)

lemma tracked_cong:
  "tracked E k ctx0 i0 ctxs w \<Longrightarrow> map_of ctxs' k = map_of ctxs k \<Longrightarrow> trace w' = trace w \<Longrightarrow>
     tracked E k ctx0 i0 ctxs' w'"
  by (simp add: tracked_def)

lemma tracked_event:
  assumes t: "tracked E k ctx0 i0 ctxs w"
    and tr: "trace w' = trace w @ [ev]"
    and ctx: "map_of ctxs k = Some ctx"
    and g: "event_cluster ev = Some k \<longrightarrow> \<not> failed ctx"
    and ctx': "map_of ctxs' k
                 = Some (if event_cluster ev = Some k \<and> refused E (length (trace w)) ev
                         then ctx\<lparr>fails := fails ctx + 1, retry_at := ra\<rparr> else ctx)"
  shows "tracked E k ctx0 i0 ctxs' w'"
proof -
  from t ctx have i0: "i0 \<le> length (trace w)"
    and mx: "max_cluster_fails ctx = max_cluster_fails ctx0"
    and fl: "fails ctx = fails ctx0 + int (refusals E k (trace w) i0 (length (trace w)))"
    and old: "\<forall>n. i0 \<le> n \<and> n < length (trace w) \<and> event_cluster (trace w ! n) = Some k \<longrightarrow>
          fails ctx0 + int (refusals E k (trace w) i0 n) < max_cluster_fails ctx0"
    by (auto simp: tracked_def)
  have len: "length (trace w') = Suc (length (trace w))" by (simp add: tr)
  have cnt: "refusals E k (trace w') i0 (length (trace w'))
        = refusals E k (trace w) i0 (length (trace w))
          + (if event_cluster ev = Some k \<and> refused E (length (trace w)) ev then 1 else 0)"
    using refusals_Suc[OF i0, of E k ev] by (simp add: tr)
  have new: "fails ctx0 + int (refusals E k (trace w') i0 n) < max_cluster_fails ctx0"
    if n: "i0 \<le> n" "n < length (trace w')" "event_cluster (trace w' ! n) = Some k" for n
  proof (cases "n < length (trace w)")
    case True
    then have "refusals E k (trace w') i0 n = refusals E k (trace w) i0 n"
      unfolding tr by (simp add: refusals_append)
    moreover have "event_cluster (trace w ! n) = Some k" using n(3) True by (simp add: tr nth_append)
    ultimately show ?thesis using old n(1) True by simp
  next
    case False
    with n(2) have e: "n = length (trace w)" by (simp add: len)
    then have k: "event_cluster ev = Some k" using n(3) by (simp add: tr)
    have "refusals E k (trace w') i0 n = refusals E k (trace w) i0 (length (trace w))"
      unfolding tr e by (simp add: refusals_append)
    with g k fl mx show ?thesis by (simp add: failed_def)
  qed
  show ?thesis
    unfolding tracked_def
    using i0 len ctx' mx fl cnt new by auto
qed

lemma trace_emit [simp]: "trace (emit E ev w) = trace w @ [ev]"
  by (simp add: emit_def)

lemma trace_sleep [simp]: "trace (sleep E n w) = trace w @ [Sleep n]"
  by (simp add: sleep_def)

lemma tracked_ctx: "tracked E k ctx0 i0 ctxs w \<Longrightarrow> \<exists>ctx. map_of ctxs k = Some ctx"
  by (auto simp: tracked_def)

lemma tracked_plain:
  assumes "tracked E k ctx0 i0 ctxs w" and "trace w' = trace w @ [ev]"
    and "event_cluster ev = Some k \<longrightarrow> \<not> refused E (length (trace w)) ev \<and> \<not> dead ctxs k"
    and "map_of ctxs' k = map_of ctxs k"
  shows "tracked E k ctx0 i0 ctxs' w'"
proof -
  from tracked_ctx[OF assms(1)] obtain ctx where ctx: "map_of ctxs k = Some ctx" by blast
  show ?thesis
    using assms(3,4) ctx
    by (intro tracked_event[OF assms(1,2) ctx, where ra = 0]) (auto simp: dead_def)
qed

lemma tracked_refused:
  assumes "tracked E k ctx0 i0 ctxs w" and "trace w' = trace w @ [ev]"
    and "event_cluster ev = Some k" and "refused E (length (trace w)) ev"
    and "map_of ctxs k = Some ctx" and "\<not> failed ctx"
  shows "tracked E k ctx0 i0 (dict_set ctxs k (try_again_later now d ctx)) w'"
  using assms(3,4,6)
  by (intro tracked_event[OF assms(1,2,5), where ra = "now + d"])
     (auto simp: map_of_dict_set try_again_later_alive)

lemma wait_for_any_cluster_tracked:
  assumes "wait_for_any_cluster E ctxs w = (r, w')" and "tracked E k ctx0 i0 ctxs w"
  shows "tracked E k ctx0 i0 ctxs w'"
proof (cases r)
  case (Inl e)
  with assms(1) have "w' = w"
    by (auto simp: wait_for_any_cluster_def Let_def split: list.splits)
  with assms(2) show ?thesis by simp
next
  case (Inr u)
  with assms(1) obtain n where "w' = sleep E n w"
    by (auto simp: wait_for_any_cluster_def Let_def split: list.splits)
  then have "trace w' = trace w @ [Sleep n]" by simp
  with assms(2) show ?thesis by (rule tracked_plain) simp_all
qed

lemma query_cluster_tracked:
  assumes q: "query_cluster E p d c ctxs pci w = (r, ctxs', pci', w')"
    and t: "tracked E k ctx0 i0 ctxs w"
  shows "tracked E k ctx0 i0 ctxs' w'"
proof (cases "map_of ctxs (name c)")
  case None
  with q have "ctxs' = ctxs" "w' = w" by (auto simp: query_cluster_def)
  with t show ?thesis by simp
next
  case (Some ctx)
  show ?thesis
  proof (cases "in_retry_wait (clock w) ctx \<or> failed ctx")
    case True
    with q Some have "ctxs' = ctxs" "w' = w" by (auto simp: query_cluster_def split: if_splits)
    with t show ?thesis by simp
  next
    case False
    define ev where "ev = ListBuilds (name c) p"
    obtain g w1 where g: "get_cluster_info E c p w = (g, w1)" by force
    then have w1: "w1 = emit E ev w"
      by (auto simp: get_cluster_info_def Let_def ev_def split: sum.splits if_splits)
    have tr: "trace w1 = trace w @ [ev]" by (simp add: w1)
    have ec: "event_cluster ev = Some (name c)" by (simp add: ev_def)
    have rf: "refused E (length (trace w)) ev \<longleftrightarrow> (\<exists>e. g = Inl e \<and> is_OsbsException e)"
      using g
      by (auto simp: refused_def ev_def get_cluster_info_def Let_def split: sum.splits if_splits)
    show ?thesis
    proof (cases "\<exists>e. g = Inl e \<and> is_OsbsException e")
      case True
      then obtain e where e: "g = Inl e" "is_OsbsException e" by blast
      with q Some False g
      have r: "ctxs' = dict_set ctxs (name c) (try_again_later (clock w1) d ctx)" "w' = w1"
        by (auto simp: query_cluster_def)
      show ?thesis
      proof (cases "k = name c")
        case True
        show ?thesis
          unfolding r True
          using t[unfolded True] tr ec rf \<open>\<exists>e. g = Inl e \<and> is_OsbsException e\<close> Some False
          by (intro tracked_refused) auto
      next
        case False
        show ?thesis
          unfolding r using t tr ec False
          by (intro tracked_plain[OF t tr]) (auto simp: map_of_dict_set)
      qed
    next
      case nr: False
      with q Some False g have r: "ctxs' = ctxs" "w' = w1"
        by (auto simp: query_cluster_def split: sum.splits)
      have "\<not> dead ctxs (name c)" using Some False by (simp add: dead_def)
      then show ?thesis
        unfolding r using ec rf nr by (intro tracked_plain[OF t tr]) auto
    qed
  qed
qed

lemma query_candidates_tracked:
  "query_candidates E p d cs ctxs pci w = (r, ctxs', pci', w') \<Longrightarrow> tracked E k ctx0 i0 ctxs w \<Longrightarrow>
     tracked E k ctx0 i0 ctxs' w'"
proof (induction cs arbitrary: ctxs pci w)
  case Nil
  then show ?case by simp
next
  case (Cons c cs)
  obtain r1 ctxs1 pci1 w1 where q: "query_cluster E p d c ctxs pci w = (r1, ctxs1, pci1, w1)"
    by (metis prod_cases4)
  note t1 = query_cluster_tracked[OF q Cons.prems(2)]
  show ?case
  proof (cases r1)
    case None
    with Cons.prems(1) q have "query_candidates E p d cs ctxs1 pci1 w1 = (r, ctxs', pci', w')"
      by simp
    from Cons.IH[OF this t1] show ?thesis .
  next
    case (Some e)
    with Cons.prems(1) q have "ctxs' = ctxs1" "w' = w1" by simp_all
    with t1 show ?thesis by simp
  qed
qed

lemma get_clusters_loop_tracked:
  "get_clusters_loop n E p d cands ctxs pci w = Some (r, ctxs', w') \<Longrightarrow>
   tracked E k ctx0 i0 ctxs w \<Longrightarrow> tracked E k ctx0 i0 ctxs' w'"
proof (induction n arbitrary: cands ctxs pci w)
  case 0
  then show ?case by (auto split: if_splits)
next
  case (Suc n)
  show ?case
  proof (cases "cands \<noteq> [] \<and> pci = []")
    case False
    with Suc.prems get_clusters_loop_stop[OF False, of "Suc n" E p d ctxs w] show ?thesis by auto
  next
    case True
    then have c: "cands \<noteq> []" and pe: "pci = []" by auto
    from Suc.prems(1) c pe show ?thesis
    proof (cases rule: get_clusters_loop_SucE)
      case (wait_fail e w1)
      with wait_for_any_cluster_tracked[OF wait_fail(1) Suc.prems(2)] show ?thesis by simp
    next
      case (query_fail u w1 e ctxs2 pci2 w2)
      note t1 = wait_for_any_cluster_tracked[OF query_fail(1) Suc.prems(2)]
      from query_candidates_tracked[OF query_fail(2) t1] query_fail(3) show ?thesis by simp
    next
      case (remove_fail u w1 e ctxs2 pci2 w2)
      note t1 = wait_for_any_cluster_tracked[OF remove_fail(1) Suc.prems(2)]
      from query_candidates_tracked[OF remove_fail(2) t1] remove_fail(4) show ?thesis by simp
    next
      case (round u w1 ctxs2 pci2 w2 cands2)
      note t1 = wait_for_any_cluster_tracked[OF round(1) Suc.prems(2)]
      note t2 = query_candidates_tracked[OF round(2) t1]
      from Suc.IH[OF round(4) t2] show ?thesis .
    qed
  qed
qed

lemma get_clusters_tracked:
  assumes "get_clusters fuel E d p ctxs all w = Some (r, ctxs', w')"
    and "tracked E k ctx0 i0 ctxs w"
  shows "tracked E k ctx0 i0 ctxs' w'"
proof -
  from assms(1) obtain r0 where
    loop: "get_clusters_loop fuel E p d (remdups all) ctxs [] w = Some (r0, ctxs', w')"
    by (auto simp: get_clusters_def Let_def split: option.splits sum.splits prod.splits)
  from get_clusters_loop_tracked[OF loop assms(2)] show ?thesis .
qed

text \<open>The ranking names every cluster once.\<close>

lemma query_cluster_distinct:
  assumes "query_cluster E p d c ctxs pci w = (r, ctxs', pci', w')" and "distinct (map fst pci)"
  shows "distinct (map fst pci')"
  using assms
  by (auto simp: query_cluster_def distinct_dict_set
        split: option.splits if_splits prod.splits sum.splits)

lemma query_candidates_distinct:
  "query_candidates E p d cs ctxs pci w = (r, ctxs', pci', w') \<Longrightarrow> distinct (map fst pci) \<Longrightarrow>
     distinct (map fst pci')"
proof (induction cs arbitrary: ctxs pci w)
  case Nil
  then show ?case by simp
next
  case (Cons c cs)
  obtain r1 ctxs1 pci1 w1 where q: "query_cluster E p d c ctxs pci w = (r1, ctxs1, pci1, w1)"
    by (metis prod_cases4)
  note t1 = query_cluster_distinct[OF q Cons.prems(2)]
  show ?case
  proof (cases r1)
    case None
    with Cons.prems(1) q have "query_candidates E p d cs ctxs1 pci1 w1 = (r, ctxs', pci', w')"
      by simp
    from Cons.IH[OF this t1] show ?thesis .
  next
    case (Some e)
    with Cons.prems(1) q have "pci' = pci1" by simp
    with t1 show ?thesis by simp
  qed
qed

lemma get_clusters_loop_distinct:
  "get_clusters_loop n E p d cands ctxs pci w = Some (Inr pci', ctxs', w') \<Longrightarrow>
   distinct (map fst pci) \<Longrightarrow> distinct (map fst pci')"
proof (induction n arbitrary: cands ctxs pci w)
  case 0
  then show ?case by (auto split: if_splits)
next
  case (Suc n)
  show ?case
  proof (cases "cands \<noteq> [] \<and> pci = []")
    case False
    with Suc.prems get_clusters_loop_stop[OF False, of "Suc n" E p d ctxs w] show ?thesis by auto
  next
    case True
    then have c: "cands \<noteq> []" and pe: "pci = []" by auto
    from Suc.prems(1) c pe show ?thesis
    proof (cases rule: get_clusters_loop_SucE)
      case (round u w1 ctxs2 pci2 w2 cands2)
      note t2 = query_candidates_distinct[OF round(2) Suc.prems(2)]
      from Suc.IH[OF round(4) t2] show ?thesis .
    qed simp_all
  qed
qed

lemma distinct_map_sort_key: "distinct (map f (sort_key g xs)) = distinct (map f xs)"
  by (simp add: distinct_map)

lemma get_clusters_distinct:
  assumes "get_clusters fuel E d p ctxs all w = Some (Inr ret, ctxs', w')"
    and "distinct (map name all)"
  shows "distinct (map (\<lambda>ci. name (ci_cluster ci)) ret)"
proof -
  from assms(1) obtain pci where
    loop: "get_clusters_loop fuel E p d (remdups all) ctxs [] w = Some (Inr pci, ctxs', w')"
    and ret: "ret = sort_key ci_load (sort_key (\<lambda>c. priority (ci_cluster c)) (map snd pci))"
    by (rule get_clusters_SomeE)
  have d: "distinct (map fst pci)" using get_clusters_loop_distinct[OF loop] by simp
  have fr: "\<forall>x\<in>set pci. x \<in> set [] \<or> (fst x \<in> set (remdups all) \<and> fresh_info ctxs p x)"
    using get_clusters_loop_inv[OF loop ctxs_rel_refl] by blast
  then have m: "map (\<lambda>x. name (ci_cluster (snd x))) pci = map name (map fst pci)"
    by (auto simp: fresh_info_def)
  have sub: "set (map fst pci) \<subseteq> set all" using fr by auto
  have inj: "inj_on name (set all)" using assms(2) by (simp add: distinct_map)
  have "distinct (map name (map fst pci))"
    using d sub inj by (metis distinct_map inj_on_subset)
  then have "distinct (map (\<lambda>x. name (ci_cluster (snd x))) pci)"
    unfolding m .
  then have "distinct (map (\<lambda>ci. name (ci_cluster ci)) (map snd pci))"
    by (simp add: comp_def)
  then show ?thesis unfolding ret by (simp only: distinct_map_sort_key)
qed

text \<open>Preparing the keyword arguments raises no \<^verbatim>\<open>OsbsException\<close>.\<close>

lemma update_content_versions_error:
  "update_content_versions a h = (Some e, h') \<Longrightarrow> \<not> is_OsbsException e"
proof -
  have i: "py_iter cv = Inl x \<Longrightarrow> \<not> is_OsbsException x" for cv x
    by (cases cv) auto
  assume "update_content_versions a h = (Some e, h')"
  then show ?thesis
    by (auto simp: update_content_versions_def Let_def dest: i
          split: option.splits sum.splits if_splits)
qed

lemma get_worker_build_kwargs_error:
  assumes "get_worker_build_kwargs P rel p u t wo h = (Inl e, h')"
  shows "\<not> is_OsbsException e"
proof (cases "reactor_config_is_default P")
  case True
  with assms show ?thesis by (simp add: get_worker_build_kwargs_default)
next
  case False
  obtain q hh where q: "update_content_versions (Suc (length h))
           (h @ [adjusted_kwargs rel p u t (heap_get h (build_kwargs P)),
                 adjusted_reactor_conf wo
                   (heap_get (h @ [adjusted_kwargs rel p u t (heap_get h (build_kwargs P))])
                      (reactor_config_conf P))]) = (q, hh)"
    by force
  from assms[unfolded get_worker_build_kwargs_override[OF False q]]
  have "q = Some e" by (cases q) auto
  with q show ?thesis by (simp add: update_content_versions_error)
qed

lemma create_build_trace:
  assumes "create_build P E ci s = (q, s1)"
  shows "(trace (st_world s1) = trace (st_world s) \<and> (\<exists>e. q = Inl e \<and> \<not> is_OsbsException e)) \<or>
         (\<exists>kw. trace (st_world s1) = trace (st_world s) @ [CreateWorkerBuild (ci_osbs ci) kw] \<and>
               q = osbs_create_worker_build E (ci_osbs ci) kw (length (trace (st_world s))))"
proof -
  obtain g h where g: "get_worker_build_kwargs P (release P) (ci_platform ci) (koji_upload_dir P)
             (fs_task_id P) (worker_openshift_of E (ci_osbs ci)) (st_heap s) = (g, h)"
    by force
  show ?thesis
  proof (cases g)
    case (Inl e)
    with g assms have "q = Inl e" "s1 = s\<lparr>st_heap := h\<rparr>"
      by (simp_all add: create_build_kwargs_error)
    with get_worker_build_kwargs_error[OF g[unfolded Inl]] show ?thesis by simp
  next
    case (Inr kw)
    with g assms show ?thesis
      by (auto simp: create_build_def Let_def)
  qed
qed

lemma tracked_monitor_event:
  assumes "tracked E k ctx0 i0 ctxs w" and "trace w' = trace w @ [ev]"
    and "event_cluster ev = Some c" and "\<not> dead ctxs c" and "\<And>n. \<not> refused E n ev"
  shows "tracked E k ctx0 i0 ctxs w'"
  using assms(3,4,5) by (intro tracked_plain[OF assms(1,2)]) auto

lemma watch_logs_tracked:
  assumes "watch_logs E bi w = (r, w')" and "tracked E k ctx0 i0 ctxs w"
    and "wb_osbs bi = Some c" and "\<not> dead ctxs c"
  shows "tracked E k ctx0 i0 ctxs w'"
proof -
  from assms(1,3) have "trace w' = trace w @ [GetBuildLogs c (wb_name bi)]"
    by (auto simp: watch_logs_def)
  from assms(2) this show ?thesis
    by (rule tracked_monitor_event[where c = c]) (simp_all add: assms(4) refused_def)
qed

lemma wait_to_finish_tracked:
  assumes "wait_to_finish E bi w = (r, bi', w')" and "tracked E k ctx0 i0 ctxs w"
    and "wb_osbs bi = Some c" and "\<not> dead ctxs c"
  shows "tracked E k ctx0 i0 ctxs w'"
proof -
  from assms(1,3) have "trace w' = trace w @ [WaitForBuild c (wb_name bi)]"
    by (auto simp: wait_to_finish_def Let_def split: sum.splits)
  from assms(2) this show ?thesis
    by (rule tracked_monitor_event[where c = c]) (simp_all add: assms(4) refused_def)
qed

lemma cancel_build_tracked:
  assumes "cancel_build E bi w = (r, w')" and "tracked E k ctx0 i0 ctxs w"
    and "wb_osbs bi = Some c" and "\<not> dead ctxs c"
  shows "tracked E k ctx0 i0 ctxs w'"
proof (cases "w' = w")
  case True
  with assms(2) show ?thesis by simp
next
  case False
  with assms(1,3) have "trace w' = trace w @ [CancelBuild c (wb_name bi)]"
    by (auto simp: cancel_build_def split: option.splits if_splits)
  from assms(2) this show ?thesis
    by (rule tracked_monitor_event[where c = c]) (simp_all add: assms(4) refused_def)
qed

lemma monitor_build_tracked:
  assumes m: "monitor_build E i s = (r, s')" and t: "tracked E k ctx0 i0 ctxs (st_world s)"
    and o: "wb_osbs (worker_builds s ! i) = Some c" and nd: "\<not> dead ctxs c"
  shows "tracked E k ctx0 i0 ctxs (st_world s')"
proof -
  define bi where "bi = worker_builds s ! i"
  obtain r0 w0 where wl: "watch_logs E bi (st_world s) = (r0, w0)" by force
  note t0 = watch_logs_tracked[OF wl t o[folded bi_def] nd]
  obtain r1 bi1 w1 where ww: "watch_and_wait E bi (st_world s) = (r1, bi1, w1)"
    by (metis prod_cases3)
  have t1: "tracked E k ctx0 i0 ctxs w1"
  proof (cases r0)
    case (Some e)
    with ww wl have "w1 = w0" by (simp add: watch_and_wait_def)
    with t0 show ?thesis by simp
  next
    case None
    with ww wl have "wait_to_finish E bi w0 = (r1, bi1, w1)" by (simp add: watch_and_wait_def)
    from wait_to_finish_tracked[OF this t0 o[folded bi_def] nd] show ?thesis .
  qed
  have o1: "wb_osbs bi1 = Some c"
    using watch_and_wait_world(3)[OF ww] o by (simp add: bi_def)
  show ?thesis
  proof (cases r1)
    case None
    with m ww have "st_world s' = w1" by (auto simp: monitor_build_def bi_def)
    with t1 show ?thesis by simp
  next
    case (Some e)
    define bi2 where "bi2 = bi1\<lparr>wb_monitor_exception := Some (MonExc e)\<rparr>"
    obtain cr w2 where cb: "cancel_build E bi2 w1 = (cr, w2)" by force
    have "wb_osbs bi2 = Some c" using o1 by (simp add: bi2_def)
    note t2 = cancel_build_tracked[OF cb t1 this nd]
    from m ww Some cb have "st_world s' = w2"
      by (auto simp: monitor_build_def bi_def bi2_def Let_def)
    with t2 show ?thesis by simp
  qed
qed

lemma start_on_cluster_other:
  assumes "start_on_cluster P E ci ctxs s = (r, ctxs', s')" and "k \<noteq> name (ci_cluster ci)"
  shows "map_of ctxs' k = map_of ctxs k"
  using assms
  by (auto simp: start_on_cluster_def map_of_dict_set
        split: option.splits prod.splits if_splits)

lemma start_on_cluster_tracked:
  assumes st: "start_on_cluster P E ci ctxs s = (r, ctxs', s')"
    and t: "tracked E k ctx0 i0 ctxs (st_world s)"
    and o: "ci_osbs ci = name (ci_cluster ci)" and nd: "\<not> dead ctxs (name (ci_cluster ci))"
  shows "tracked E k ctx0 i0 ctxs' (st_world s')"
proof (cases "map_of ctxs (name (ci_cluster ci))")
  case None
  with st have "ctxs' = ctxs" "s' = s" by (auto simp: start_on_cluster_def)
  with t show ?thesis by simp
next
  case (Some ctx)
  with nd have alive: "\<not> failed ctx" by (simp add: dead_def)
  define c where "c = name (ci_cluster ci)"
  obtain q s1 where cb: "create_build P E ci s = (q, s1)" by force
  from create_build_trace[OF cb] show ?thesis
  proof (elim disjE conjE exE)
    fix e assume tr: "trace (st_world s1) = trace (st_world s)" and q: "q = Inl e"
      and e: "\<not> is_OsbsException e"
    from do_worker_build_create_error[OF cb[unfolded q] e] st Some
    have "ctxs' = ctxs" "trace (st_world s') = trace (st_world s1)"
      by (auto simp: start_on_cluster_def)
    with t tr show ?thesis by (auto intro: tracked_cong)
  next
    fix kw
    define ev where "ev = CreateWorkerBuild (ci_osbs ci) kw"
    assume "trace (st_world s1) = trace (st_world s) @ [CreateWorkerBuild (ci_osbs ci) kw]"
      and q: "q = osbs_create_worker_build E (ci_osbs ci) kw (length (trace (st_world s)))"
    then have tr: "trace (st_world s1) = trace (st_world s) @ [ev]" by (simp add: ev_def)
    have ec: "event_cluster ev = Some c" by (simp add: ev_def o c_def)
    have rf: "refused E (length (trace (st_world s))) ev \<longleftrightarrow> (\<exists>e. q = Inl e \<and> is_OsbsException e)"
      by (auto simp: refused_def ev_def q split: sum.splits)
    show ?thesis
    proof (cases q)
      case (Inl e)
      show ?thesis
      proof (cases "is_OsbsException e")
        case True
        from do_worker_build_create_refused[OF cb[unfolded Inl] True] st Some True
        have r: "ctxs' = dict_set ctxs c
                   (try_again_later (clock (st_world s1)) (failure_retry_delay P) ctx)" "s' = s1"
          by (auto simp: start_on_cluster_def c_def)
        show ?thesis
        proof (cases "k = c")
          case kc: True
          show ?thesis
            unfolding r kc
            using t[unfolded kc] tr ec rf Inl True Some alive
            by (intro tracked_refused) (auto simp: c_def)
        next
          case False
          show ?thesis
            unfolding r using ec False
            by (intro tracked_plain[OF t tr]) (auto simp: map_of_dict_set)
        qed
      next
        case False
        from do_worker_build_create_error[OF cb[unfolded Inl] False] st Some
        have "ctxs' = ctxs" "trace (st_world s') = trace (st_world s1)"
          by (auto simp: start_on_cluster_def)
        moreover have "tracked E k ctx0 i0 ctxs (st_world s1)"
          using ec rf Inl False nd by (intro tracked_plain[OF t tr]) (auto simp: c_def)
        ultimately show ?thesis by (auto intro: tracked_cong)
      qed
    next
      case (Inr b)
      have t1: "tracked E k ctx0 i0 ctxs (st_world s1)"
        using ec rf Inr nd by (intro tracked_plain[OF t tr]) (auto simp: c_def)
      define s2 where "s2 = s1\<lparr>worker_builds := worker_builds s1 @ [new_WorkerBuildInfo (Some b) ci]\<rparr>"
      obtain r2 s3 where mb: "monitor_build E (length (worker_builds s1)) s2 = (r2, s3)" by force
      have "wb_osbs (worker_builds s2 ! length (worker_builds s1)) = Some c"
        by (simp add: s2_def new_WorkerBuildInfo_def o c_def)
      moreover have "tracked E k ctx0 i0 ctxs (st_world s2)" using t1 by (simp add: s2_def)
      ultimately have t3: "tracked E k ctx0 i0 ctxs (st_world s3)"
        using nd by (intro monitor_build_tracked[OF mb]) (auto simp: c_def)
      have d: "do_worker_build P E ci s = (r2, s3)"
        using cb Inr mb by (simp add: do_worker_build_def s2_def)
      have "\<not> (\<exists>e. r2 = Some e \<and> is_OsbsException e)" using monitor_build_world(6)[OF mb] .
      with st Some d have "ctxs' = ctxs" "s' = s3"
        by (auto simp: start_on_cluster_def split: option.splits if_splits)
      with t3 show ?thesis by simp
    qed
  qed
qed

lemma start_on_clusters_tracked:
  "start_on_clusters P E infos ctxs s = (r, ctxs', s') \<Longrightarrow>
   tracked E k ctx0 i0 ctxs (st_world s) \<Longrightarrow>
   \<forall>ci\<in>set infos. ci_osbs ci = name (ci_cluster ci) \<and> \<not> dead ctxs (name (ci_cluster ci)) \<Longrightarrow>
   distinct (map (\<lambda>ci. name (ci_cluster ci)) infos) \<Longrightarrow>
     tracked E k ctx0 i0 ctxs' (st_world s')"
proof (induction infos arbitrary: ctxs s)
  case Nil
  then show ?case by auto
next
  case (Cons ci infos)
  obtain r1 ctxs1 s1 where st: "start_on_cluster P E ci ctxs s = (r1, ctxs1, s1)"
    by (metis prod_cases3)
  from Cons.prems(3) have q: "ci_osbs ci = name (ci_cluster ci)" "\<not> dead ctxs (name (ci_cluster ci))"
    by auto
  note t1 = start_on_cluster_tracked[OF st Cons.prems(2) q]
  show ?case
  proof (cases "r1 = Inr False")
    case False
    with Cons.prems(1) st have "ctxs' = ctxs1" "s' = s1"
      by (auto split: sum.splits bool.splits)
    with t1 show ?thesis by simp
  next
    case True
    with Cons.prems(1) st have rest: "start_on_clusters P E infos ctxs1 s1 = (r, ctxs', s')" by simp
    have "\<forall>ci'\<in>set infos. ci_osbs ci' = name (ci_cluster ci') \<and> \<not> dead ctxs1 (name (ci_cluster ci'))"
    proof
      fix ci' assume m: "ci' \<in> set infos"
      from Cons.prems(4) have "name (ci_cluster ci) \<notin> (\<lambda>ci. name (ci_cluster ci)) ` set infos"
        by simp
      moreover from m have "name (ci_cluster ci') \<in> (\<lambda>ci. name (ci_cluster ci)) ` set infos"
        by (rule imageI)
      ultimately have "name (ci_cluster ci') \<noteq> name (ci_cluster ci)" by metis
      from start_on_cluster_other[OF st this] m Cons.prems(3)
      show "ci_osbs ci' = name (ci_cluster ci') \<and> \<not> dead ctxs1 (name (ci_cluster ci'))"
        by (simp add: dead_def)
    qed
    moreover from Cons.prems(4) have "distinct (map (\<lambda>ci. name (ci_cluster ci)) infos)" by simp
    ultimately show ?thesis using Cons.IH[OF rest t1] by blast
  qed
qed

lemma select_loop_tracked:
  "select_loop n P E p clusters ctxs s = Some (r, ctxs', s') \<Longrightarrow>
   tracked E k ctx0 i0 ctxs (st_world s) \<Longrightarrow> distinct (map name clusters) \<Longrightarrow>
     tracked E k ctx0 i0 ctxs' (st_world s')"
proof (induction n arbitrary: ctxs s)
  case 0
  then show ?case by simp
next
  case (Suc n)
  have ranking: "tracked E k ctx0 i0 ctxs1 w1 \<and>
       (\<forall>ci\<in>set ret. ci_osbs ci = name (ci_cluster ci) \<and> \<not> dead ctxs1 (name (ci_cluster ci))) \<and>
       distinct (map (\<lambda>ci. name (ci_cluster ci)) ret)"
    if g: "get_clusters n E (find_cluster_retry_delay P) p ctxs clusters (st_world s)
             = Some (Inr ret, ctxs1, w1)" for ret ctxs1 w1
  proof -
    have "\<forall>ci\<in>set ret. \<not> dead ctxs1 (name (ci_cluster ci))"
      using get_clusters_usable[OF g Suc.prems(3)] by (auto simp: usable_def dead_def split: option.splits)
    then show ?thesis
      using get_clusters_tracked[OF g Suc.prems(2)] get_clusters_members[OF g]
        get_clusters_distinct[OF g Suc.prems(3)]
      by blast
  qed
  from Suc.prems(1) show ?case
  proof (cases rule: select_loop_SucE)
    case (exhausted m ctxs1 w1)
    from get_clusters_tracked[OF exhausted(1) Suc.prems(2)] exhausted(2) show ?thesis by simp
  next
    case (select_fail ex ctxs1 w1)
    from get_clusters_tracked[OF select_fail(1) Suc.prems(2)] select_fail(3) show ?thesis by simp
  next
    case (start_fail ret ctxs1 w1 e ctxs2 s2)
    note g = ranking[OF start_fail(1)]
    have "tracked E k ctx0 i0 ctxs2 (st_world s2)"
      using g by (intro start_on_clusters_tracked[OF start_fail(2)]) simp_all
    with start_fail(3) show ?thesis by simp
  next
    case (started ret ctxs1 w1 ctxs2 s2)
    note g = ranking[OF started(1)]
    have "tracked E k ctx0 i0 ctxs2 (st_world s2)"
      using g by (intro start_on_clusters_tracked[OF started(2)]) simp_all
    with started(3) show ?thesis by simp
  next
    case (again ret ctxs1 w1 ctxs2 s2)
    note g = ranking[OF again(1)]
    have "tracked E k ctx0 i0 ctxs2 (st_world s2)"
      using g by (intro start_on_clusters_tracked[OF again(2)]) simp_all
    from Suc.IH[OF again(3) this Suc.prems(3)] show ?thesis .
  qed
qed

lemma map_of_foldl_dict_set:
  "map_of (foldl (\<lambda>d c. dict_set d (f c) v) d0 cs) k
     = (if k \<in> f ` set cs then Some v else map_of d0 k)"
  by (induction cs arbitrary: d0) (auto simp: map_of_dict_set)

lemma map_of_new_retry_contexts:
  "c \<in> set clusters \<Longrightarrow>
     map_of (new_retry_contexts P clusters) (name c)
       = Some (new_ClusterRetryContext (plugin_max_cluster_fails P))"
  by (simp add: new_retry_contexts_def map_of_foldl_dict_set)

lemma tracked_dead:
  assumes t: "tracked E k ctx0 i0 ctxs w"
    and n: "i0 \<le> n" "n \<le> m" "m < length (trace w)"
    and d: "max_cluster_fails ctx0 \<le> fails ctx0 + int (refusals E k (trace w) i0 n)"
  shows "event_cluster (trace w ! m) \<noteq> Some k"
proof
  assume "event_cluster (trace w ! m) = Some k"
  with t n have "fails ctx0 + int (refusals E k (trace w) i0 m) < max_cluster_fails ctx0"
    by (auto simp: tracked_def)
  moreover have "refusals E k (trace w) i0 n \<le> refusals E k (trace w) i0 m"
    using n(2) by (rule refusals_mono)
  ultimately show False using d by simp
qed

lemma select_loop_refusals:
  assumes "select_loop fuel P E p clusters ctxs s = Some (r, ctxs', s')"
    and "distinct (map name clusters)" and "map_of ctxs k = Some ctx"
  shows "\<exists>ctx'. map_of ctxs' k = Some ctx' \<and> max_cluster_fails ctx' = max_cluster_fails ctx \<and>
            fails ctx' = fails ctx + int (refusals E k (trace (st_world s'))
                                           (length (trace (st_world s)))
                                           (length (trace (st_world s'))))"
    and "\<forall>n m. length (trace (st_world s)) \<le> n \<and> n \<le> m \<and> m < length (trace (st_world s')) \<and>
           max_cluster_fails ctx
             \<le> fails ctx + int (refusals E k (trace (st_world s')) (length (trace (st_world s))) n)
           \<longrightarrow> event_cluster (trace (st_world s') ! m) \<noteq> Some k"
proof -
  note t = select_loop_tracked[OF assms(1) tracked_init[OF assms(3)] assms(2)]
  from t show "\<exists>ctx'. map_of ctxs' k = Some ctx' \<and> max_cluster_fails ctx' = max_cluster_fails ctx \<and>
            fails ctx' = fails ctx + int (refusals E k (trace (st_world s'))
                                           (length (trace (st_world s)))
                                           (length (trace (st_world s'))))"
    by (auto simp: tracked_def)
  show "\<forall>n m. length (trace (st_world s)) \<le> n \<and> n \<le> m \<and> m < length (trace (st_world s')) \<and>
           max_cluster_fails ctx
             \<le> fails ctx + int (refusals E k (trace (st_world s')) (length (trace (st_world s))) n)
           \<longrightarrow> event_cluster (trace (st_world s') ! m) \<noteq> Some k"
    using tracked_dead[OF t] by blast
qed

lemma select_and_start_cluster_refusals:
  assumes "select_and_start_cluster fuel P E p s = Some (r, s')"
    and "distinct (map name (get_enabled_clusters_for_platform P p))"
    and "c \<in> set (get_enabled_clusters_for_platform P p)"
  shows "\<forall>n m. length (trace (st_world s)) \<le> n \<and> n \<le> m \<and> m < length (trace (st_world s')) \<and>
           plugin_max_cluster_fails P
             \<le> int (refusals E (name c) (trace (st_world s')) (length (trace (st_world s))) n)
           \<longrightarrow> event_cluster (trace (st_world s') ! m) \<noteq> Some (name c)"
proof -
  define clusters where "clusters = get_enabled_clusters_for_platform P p"
  from assms(3) have ne: "clusters \<noteq> []" by (auto simp: clusters_def)
  with assms(1) obtain ctxs' where
    sl: "select_loop fuel P E p clusters (new_retry_contexts P clusters) s = Some (r, ctxs', s')"
    by (auto simp: select_and_start_cluster_def Let_def clusters_def split: option.splits)
  have m: "map_of (new_retry_contexts P clusters) (name c)
             = Some (new_ClusterRetryContext (plugin_max_cluster_fails P))"
    using assms(3) by (simp add: map_of_new_retry_contexts clusters_def)
  from select_loop_refusals(2)[OF sl assms(2)[folded clusters_def] m]
  show ?thesis by (simp add: new_ClusterRetryContext_def)
qed

subsection \<open>A ranking is produced, and its first entry is launched first\<close>

lemma get_cluster_info_load:
  "get_cluster_info E c p w = (Inr ci, w') \<Longrightarrow> load_measured E p ci"
  by (fastforce simp: get_cluster_info_def Let_def load_measured_def split: sum.splits if_splits)

lemma query_cluster_load:
  assumes "query_cluster E p d c ctxs pci w = (r, ctxs', pci', w')"
  shows "\<forall>x\<in>set pci'. x \<in> set pci \<or> load_measured E p (snd x)"
  using assms
  by (auto simp: query_cluster_def dest!: in_dict_setD get_cluster_info_load
        split: option.splits if_splits prod.splits sum.splits)

lemma query_candidates_load:
  "query_candidates E p d cs ctxs pci w = (r, ctxs', pci', w') \<Longrightarrow>
     \<forall>x\<in>set pci'. x \<in> set pci \<or> load_measured E p (snd x)"
proof (induction cs arbitrary: ctxs pci w)
  case Nil
  then show ?case by simp
next
  case (Cons c cs)
  obtain r1 ctxs1 pci1 w1 where q: "query_cluster E p d c ctxs pci w = (r1, ctxs1, pci1, w1)"
    by (metis prod_cases4)
  note i = query_cluster_load[OF q]
  show ?case
  proof (cases r1)
    case None
    with Cons.prems q have "query_candidates E p d cs ctxs1 pci1 w1 = (r, ctxs', pci', w')"
      by simp
    from Cons.IH[OF this] i show ?thesis by blast
  next
    case (Some e)
    with Cons.prems q have "pci' = pci1" by simp
    with i show ?thesis by simp
  qed
qed

lemma get_clusters_loop_load:
  "get_clusters_loop n E p d cands ctxs pci w = Some (Inr pci', ctxs', w') \<Longrightarrow>
     \<forall>x\<in>set pci'. x \<in> set pci \<or> load_measured E p (snd x)"
proof (induction n arbitrary: cands ctxs pci w)
  case 0
  then show ?case by (auto split: if_splits)
next
  case (Suc n)
  show ?case
  proof (cases "cands \<noteq> [] \<and> pci = []")
    case False
    with Suc.prems get_clusters_loop_stop[OF False, of "Suc n" E p d ctxs w] show ?thesis by auto
  next
    case True
    then have c: "cands \<noteq> []" and pe: "pci = []" by auto
    from Suc.prems(1) c pe show ?thesis
    proof (cases rule: get_clusters_loop_SucE)
      case (round u w1 ctxs2 pci2 w2 cands2)
      from Suc.IH[OF round(4)] query_candidates_load[OF round(2)] show ?thesis by blast
    qed simp_all
  qed
qed

lemma get_clusters_load:
  assumes "get_clusters fuel E d p ctxs all w = Some (Inr ret, ctxs', w')"
  shows "\<forall>ci\<in>set ret. load_measured E p ci"
proof -
  from assms(1) obtain pci where
    loop: "get_clusters_loop fuel E p d (remdups all) ctxs [] w = Some (Inr pci, ctxs', w')"
    and ret: "ret = sort_key ci_load (sort_key (\<lambda>c. priority (ci_cluster c)) (map snd pci))"
    by (rule get_clusters_SomeE)
  from get_clusters_loop_load[OF loop] show ?thesis unfolding ret by auto
qed

lemma load_query_answersD:
  assumes "load_query_answers E p c"
  shows "answers E p c" and "\<exists>ci w'. get_cluster_info E c p w = (Inr ci, w')"
proof -
  show "\<exists>ci w'. get_cluster_info E c p w = (Inr ci, w')"
    using assms by (simp add: load_query_answers_def)
  show "answers E p c"
    unfolding answers_def
  proof
    fix n
    define w0 where "w0 = \<lparr>clock = 0, trace = replicate n (Sleep 0)\<rparr>"
    from assms obtain ci w' where "get_cluster_info E c p w0 = (Inr ci, w')"
      unfolding load_query_answers_def by blast
    then show "\<exists>b. osbs_list_builds E (name c) p n = Inr b"
      by (auto simp: get_cluster_info_def Let_def w0_def split: sum.splits if_splits)
  qed
qed

lemma query_cluster_total:
  assumes "map_of ctxs (name c) \<noteq> None" and "load_query_answers E p c"
  shows "\<exists>pci' w'. query_cluster E p d c ctxs pci w = (None, ctxs, pci', w')"
proof -
  from assms(1) obtain ctx where ctx: "map_of ctxs (name c) = Some ctx" by blast
  from load_query_answersD(2)[OF assms(2), of w] obtain ci w' where
    "get_cluster_info E c p w = (Inr ci, w')" by blast
  with ctx show ?thesis by (simp add: query_cluster_def)
qed

lemma query_candidates_total:
  "\<forall>c\<in>set cs. map_of ctxs (name c) \<noteq> None \<and> load_query_answers E p c \<Longrightarrow>
     \<exists>pci' w'. query_candidates E p d cs ctxs pci w = (None, ctxs, pci', w')"
proof (induction cs arbitrary: pci w)
  case Nil
  then show ?case by simp
next
  case (Cons c cs)
  from Cons.prems obtain pci1 w1 where
    q: "query_cluster E p d c ctxs pci w = (None, ctxs, pci1, w1)"
    using query_cluster_total[of ctxs c E p d pci w] by auto
  from Cons.prems have "\<forall>c\<in>set cs. map_of ctxs (name c) \<noteq> None \<and> load_query_answers E p c"
    by simp
  from Cons.IH[OF this, of pci1 w1] q show ?case by simp
qed

lemma remove_failed_total:
  "\<forall>c\<in>set cs. map_of ctxs (name c) \<noteq> None \<Longrightarrow> \<exists>cs'. remove_failed ctxs cs = Inr cs'"
  by (induction cs) auto

lemma fold_min_le: "x \<in> set (r # rs) \<Longrightarrow> fold min rs r \<le> (x::int)"
proof (induction rs arbitrary: r x)
  case Nil
  then show ?case by simp
next
  case (Cons a rs)
  show ?case
  proof (cases "x \<in> set (min a r # rs)")
    case True
    from Cons.IH[OF this] show ?thesis by simp
  next
    case False
    with Cons.prems have x: "x = a \<or> x = r" and "x \<noteq> min a r" by auto
    have "fold min rs (min a r) \<le> min a r" by (rule Cons.IH) simp
    with x show ?thesis by auto
  qed
qed

lemma wait_for_any_cluster_usable:
  assumes "usable ctxs (clock w) c"
  shows "wait_for_any_cluster E ctxs w = (Inr (), sleep E 0 w)"
proof -
  from assms obtain ctx where ctx: "map_of ctxs (name c) = Some ctx" "\<not> failed ctx"
    "retry_at ctx \<le> clock w"
    by (auto simp: usable_def in_retry_wait_def split: option.splits)
  define rs where "rs = map retry_at (filter (\<lambda>ctx. \<not> failed ctx) (map snd ctxs))"
  have "ctx \<in> set (map snd ctxs)" using map_of_SomeD[OF ctx(1)] by force
  then have m: "retry_at ctx \<in> set rs" using ctx(2) by (auto simp: rs_def)
  then obtain r rest where rr: "rs = r # rest" by (cases rs) auto
  have "fold min rest r \<le> retry_at ctx" using m unfolding rr by (rule fold_min_le)
  then have "max 0 (fold min rest r - clock w) = 0" using ctx(3) by simp
  then show ?thesis
    using rr unfolding rs_def
    by (simp add: wait_for_any_cluster_def Let_def timedelta_seconds_def)
qed

lemma get_clusters_total:
  assumes H1: "\<forall>c\<in>set all. load_query_answers E p c"
    and H3: "\<forall>c\<in>set all. map_of ctxs (name c) \<noteq> None"
    and c0: "c0 \<in> set all" and u: "usable ctxs (clock w) c0"
  shows "\<exists>ret w'. get_clusters (Suc n) E d p ctxs all w = Some (Inr ret, ctxs, w') \<and> ret \<noteq> []"
proof -
  define cands where "cands = remdups all"
  have ne: "cands \<noteq> []" using c0 by (auto simp: cands_def)
  define w1 where "w1 = sleep E 0 w"
  have wt: "wait_for_any_cluster E ctxs w = (Inr (), w1)"
    unfolding w1_def using u by (rule wait_for_any_cluster_usable)
  have l1: "later w w1" unfolding w1_def by (rule later_sleep) simp
  have "\<forall>c\<in>set (sort_key priority cands). map_of ctxs (name c) \<noteq> None \<and> load_query_answers E p c"
    using H1 H3 by (simp add: cands_def)
  from query_candidates_total[OF this, of d "[]" w1] obtain pci2 w2 where
    q: "query_candidates E p d (sort_key priority cands) ctxs [] w1 = (None, ctxs, pci2, w2)"
    by blast
  from u obtain ctx where ctx: "map_of ctxs (name c0) = Some ctx" "\<not> failed ctx"
    "retry_at ctx \<le> clock w"
    by (auto simp: usable_def in_retry_wait_def split: option.splits)
  have "retry_at ctx \<le> clock w1" using ctx(3) l1 by (simp add: later_def)
  moreover have "answers E p c0" using H1 c0 load_query_answersD(1) by blast
  moreover have "c0 \<in> set (sort_key priority cands)" using c0 by (simp add: cands_def)
  ultimately have "c0 \<in> fst ` set pci2"
    using query_candidates_complete[OF q ctx(1,2)] by blast
  then have pne: "pci2 \<noteq> []" by auto
  have "\<forall>c\<in>set cands. map_of ctxs (name c) \<noteq> None" using H3 by (simp add: cands_def)
  from remove_failed_total[OF this] obtain cands2 where rf: "remove_failed ctxs cands = Inr cands2"
    by blast
  have "get_clusters_loop (Suc n) E p d cands ctxs [] w
          = get_clusters_loop n E p d cands2 ctxs pci2 w2"
    using ne wt q rf by simp
  also have "\<dots> = Some (Inr pci2, ctxs, w2)" using pne by (rule get_clusters_loop_nonempty)
  finally have "get_clusters (Suc n) E d p ctxs all w
      = Some (Inr (sort_key ci_load (sort_key (\<lambda>c. priority (ci_cluster c)) (map snd pci2))),
              ctxs, w2)"
    by (simp add: get_clusters_def cands_def Let_def)
  moreover have "sort_key ci_load (sort_key (\<lambda>c. priority (ci_cluster c)) (map snd pci2)) \<noteq> []"
    using pne by (metis length_0_conv length_map length_sort)
  ultimately show ?thesis by blast
qed

text \<open>
  The first round of the selection loop once the ranking is known: the build is launched
  on the first entry of the ranking.
\<close>

lemma select_loop_first_launch:
  assumes g: "get_clusters n E (find_cluster_retry_delay P) p ctxs clusters (st_world s)
                = Some (Inr ret, ctxs1, w1)"
    and ne: "ret \<noteq> []"
    and ctx: "map_of ctxs1 (name (ci_cluster (hd ret))) = Some ctx"
    and d: "do_worker_build P E (hd ret) (s\<lparr>st_world := w1\<rparr>) = (q, s2)"
  shows "select_loop (Suc n) P E p clusters ctxs s
     = (case q of
          None \<Rightarrow> Some (None, ctxs1, s2)
        | Some e \<Rightarrow>
            if is_OsbsException e
            then (case start_on_clusters P E (tl ret)
                         (dict_set ctxs1 (name (ci_cluster (hd ret)))
                            (try_again_later (clock (st_world s2)) (failure_retry_delay P) ctx)) s2 of
                    (Inl e', ctxs2, s3) \<Rightarrow> Some (Some e', ctxs2, s3)
                  | (Inr True, ctxs2, s3) \<Rightarrow> Some (None, ctxs2, s3)
                  | (Inr False, ctxs2, s3) \<Rightarrow> select_loop n P E p clusters ctxs2 s3)
            else Some (Some e, ctxs1, s2))"
proof -
  from ne obtain ci rest where ret: "ret = ci # rest" by (cases ret) auto
  show ?thesis
    using g ctx d unfolding ret
    by (simp add: start_on_cluster_def split: option.splits)
qed

text \<open>The events of a launch begin with the request to create the build.\<close>

lemma do_worker_build_first_event:
  assumes d: "do_worker_build P E ci s = (q, s2)"
    and k: "get_worker_build_kwargs P (release P) (ci_platform ci) (koji_upload_dir P)
              (fs_task_id P) (worker_openshift_of E (ci_osbs ci)) (st_heap s) = (Inr kw, h)"
  shows "\<exists>kwargs evs. new_events (st_world s) (st_world s2)
                         = CreateWorkerBuild (ci_osbs ci) kwargs # evs"
proof -
  obtain r s1 where cb: "create_build P E ci s = (r, s1)" by force
  from cb k obtain kwargs where
    ev: "st_world s1 = emit E (CreateWorkerBuild (ci_osbs ci) kwargs) (st_world s)"
    by (auto simp: create_build_def Let_def)
  have l1: "later (st_world s) (st_world s1)" unfolding ev by (rule later_emit)
  have n1: "new_events (st_world s) (st_world s1) = [CreateWorkerBuild (ci_osbs ci) kwargs]"
    unfolding ev by (rule new_events_emit)
  have l2: "later (st_world s1) (st_world s2)"
  proof (cases r)
    case (Inl e)
    with d cb show ?thesis by (auto simp: do_worker_build_def split: if_splits)
  next
    case (Inr b)
    with d cb have "monitor_build E (length (worker_builds s1))
          (s1\<lparr>worker_builds := worker_builds s1 @ [new_WorkerBuildInfo (Some b) ci]\<rparr>) = (q, s2)"
      by (simp add: do_worker_build_def)
    from monitor_build_world(1)[OF this] show ?thesis by simp
  qed
  from new_events_append[OF l1 l2] n1 show ?thesis by simp
qed

lemma first_launch:
  assumes H1: "\<forall>c\<in>set clusters. load_query_answers E p c \<and> map_of ctxs (name c) \<noteq> None"
    and H4: "\<exists>c\<in>set clusters. usable ctxs (clock (st_world s)) c"
  shows "\<exists>best rest w1 q s2.
     get_clusters (Suc n) E (find_cluster_retry_delay P) p ctxs clusters (st_world s)
       = Some (Inr (best # rest), ctxs, w1) \<and>
     (\<forall>c\<in>set clusters. usable ctxs (clock (st_world s)) c \<longrightarrow>
         (\<exists>ci\<in>set (best # rest). ci_cluster ci = c \<and> ranked_before best ci)) \<and>
     do_worker_build P E best (s\<lparr>st_world := w1\<rparr>) = (q, s2) \<and>
     (\<forall>kw h. get_worker_build_kwargs P (release P) p (koji_upload_dir P) (fs_task_id P)
               (worker_openshift_of E (ci_osbs best)) (st_heap s) = (Inr kw, h) \<longrightarrow>
        (\<exists>kwargs evs. new_events w1 (st_world s2)
                         = CreateWorkerBuild (name (ci_cluster best)) kwargs # evs)) \<and>
     (q = None \<longrightarrow> select_loop (Suc (Suc n)) P E p clusters ctxs s = Some (None, ctxs, s2)) \<and>
     (\<forall>e. q = Some e \<and> \<not> is_OsbsException e \<longrightarrow>
        select_loop (Suc (Suc n)) P E p clusters ctxs s = Some (Some e, ctxs, s2)) \<and>
     (\<forall>e. q = Some e \<and> is_OsbsException e \<longrightarrow>
        (\<exists>ctx. map_of ctxs (name (ci_cluster best)) = Some ctx \<and>
           select_loop (Suc (Suc n)) P E p clusters ctxs s
             = (case start_on_clusters P E rest
                       (dict_set ctxs (name (ci_cluster best))
                          (try_again_later (clock (st_world s2)) (failure_retry_delay P) ctx)) s2 of
                  (Inl e', ctxs2, s3) \<Rightarrow> Some (Some e', ctxs2, s3)
                | (Inr True, ctxs2, s3) \<Rightarrow> Some (None, ctxs2, s3)
                | (Inr False, ctxs2, s3) \<Rightarrow> select_loop (Suc n) P E p clusters ctxs2 s3)))"
proof -
  from H4 obtain c0 where c0: "c0 \<in> set clusters" "usable ctxs (clock (st_world s)) c0" by blast
  have a1: "\<forall>c\<in>set clusters. load_query_answers E p c" using H1 by blast
  have a3: "\<forall>c\<in>set clusters. map_of ctxs (name c) \<noteq> None" using H1 by blast
  from get_clusters_total[OF a1 a3 c0, of n "find_cluster_retry_delay P"] obtain ret w1 where
    g: "get_clusters (Suc n) E (find_cluster_retry_delay P) p ctxs clusters (st_world s)
          = Some (Inr ret, ctxs, w1)" and "ret \<noteq> []"
    by blast
  then obtain best rest where ret: "ret = best # rest" by (cases ret) auto
  note g = g[unfolded ret]
  from g obtain pci where
    "get_clusters_loop (Suc n) E p (find_cluster_retry_delay P) (remdups clusters) ctxs []
       (st_world s) = Some (Inr pci, ctxs, w1)"
    and r: "best # rest = sort_key ci_load (sort_key (\<lambda>c. priority (ci_cluster c)) (map snd pci))"
    by (rule get_clusters_SomeE)
  have "sorted_wrt ranked_before (best # rest)" unfolding r by (rule ranking_sorted)
  then have rb: "\<forall>ci\<in>set (best # rest). ranked_before best ci"
    using ranked_before_refl by auto
  have cm: "\<forall>c\<in>set clusters. usable ctxs (clock (st_world s)) c \<longrightarrow>
         (\<exists>ci\<in>set (best # rest). ci_cluster ci = c \<and> ranked_before best ci)"
  proof (intro ballI impI)
    fix c assume c: "c \<in> set clusters" "usable ctxs (clock (st_world s)) c"
    have "answers E p c" using a1 c(1) load_query_answersD(1) by blast
    from get_clusters_complete[OF g c this] rb
    show "\<exists>ci\<in>set (best # rest). ci_cluster ci = c \<and> ranked_before best ci" by auto
  qed
  note m = get_clusters_members[OF g]
  have bm: "ci_cluster best \<in> set clusters" "ci_osbs best = name (ci_cluster best)"
    "ci_platform best = p"
    using m by simp_all
  obtain ctx where ctx: "map_of ctxs (name (ci_cluster best)) = Some ctx" using a3 bm(1) by blast
  obtain q s2 where d: "do_worker_build P E best (s\<lparr>st_world := w1\<rparr>) = (q, s2)" by force
  have fe: "\<forall>kw h. get_worker_build_kwargs P (release P) p (koji_upload_dir P) (fs_task_id P)
               (worker_openshift_of E (ci_osbs best)) (st_heap s) = (Inr kw, h) \<longrightarrow>
        (\<exists>kwargs evs. new_events w1 (st_world s2)
                         = CreateWorkerBuild (name (ci_cluster best)) kwargs # evs)"
  proof (intro allI impI)
    fix kw h
    assume "get_worker_build_kwargs P (release P) p (koji_upload_dir P) (fs_task_id P)
               (worker_openshift_of E (ci_osbs best)) (st_heap s) = (Inr kw, h)"
    then have "get_worker_build_kwargs P (release P) (ci_platform best) (koji_upload_dir P)
        (fs_task_id P) (worker_openshift_of E (ci_osbs best)) (st_heap (s\<lparr>st_world := w1\<rparr>))
          = (Inr kw, h)"
      by (simp add: bm(3))
    from do_worker_build_first_event[OF d this]
    show "\<exists>kwargs evs. new_events w1 (st_world s2)
                         = CreateWorkerBuild (name (ci_cluster best)) kwargs # evs"
      by (simp add: bm(2))
  qed
  have hd: "map_of ctxs (name (ci_cluster (hd (best # rest)))) = Some ctx"
    "do_worker_build P E (hd (best # rest)) (s\<lparr>st_world := w1\<rparr>) = (q, s2)"
    using ctx d by simp_all
  note sl = select_loop_first_launch[OF g _ hd, simplified]
  show ?thesis
  proof (intro exI conjI)
    show "get_clusters (Suc n) E (find_cluster_retry_delay P) p ctxs clusters (st_world s)
       = Some (Inr (best # rest), ctxs, w1)" by (rule g)
    show "\<forall>c\<in>set clusters. usable ctxs (clock (st_world s)) c \<longrightarrow>
         (\<exists>ci\<in>set (best # rest). ci_cluster ci = c \<and> ranked_before best ci)" by (rule cm)
    show "do_worker_build P E best (s\<lparr>st_world := w1\<rparr>) = (q, s2)" by (rule d)
    show "\<forall>kw h. get_worker_build_kwargs P (release P) p (koji_upload_dir P) (fs_task_id P)
               (worker_openshift_of E (ci_osbs best)) (st_heap s) = (Inr kw, h) \<longrightarrow>
        (\<exists>kwargs evs. new_events w1 (st_world s2)
                         = CreateWorkerBuild (name (ci_cluster best)) kwargs # evs)" by (rule fe)
    show "q = None \<longrightarrow> select_loop (Suc (Suc n)) P E p clusters ctxs s = Some (None, ctxs, s2)"
      using sl by simp
    show "\<forall>e. q = Some e \<and> \<not> is_OsbsException e \<longrightarrow>
        select_loop (Suc (Suc n)) P E p clusters ctxs s = Some (Some e, ctxs, s2)"
      using sl by simp
    show "\<forall>e. q = Some e \<and> is_OsbsException e \<longrightarrow>
        (\<exists>ctx. map_of ctxs (name (ci_cluster best)) = Some ctx \<and>
           select_loop (Suc (Suc n)) P E p clusters ctxs s
             = (case start_on_clusters P E rest
                       (dict_set ctxs (name (ci_cluster best))
                          (try_again_later (clock (st_world s2)) (failure_retry_delay P) ctx)) s2 of
                  (Inl e', ctxs2, s3) \<Rightarrow> Some (Some e', ctxs2, s3)
                | (Inr True, ctxs2, s3) \<Rightarrow> Some (None, ctxs2, s3)
                | (Inr False, ctxs2, s3) \<Rightarrow> select_loop (Suc n) P E p clusters ctxs2 s3))"
      using sl ctx by simp
  qed
qed

lemma task_first_launch:
  assumes cl: "clusters = get_enabled_clusters_for_platform P p" and ne: "clusters \<noteq> []"
    and H1: "\<forall>c\<in>set clusters. load_query_answers E p c"
    and mx: "0 < plugin_max_cluster_fails P" and ck: "0 \<le> clock (st_world s)"
  shows "\<exists>best rest w1 q s2.
     get_clusters (Suc n) E (find_cluster_retry_delay P) p (new_retry_contexts P clusters)
         clusters (st_world s)
       = Some (Inr (best # rest), new_retry_contexts P clusters, w1) \<and>
     ci_cluster ` set (best # rest) = set clusters \<and>
     (\<forall>ci\<in>set (best # rest). ranked_before best ci \<and> load_measured E p ci) \<and>
     do_worker_build P E best (s\<lparr>st_world := w1\<rparr>) = (q, s2) \<and>
     (\<forall>kw h. get_worker_build_kwargs P (release P) p (koji_upload_dir P) (fs_task_id P)
               (worker_openshift_of E (ci_osbs best)) (st_heap s) = (Inr kw, h) \<longrightarrow>
        (\<exists>kwargs evs. new_events w1 (st_world s2)
                         = CreateWorkerBuild (name (ci_cluster best)) kwargs # evs)) \<and>
     (q = None \<longrightarrow> select_and_start_cluster (Suc (Suc n)) P E p s = Some (None, s2)) \<and>
     (\<forall>e. q = Some e \<and> \<not> is_OsbsException e \<longrightarrow>
        select_and_start_cluster (Suc (Suc n)) P E p s = Some (Some e, s2))"
proof -
  define ctxs where "ctxs = new_retry_contexts P clusters"
  have m: "map_of ctxs (name c) = Some (new_ClusterRetryContext (plugin_max_cluster_fails P))"
    if "c \<in> set clusters" for c
    unfolding ctxs_def using that by (rule map_of_new_retry_contexts)
  have us: "usable ctxs (clock (st_world s)) c" if "c \<in> set clusters" for c
    using m[OF that] mx ck
    by (simp add: usable_def new_ClusterRetryContext_def failed_def in_retry_wait_def)
  have a: "\<forall>c\<in>set clusters. load_query_answers E p c \<and> map_of ctxs (name c) \<noteq> None"
    using H1 m by simp
  from ne obtain c0 where "c0 \<in> set clusters" by (cases clusters) auto
  with us have b: "\<exists>c\<in>set clusters. usable ctxs (clock (st_world s)) c" by blast
  from first_launch[OF a b, of n P] obtain best rest w1 q s2 where
    g: "get_clusters (Suc n) E (find_cluster_retry_delay P) p ctxs clusters (st_world s)
          = Some (Inr (best # rest), ctxs, w1)"
    and cm: "\<forall>c\<in>set clusters. usable ctxs (clock (st_world s)) c \<longrightarrow>
         (\<exists>ci\<in>set (best # rest). ci_cluster ci = c \<and> ranked_before best ci)"
    and d: "do_worker_build P E best (s\<lparr>st_world := w1\<rparr>) = (q, s2)"
    and fe: "\<forall>kw h. get_worker_build_kwargs P (release P) p (koji_upload_dir P) (fs_task_id P)
               (worker_openshift_of E (ci_osbs best)) (st_heap s) = (Inr kw, h) \<longrightarrow>
        (\<exists>kwargs evs. new_events w1 (st_world s2)
                         = CreateWorkerBuild (name (ci_cluster best)) kwargs # evs)"
    and s1: "q = None \<longrightarrow> select_loop (Suc (Suc n)) P E p clusters ctxs s = Some (None, ctxs, s2)"
    and s2: "\<forall>e. q = Some e \<and> \<not> is_OsbsException e \<longrightarrow>
        select_loop (Suc (Suc n)) P E p clusters ctxs s = Some (Some e, ctxs, s2)"
    by blast
  have sub: "ci_cluster ` set (best # rest) \<subseteq> set clusters"
    using get_clusters_members[OF g] by auto
  have sup: "set clusters \<subseteq> ci_cluster ` set (best # rest)"
    using cm us by force
  have "sorted_wrt ranked_before (best # rest)"
    using g by (rule get_clusters_SomeE) (simp add: ranking_sorted)
  then have rb: "\<forall>ci\<in>set (best # rest). ranked_before best ci"
    using ranked_before_refl by auto
  have sel: "select_and_start_cluster (Suc (Suc n)) P E p s
               = (case select_loop (Suc (Suc n)) P E p clusters ctxs s of
                    None \<Rightarrow> None | Some (r, c, s') \<Rightarrow> Some (r, s'))"
    using ne by (simp add: select_and_start_cluster_def Let_def cl[symmetric] ctxs_def)
  show ?thesis
  proof (intro exI conjI)
    show "get_clusters (Suc n) E (find_cluster_retry_delay P) p (new_retry_contexts P clusters)
         clusters (st_world s)
       = Some (Inr (best # rest), new_retry_contexts P clusters, w1)"
      using g by (simp add: ctxs_def)
    show "ci_cluster ` set (best # rest) = set clusters" using sub sup by blast
    show "\<forall>ci\<in>set (best # rest). ranked_before best ci \<and> load_measured E p ci"
      using rb get_clusters_load[OF g] by blast
    show "do_worker_build P E best (s\<lparr>st_world := w1\<rparr>) = (q, s2)" by (rule d)
    show "\<forall>kw h. get_worker_build_kwargs P (release P) p (koji_upload_dir P) (fs_task_id P)
               (worker_openshift_of E (ci_osbs best)) (st_heap s) = (Inr kw, h) \<longrightarrow>
        (\<exists>kwargs evs. new_events w1 (st_world s2)
                         = CreateWorkerBuild (name (ci_cluster best)) kwargs # evs)" by (rule fe)
    show "q = None \<longrightarrow> select_and_start_cluster (Suc (Suc n)) P E p s = Some (None, s2)"
      using s1 unfolding sel by (auto simp del: select_loop.simps)
    show "\<forall>e. q = Some e \<and> \<not> is_OsbsException e \<longrightarrow>
        select_and_start_cluster (Suc (Suc n)) P E p s = Some (Some e, s2)"
      using s2 unfolding sel by (auto simp del: select_loop.simps)
  qed
qed

subsection \<open>Monitoring the build\<close>

lemma create_build_default_eq:
  assumes "reactor_config_is_default P" and "ws_override_kwargs (st_workspace s) = None"
  shows "create_build P E ci s
           = (let kw = adjusted_kwargs (release P) (ci_platform ci) (koji_upload_dir P)
                         (fs_task_id P) (heap_get (st_heap s) (build_kwargs P))
              in (osbs_create_worker_build E (ci_osbs ci) kw (length (trace (st_world s))),
                  s\<lparr>st_heap := st_heap s @ [kw],
                    st_world := emit E (CreateWorkerBuild (ci_osbs ci) kw) (st_world s)\<rparr>))"
  using assms
  by (simp add: create_build_def get_worker_build_kwargs_default Let_def heap_get_last)

lemma watch_and_wait_failed:
  assumes "watch_and_wait E bi w = (Some e, bi', w')"
  shows "bi' = bi" and "later w w'" and "filter is_cancel (new_events w w') = []"
proof -
  obtain r1 w1 where wl: "watch_logs E bi w = (r1, w1)" by force
  have l1: "later w w1" using watch_logs_world(1)[OF wl] .
  have c1: "filter is_cancel (new_events w w1) = []"
    using wl by (auto simp: watch_logs_def new_events_emit split: option.splits)
  show "bi' = bi" and "later w w'" and "filter is_cancel (new_events w w') = []"
  proof (atomize (full), cases r1)
    case (Some e1)
    with assms wl l1 c1 show "bi' = bi \<and> later w w' \<and> filter is_cancel (new_events w w') = []"
      by (auto simp: watch_and_wait_def)
  next
    case None
    with assms wl have wf: "wait_to_finish E bi w1 = (Some e, bi', w')"
      by (simp add: watch_and_wait_def)
    have l2: "later w1 w'" using wait_to_finish_world(1)[OF wf] .
    have c2: "filter is_cancel (new_events w1 w') = []" and b: "bi' = bi"
      using wf by (auto simp: wait_to_finish_def Let_def new_events_emit split: option.splits sum.splits)
    show "bi' = bi \<and> later w w' \<and> filter is_cancel (new_events w w') = []"
      using b later_trans[OF l1 l2] c1 c2 by (simp add: new_events_append[OF l1 l2])
  qed
qed

lemma cancel_build_events:
  assumes "cancel_build E bi w = (c, w')" and "wb_build bi = Some b" and "wb_osbs bi = Some osbs"
  shows "new_events w w' = (if is_finished b then [] else [CancelBuild osbs (build_name b)])"
    and "c = (if is_finished b then None
              else osbs_cancel_build E osbs (build_name b) (length (trace w)))"
  using assms
  by (auto simp: cancel_build_def new_events_emit wb_name_def split: if_splits)

lemma do_worker_build_monitor_failed:
  assumes cb: "create_build P E ci s = (Inr b, s1)"
    and ww: "watch_and_wait E (new_WorkerBuildInfo (Some b) ci) (st_world s1) = (Some e, bi, w)"
  shows "do_worker_build P E ci s
           = (case cancel_build E (monitor_failed_info b ci e) w of
                (c, w') \<Rightarrow>
                  (case c of None \<Rightarrow> None
                   | Some ce \<Rightarrow> if is_OsbsException ce then None else Some ce,
                   s1\<lparr>st_world := w',
                      worker_builds := worker_builds s1 @ [monitor_failed_info b ci e]\<rparr>))"
proof -
  have bi: "bi = new_WorkerBuildInfo (Some b) ci" using watch_and_wait_failed(1)[OF ww] .
  show ?thesis
    using cb ww unfolding bi
    by (simp add: do_worker_build_def monitor_build_def monitor_failed_info_def Let_def
          split: prod.splits)
qed

lemma get_fail_reason_general:
  assumes "get_fail_reason E bi w = Some (Inr fr, w')" and "wb_build bi = Some b"
  shows "map_of fr ''general'' = map_of (base_reason bi) ''general'' \<or>
         (\<exists>md errs v. json_loads E (plugins_metadata b) = Inr (PDict md) \<and>
            map_of md ''errors'' = Some (PDict errs) \<and> map_of (rev errs) ''general'' = Some v \<and>
            map_of fr ''general'' = Some v)"
proof (cases "json_loads E (plugins_metadata b)")
  case (Inl e)
  with assms show ?thesis by (simp add: get_fail_reason_undecodable)
next
  case (Inr metadata)
  note g = get_fail_reason_decoded[OF assms(2) Inr, of w]
  show ?thesis
  proof (cases "py_getitem metadata ''errors''")
    case (Inr errors)
    then obtain md where md: "metadata = PDict md" "map_of md ''errors'' = Some errors"
      by (cases metadata) (auto split: option.splits)
    from assms(1) g Inr obtain errs where errs: "errors = PDict errs" "fr = dict_update (base_reason bi) errs"
      by (cases errors) (auto split: option.splits)
    show ?thesis
    proof (cases "map_of (rev errs) ''general''")
      case None
      then show ?thesis unfolding errs by (simp add: map_of_dict_update_key)
    next
      case (Some v)
      with \<open>json_loads E (plugins_metadata b) = Inr metadata\<close> md errs show ?thesis
        by (auto simp: map_of_dict_update_key)
    qed
  next
    case (Inl e)
    with assms(1) g obtain k where k: "e = KeyError k" by (cases e) auto
    from assms(1) g Inl k have "pod_fail_reason E bi b (base_reason bi) w = (Inr fr, w')" by simp
    then have "fr = base_reason bi \<or> (\<exists>v. fr = dict_set (base_reason bi) ''pod'' v)"
      by (auto simp: pod_fail_reason_def Let_def split: option.splits sum.splits if_splits)
    then show ?thesis by (auto simp: map_of_dict_set)
  qed
qed

lemma create_build_no_cancel:
  assumes "create_build P E ci s = (r, s1)"
  shows "filter is_cancel (new_events (st_world s) (st_world s1)) = []"
  using assms
  by (auto simp: create_build_def Let_def new_events_emit split: prod.splits sum.splits option.splits)

lemma monitor_failed_launch:
  assumes cb: "create_build P E ci s = (Inr b, s1)"
    and ww: "watch_and_wait E (new_WorkerBuildInfo (Some b) ci) (st_world s1) = (Some e, bi, w)"
    and dw: "do_worker_build P E ci s = (r, s')"
  shows "worker_builds s' = worker_builds s @ [monitor_failed_info b ci e]"
    and "filter is_cancel (new_events (st_world s) (st_world s'))
           = (if is_finished b then [] else [CancelBuild (ci_osbs ci) (build_name b)])"
    and "r = (if is_finished b then None
              else case osbs_cancel_build E (ci_osbs ci) (build_name b) (length (trace w)) of
                     None \<Rightarrow> None
                   | Some ce \<Rightarrow> if is_OsbsException ce then None else Some ce)"
proof -
  define fi where "fi = monitor_failed_info b ci e"
  obtain c w' where cn: "cancel_build E fi w = (c, w')" by force
  have fb: "wb_build fi = Some b" "wb_osbs fi = Some (ci_osbs ci)"
    by (simp_all add: fi_def monitor_failed_info_def new_WorkerBuildInfo_def)
  note ce = cancel_build_events[OF cn fb]
  from do_worker_build_monitor_failed[OF cb ww] dw cn
  have r: "r = (case c of None \<Rightarrow> None | Some ce \<Rightarrow> if is_OsbsException ce then None else Some ce)"
    and s': "s' = s1\<lparr>st_world := w', worker_builds := worker_builds s1 @ [fi]\<rparr>"
    by (simp_all add: fi_def)
  show "worker_builds s' = worker_builds s @ [monitor_failed_info b ci e]"
    using s' create_build_world(3)[OF cb] by (simp add: fi_def)
  have l1: "later (st_world s) (st_world s1)" using create_build_world(1)[OF cb] .
  have l2: "later (st_world s1) w" using watch_and_wait_failed(2)[OF ww] .
  have l3: "later w w'" using cancel_build_world(1)[OF cn] .
  have "new_events (st_world s) w'
          = new_events (st_world s) (st_world s1) @ new_events (st_world s1) w @ new_events w w'"
    using new_events_append[OF l1 later_trans[OF l2 l3]] new_events_append[OF l2 l3] by simp
  then show "filter is_cancel (new_events (st_world s) (st_world s'))
           = (if is_finished b then [] else [CancelBuild (ci_osbs ci) (build_name b)])"
    using create_build_no_cancel[OF cb] watch_and_wait_failed(3)[OF ww] ce(1)
    by (simp add: s')
  show "r = (if is_finished b then None
              else case osbs_cancel_build E (ci_osbs ci) (build_name b) (length (trace w)) of
                     None \<Rightarrow> None
                   | Some ce \<Rightarrow> if is_OsbsException ce then None else Some ce)"
    unfolding r ce(2) by simp
qed

lemma start_on_clusters_settled:
  assumes "do_worker_build P E ci s = (r, s')" and "\<not> (\<exists>e. r = Some e \<and> is_OsbsException e)"
    and "map_of ctxs (name (ci_cluster ci)) = Some ctx"
  shows "start_on_clusters P E (ci # rest) ctxs s
           = (case r of None \<Rightarrow> Inr True | Some ce \<Rightarrow> Inl ce, ctxs, s')"
  using assms by (cases r) (auto simp: start_on_cluster_def)

subsection \<open>The keyword arguments of the build\<close>

lemma heap_extends_upd:
  "heap_extends h h' \<Longrightarrow> length h \<le> a \<Longrightarrow> heap_extends h (heap_upd h' a f)"
  by (simp add: heap_extends_def heap_upd_def)

lemma length_heap_upd: "length (heap_upd h a f) = length h"
  by (simp add: heap_upd_def)

lemma heap_get_heap_upd:
  "heap_get (heap_upd h a f) b
     = (if b = a \<and> a < length h then f (heap_get h a) else heap_get h b)"
  by (auto simp: heap_get_def heap_upd_def)

lemma map_of_rev_distinct: "distinct (map fst xs) \<Longrightarrow> map_of (rev xs) = map_of xs"
  by (rule map_of_inject_set[THEN iffD2]) (simp_all add: rev_map[symmetric])

lemma dict_update_spec:
  assumes "distinct (map fst glob)" and "distinct (map fst plat)"
  shows "map_of (dict_update (dict_update base glob) plat) k = spec_build_parameters base glob plat k"
  using assms
  by (simp add: map_of_dict_update_key map_of_rev_distinct spec_build_parameters_def
        split: option.splits)

lemma override_for_live:
  assumes "live_overrides s" and "ws_override_kwargs (st_workspace s) = Some ov"
    and "map_of ov k = Some a"
  shows "a < length (st_heap s)"
proof -
  from assms(3) have "(k, a) \<in> set ov" by (rule map_of_SomeD)
  with assms(1,2) show ?thesis by (auto simp: live_overrides_def list_all_iff)
qed

lemma create_build_merge:
  assumes cb: "create_build P E ci s = (r, s')" and lv: "live_overrides s"
    and g: "get_worker_build_kwargs P (release P) (ci_platform ci) (koji_upload_dir P)
              (fs_task_id P) (worker_openshift_of E (ci_osbs ci)) (st_heap s) = (Inr kw, h)"
  defines "submitted \<equiv> dict_update (dict_update (heap_get h kw) (override_for s None))
                           (override_for s (Some (ci_platform ci)))"
  shows "new_events (st_world s) (st_world s') = [CreateWorkerBuild (ci_osbs ci) submitted]"
    and "r = osbs_create_worker_build E (ci_osbs ci) submitted (length (trace (st_world s)))"
    and "heap_extends (st_heap s) (st_heap s')"
proof -
  note gh = get_worker_build_kwargs_heap[OF g]
  have kw: "kw = length (st_heap s)" using gh(3) by simp
  have kl: "kw < length h" using gh(2) kw by simp
  define ov where "ov = (case ws_override_kwargs (st_workspace s) of None \<Rightarrow> [] | Some ov \<Rightarrow> ov)"
  have live: "a < length (st_heap s)" if "map_of ov k = Some a" for k a
    using that lv by (auto simp: ov_def dest: override_for_live split: option.splits)
  have of: "override_for s k = (case map_of ov k of None \<Rightarrow> [] | Some a \<Rightarrow> heap_get (st_heap s) a)"
    for k by (simp add: override_for_def ov_def split: option.splits)
  define h1 where "h1 = (case map_of ov None of
                           None \<Rightarrow> h
                         | Some a \<Rightarrow> heap_upd h kw (\<lambda>d. dict_update d (heap_get h a)))"
  define h2 where "h2 = (case map_of ov (Some (ci_platform ci)) of
                           None \<Rightarrow> h1
                         | Some a \<Rightarrow> heap_upd h1 kw (\<lambda>d. dict_update d (heap_get h1 a)))"
  have e1: "heap_extends (st_heap s) h1"
    unfolding h1_def using gh(1) kw by (auto simp: heap_extends_upd split: option.splits)
  have l1: "length h1 = length h" by (simp add: h1_def length_heap_upd split: option.splits)
  have g1: "heap_get h1 kw = dict_update (heap_get h kw) (override_for s None)"
  proof (cases "map_of ov None")
    case None
    then show ?thesis by (simp add: h1_def of)
  next
    case (Some a)
    have "heap_get h a = heap_get (st_heap s) a" using heap_extends_get[OF gh(1) live[OF Some]] .
    with Some kl show ?thesis by (simp add: h1_def of heap_get_heap_upd)
  qed
  have e2: "heap_extends (st_heap s) h2"
    unfolding h2_def using e1 kw by (auto simp: heap_extends_upd split: option.splits)
  have g2: "heap_get h2 kw = submitted"
  proof (cases "map_of ov (Some (ci_platform ci))")
    case None
    then show ?thesis by (simp add: h2_def of g1 submitted_def)
  next
    case (Some a)
    have "heap_get h1 a = heap_get (st_heap s) a" using heap_extends_get[OF e1 live[OF Some]] .
    with Some kl l1 show ?thesis by (simp add: h2_def of g1 heap_get_heap_upd submitted_def)
  qed
  have "create_build P E ci s
          = (osbs_create_worker_build E (ci_osbs ci) (heap_get h2 kw) (length (trace (st_world s))),
             s\<lparr>st_heap := h2,
               st_world := emit E (CreateWorkerBuild (ci_osbs ci) (heap_get h2 kw)) (st_world s)\<rparr>)"
    unfolding create_build_def h2_def h1_def ov_def using g
    by (simp add: Let_def split: option.splits)
  with cb have r: "r = osbs_create_worker_build E (ci_osbs ci) (heap_get h2 kw)
                           (length (trace (st_world s)))"
    and s': "s' = s\<lparr>st_heap := h2,
                     st_world := emit E (CreateWorkerBuild (ci_osbs ci) (heap_get h2 kw))
                                   (st_world s)\<rparr>"
    by simp_all
  show "new_events (st_world s) (st_world s') = [CreateWorkerBuild (ci_osbs ci) submitted]"
    by (simp add: s' g2 new_events_emit)
  show "r = osbs_create_worker_build E (ci_osbs ci) submitted (length (trace (st_world s)))"
    by (simp add: r g2)
  show "heap_extends (st_heap s) (st_heap s')" by (simp add: s' e2)
qed

lemma create_build_heap:
  assumes "create_build P E ci s = (r, s')"
  shows "heap_extends (st_heap s) (st_heap s')"
proof -
  obtain g h where g: "get_worker_build_kwargs P (release P) (ci_platform ci) (koji_upload_dir P)
              (fs_task_id P) (worker_openshift_of E (ci_osbs ci)) (st_heap s) = (g, h)"
    by force
  note gh = get_worker_build_kwargs_heap[OF g]
  show ?thesis
  proof (cases g)
    case (Inl e)
    with g assms gh(1) show ?thesis by (auto simp: create_build_kwargs_error)
  next
    case (Inr kw)
    with gh(3) have kw: "length (st_heap s) \<le> kw" by simp
    from assms g Inr show ?thesis
      by (auto simp: create_build_def Let_def gh(1) kw heap_extends_upd split: option.splits)
  qed
qed

lemma do_worker_build_heap:
  assumes "do_worker_build P E ci s = (r, s')"
  shows "heap_extends (st_heap s) (st_heap s')"
proof -
  obtain q s1 where cb: "create_build P E ci s = (q, s1)" by force
  note h1 = create_build_heap[OF cb]
  show ?thesis
  proof (cases q)
    case (Inl e)
    with assms cb h1 show ?thesis by (auto simp: do_worker_build_def split: if_splits)
  next
    case (Inr b)
    with assms cb have "monitor_build E (length (worker_builds s1))
          (s1\<lparr>worker_builds := worker_builds s1 @ [new_WorkerBuildInfo (Some b) ci]\<rparr>) = (r, s')"
      by (simp add: do_worker_build_def)
    from monitor_build_world(4)[OF this] h1 show ?thesis by simp
  qed
qed

lemma start_on_cluster_heap:
  assumes "start_on_cluster P E ci ctxs s = (r, ctxs', s')"
  shows "heap_extends (st_heap s) (st_heap s')"
proof (cases "map_of ctxs (name (ci_cluster ci))")
  case None
  with assms show ?thesis by (auto simp: start_on_cluster_def heap_extends_refl)
next
  case (Some ctx)
  obtain q s1 where d: "do_worker_build P E ci s = (q, s1)" by force
  with assms Some have "s' = s1"
    by (auto simp: start_on_cluster_def split: option.splits if_splits)
  with do_worker_build_heap[OF d] show ?thesis by simp
qed

lemma start_on_clusters_heap:
  "start_on_clusters P E infos ctxs s = (r, ctxs', s') \<Longrightarrow> heap_extends (st_heap s) (st_heap s')"
proof (induction infos arbitrary: ctxs s)
  case Nil
  then show ?case by (simp add: heap_extends_refl)
next
  case (Cons ci infos)
  obtain r1 ctxs1 s1 where st: "start_on_cluster P E ci ctxs s = (r1, ctxs1, s1)"
    by (metis prod_cases3)
  note h1 = start_on_cluster_heap[OF st]
  show ?case
  proof (cases "r1 = Inr False")
    case False
    with Cons.prems st have "s' = s1" by (auto split: sum.splits bool.splits)
    with h1 show ?thesis by simp
  next
    case True
    with Cons.prems st have "start_on_clusters P E infos ctxs1 s1 = (r, ctxs', s')" by simp
    from heap_extends_trans[OF h1 Cons.IH[OF this]] show ?thesis .
  qed
qed

lemma select_loop_heap:
  "select_loop n P E p clusters ctxs s = Some (r, ctxs', s') \<Longrightarrow>
     heap_extends (st_heap s) (st_heap s')"
proof (induction n arbitrary: ctxs s)
  case 0
  then show ?case by simp
next
  case (Suc n)
  from Suc.prems show ?case
  proof (cases rule: select_loop_SucE)
    case (exhausted m ctxs1 w1)
    then show ?thesis by (simp add: heap_extends_refl)
  next
    case (select_fail ex ctxs1 w1)
    then show ?thesis by (simp add: heap_extends_refl)
  next
    case (start_fail ret ctxs1 w1 e ctxs2 s2)
    from start_on_clusters_heap[OF start_fail(2)] start_fail(3) show ?thesis by simp
  next
    case (started ret ctxs1 w1 ctxs2 s2)
    from start_on_clusters_heap[OF started(2)] started(3) show ?thesis by simp
  next
    case (again ret ctxs1 w1 ctxs2 s2)
    from heap_extends_trans[OF start_on_clusters_heap[OF again(2)] Suc.IH[OF again(3)]]
    show ?thesis by simp
  qed
qed

text \<open>What one platform's task leaves of the state it found.\<close>

lemma select_and_start_cluster_inv_all:
  assumes "select_and_start_cluster fuel P E p s = Some (r, s')"
  shows "heap_extends (st_heap s) (st_heap s') \<and> st_workspace s' = st_workspace s \<and>
      later (st_world s) (st_world s') \<and>
      (r = None \<longrightarrow> (\<exists>bi. worker_builds s' = worker_builds s @ [bi] \<and> wb_platform bi = p)) \<and>
      (get_enabled_clusters_for_platform P p = [] \<longrightarrow>
         r = Some (UnknownPlatformException (''No clusters found for platform '' @ p @ ''!'')) \<and>
         s' = s)"
proof (cases "get_enabled_clusters_for_platform P p = []")
  case True
  with assms show ?thesis
    by (auto simp: select_and_start_cluster_def heap_extends_refl)
next
  case False
  with assms obtain ctxs' where
    sl: "select_loop fuel P E p (get_enabled_clusters_for_platform P p)
           (new_retry_contexts P (get_enabled_clusters_for_platform P p)) s = Some (r, ctxs', s')"
    by (auto simp: select_and_start_cluster_def Let_def split: option.splits)
  from select_loop_heap[OF sl] select_loop_inv[OF sl] False
  show ?thesis by blast
qed

lemma select_and_start_cluster_inv:
  assumes "select_and_start_cluster fuel P E p s = Some (r, s')"
  shows "heap_extends (st_heap s) (st_heap s')" and "st_workspace s' = st_workspace s"
    and "later (st_world s) (st_world s')"
    and "r = None \<longrightarrow> (\<exists>bi. worker_builds s' = worker_builds s @ [bi] \<and> wb_platform bi = p)"
    and "get_enabled_clusters_for_platform P p = [] \<longrightarrow>
           r = Some (UnknownPlatformException (''No clusters found for platform '' @ p @ ''!'')) \<and>
           s' = s"
  using select_and_start_cluster_inv_all[OF assms] by simp_all

lemma run_tasks_inv:
  "run_tasks fuel P E ps s = Some (r, s') \<Longrightarrow>
     heap_extends (st_heap s) (st_heap s') \<and> st_workspace s' = st_workspace s \<and>
     later (st_world s) (st_world s') \<and>
     (r = None \<longrightarrow> map wb_platform (worker_builds s') = map wb_platform (worker_builds s) @ ps) \<and>
     ((\<exists>p\<in>set ps. get_enabled_clusters_for_platform P p = []) \<longrightarrow> r \<noteq> None)"
proof (induction ps arbitrary: s r)
  case Nil
  then show ?case by (simp add: heap_extends_refl)
next
  case (Cons p ps)
  from Cons.prems obtain r1 s1 r2 where
    t: "select_and_start_cluster fuel P E p s = Some (r1, s1)"
    and rest: "run_tasks fuel P E ps s1 = Some (r2, s')"
    and r: "r = (case r1 of Some e \<Rightarrow> Some e | None \<Rightarrow> r2)"
    by (auto split: option.splits)
  note i = select_and_start_cluster_inv[OF t]
  note ih = Cons.IH[OF rest]
  have "heap_extends (st_heap s) (st_heap s')" using i(1) ih by (blast intro: heap_extends_trans)
  moreover have "st_workspace s' = st_workspace s" using i(2) ih by simp
  moreover have "later (st_world s) (st_world s')" using i(3) ih by (blast intro: later_trans)
  moreover have "r = None \<longrightarrow>
      map wb_platform (worker_builds s') = map wb_platform (worker_builds s) @ p # ps"
  proof
    assume "r = None"
    with r have n: "r1 = None" "r2 = None" by (auto split: option.splits)
    from i(4) n(1) obtain bi where "worker_builds s1 = worker_builds s @ [bi]" "wb_platform bi = p"
      by blast
    with ih n(2) show "map wb_platform (worker_builds s') = map wb_platform (worker_builds s) @ p # ps"
      by simp
  qed
  moreover have "(\<exists>q\<in>set (p # ps). get_enabled_clusters_for_platform P q = []) \<longrightarrow> r \<noteq> None"
    using i(5) ih r by (auto split: option.splits)
  ultimately show ?case by blast
qed

subsection \<open>The dispatch\<close>

lemma cancel_all_later: "cancel_all E bs w = (r, w') \<Longrightarrow> later w w'"
proof (induction bs arbitrary: w r w')
  case Nil
  then show ?case by simp
next
  case (Cons bi bs)
  obtain r1 w1 where c: "cancel_build E bi w = (r1, w1)" by force
  obtain r2 w2 where a: "cancel_all E bs w1 = (r2, w2)" by force
  from Cons.prems c a have "w' = w2" by simp
  with cancel_build_world(1)[OF c] Cons.IH[OF a] show ?case by (blast intro: later_trans)
qed

text \<open>
  \<^verbatim>\<open>run\<close> when every task has returned: the failure reasons are collected and, unless
  \<^verbatim>\<open>get_fail_reason\<close> raises, the build information is published.
\<close>

lemma run_settled:
  assumes r: "run fuel P E s = Some (r, s')"
    and t: "run_tasks fuel P E (platforms P) s = Some (None, s1)" and ne: "platforms P \<noteq> []"
  shows "\<exists>q w. fail_reasons_of E (worker_builds s1) [] (st_world s1) = Some (q, w) \<and>
           s' = (case q of
                   Inl e \<Rightarrow> s1\<lparr>st_world := w\<rparr>
                 | Inr frs \<Rightarrow>
                     s1\<lparr>st_world := w,
                        st_workspace := (st_workspace s1)
                          \<lparr>ws_koji_upload_dir := Some (koji_upload_dir P),
                           ws_build_info := Some (build_info_by_platform (worker_builds s1))\<rparr>\<rparr>) \<and>
           r = (case q of
                  Inl e \<Rightarrow> Inl e
                | Inr frs \<Rightarrow>
                    if frs \<noteq> []
                    then Inl (PluginFailedException
                                (json_dumps E (PDict (map (\<lambda>pr. (fst pr, PDict (snd pr))) frs))))
                    else Inr ())"
  using r t ne
  by (auto simp: run_def Let_def split: option.splits sum.splits prod.splits if_splits)

lemma run_raised:
  assumes r: "run fuel P E s = Some (r, s')"
    and t: "run_tasks fuel P E (platforms P) s = Some (Some e, s1)" and ne: "platforms P \<noteq> []"
  shows "\<exists>ce w. cancel_all E (worker_builds s1) (st_world s1) = (ce, w) \<and>
           s' = s1\<lparr>st_world := w\<rparr> \<and> r = Inl (case ce of Some c \<Rightarrow> c | None \<Rightarrow> e)"
  using r t ne
  by (auto simp: run_def Let_def split: option.splits sum.splits prod.splits if_splits)

lemma run_returned:
  assumes "run fuel P E s = Some (Inr (), s')"
  shows "platforms P \<noteq> [] \<and>
         (\<exists>s1 w. run_tasks fuel P E (platforms P) s = Some (None, s1) \<and>
                 fail_reasons_of E (worker_builds s1) [] (st_world s1) = Some (Inr [], w))"
  using assms
  by (auto simp: run_def Let_def split: option.splits sum.splits prod.splits if_splits)

lemma run_heap:
  assumes "run fuel P E s = Some (r, s')"
  shows "heap_extends (st_heap s) (st_heap s')"
    and "ws_override_kwargs (st_workspace s') = ws_override_kwargs (st_workspace s)"
proof -
  have "heap_extends (st_heap s) (st_heap s') \<and>
        ws_override_kwargs (st_workspace s') = ws_override_kwargs (st_workspace s)"
  proof (cases "platforms P = []")
    case True
    with assms show ?thesis by (auto simp: run_def heap_extends_refl)
  next
    case False
    with assms obtain rt s1 where t: "run_tasks fuel P E (platforms P) s = Some (rt, s1)"
      by (auto simp: run_def split: option.splits)
    note i = run_tasks_inv[OF t]
    show ?thesis
    proof (cases rt)
      case None
      from run_settled[OF assms t[unfolded None] False]
      obtain q :: "exn + (string \<times> pydict) list" and w where
        "s' = (case q of
                   Inl e \<Rightarrow> s1\<lparr>st_world := w\<rparr>
                 | Inr frs \<Rightarrow>
                     s1\<lparr>st_world := w,
                        st_workspace := (st_workspace s1)
                          \<lparr>ws_koji_upload_dir := Some (koji_upload_dir P),
                           ws_build_info := Some (build_info_by_platform (worker_builds s1))\<rparr>\<rparr>)"
        by blast
      with i show ?thesis by (cases q) auto
    next
      case (Some e)
      from run_raised[OF assms t[unfolded Some] False] obtain w where "s' = s1\<lparr>st_world := w\<rparr>"
        by blast
      with i show ?thesis by auto
    qed
  qed
  then show "heap_extends (st_heap s) (st_heap s')"
    and "ws_override_kwargs (st_workspace s') = ws_override_kwargs (st_workspace s)"
    by simp_all
qed

lemma live_overrides_extends:
  assumes "live_overrides s" and "heap_extends (st_heap s) (st_heap s')"
    and "ws_override_kwargs (st_workspace s') = ws_override_kwargs (st_workspace s)"
  shows "live_overrides s'" and "override_for s' k = override_for s k"
proof -
  have le: "length (st_heap s) \<le> length (st_heap s')" using assms(2) by (simp add: heap_extends_def)
  show "live_overrides s'"
    using assms(1,3) le by (auto simp: live_overrides_def list_all_iff split: option.splits)
  show "override_for s' k = override_for s k"
  proof (cases "ws_override_kwargs (st_workspace s)")
    case None
    with assms(3) show ?thesis by (simp add: override_for_def)
  next
    case (Some ov)
    show ?thesis
    proof (cases "map_of ov k")
      case None
      with Some assms(3) show ?thesis by (simp add: override_for_def)
    next
      case (Some a)
      from override_for_live[OF assms(1) \<open>ws_override_kwargs (st_workspace s) = Some ov\<close> Some]
      have "heap_get (st_heap s') a = heap_get (st_heap s) a"
        using assms(2) by (simp add: heap_extends_get)
      with Some \<open>ws_override_kwargs (st_workspace s) = Some ov\<close> assms(3) show ?thesis
        by (simp add: override_for_def)
    qed
  qed
qed

section \<open>Ranking of the clusters and the first launch (claim C1)\<close>

text \<open>
  Claim C1.  Whenever \<^verbatim>\<open>get_clusters\<close> returns a ranking, it is ordered by computed load
  ascending and, among equal loads, by configured priority ascending, so that its first
  entry is ranked before every other; each load is the quotient of a number of active
  builds the cluster reported by its \<^verbatim>\<open>max_concurrent_builds\<close>; no entry is dead and, the
  names being distinct, none is in retry-wait; and every candidate that was usable (not
  dead, not in retry-wait) at the call and whose load queries are answered is an entry.

  When the load queries of all candidates of the platform are answered and some candidate
  is usable, \<^verbatim>\<open>get_clusters\<close> does return a ranking, at the first round and with the retry
  contexts unchanged, and the first round of \<^verbatim>\<open>select_and_start_cluster\<close> calls
  \<^verbatim>\<open>do_worker_build\<close> on its first entry \<open>best\<close>, which is ranked before the entry of
  every usable candidate: the request to create the build goes to that cluster, first of
  all launch events, and unless the cluster refuses with \<^verbatim>\<open>OsbsException\<close> the task ends
  with that launch.  If it refuses, its context records the failure and the loop goes on
  with the rest of the ranking.

  For the task itself, which starts from fresh contexts (at a time not before the epoch,
  and with a positive \<^verbatim>\<open>max_cluster_fails\<close>), every configured cluster is usable: the
  ranking holds all of them and the first launch goes to the one ranked first.
\<close>

theorem lowest_load_cluster_launched_first:
  "(get_clusters fuel E d p ctxs clusters w = Some (Inr ret, ctxs_g, w_g) \<longrightarrow>
      sorted_wrt ranked_before ret \<and>
      (\<forall>ci\<in>set ret. ranked_before (hd ret) ci) \<and>
      (\<forall>ci\<in>set ret. ci_cluster ci \<in> set clusters \<and> \<not> dead ctxs (name (ci_cluster ci)) \<and>
                     load_measured E p ci) \<and>
      (distinct (map name clusters) \<longrightarrow>
         (\<forall>ci\<in>set ret. usable ctxs_g (clock w_g) (ci_cluster ci))) \<and>
      (\<forall>c\<in>set clusters. usable ctxs (clock w) c \<and> answers E p c \<longrightarrow> c \<in> ci_cluster ` set ret)) \<and>
   ((\<forall>c\<in>set clusters. load_query_answers E p c \<and> map_of ctxs (name c) \<noteq> None) \<and>
    (\<exists>c\<in>set clusters. usable ctxs (clock (st_world s)) c) \<longrightarrow>
      (\<exists>best rest w1 q s2.
         get_clusters (Suc n) E (find_cluster_retry_delay P) p ctxs clusters (st_world s)
           = Some (Inr (best # rest), ctxs, w1) \<and>
         (\<forall>c\<in>set clusters. usable ctxs (clock (st_world s)) c \<longrightarrow>
             (\<exists>ci\<in>set (best # rest). ci_cluster ci = c \<and> ranked_before best ci)) \<and>
         do_worker_build P E best (s\<lparr>st_world := w1\<rparr>) = (q, s2) \<and>
         (\<forall>kw h. get_worker_build_kwargs P (release P) p (koji_upload_dir P) (fs_task_id P)
                   (worker_openshift_of E (ci_osbs best)) (st_heap s) = (Inr kw, h) \<longrightarrow>
            (\<exists>kwargs evs. new_events w1 (st_world s2)
                             = CreateWorkerBuild (name (ci_cluster best)) kwargs # evs)) \<and>
         (q = None \<longrightarrow> select_loop (Suc (Suc n)) P E p clusters ctxs s = Some (None, ctxs, s2)) \<and>
         (\<forall>e. q = Some e \<and> \<not> is_OsbsException e \<longrightarrow>
            select_loop (Suc (Suc n)) P E p clusters ctxs s = Some (Some e, ctxs, s2)) \<and>
         (\<forall>e. q = Some e \<and> is_OsbsException e \<longrightarrow>
            (\<exists>ctx. map_of ctxs (name (ci_cluster best)) = Some ctx \<and>
               select_loop (Suc (Suc n)) P E p clusters ctxs s
                 = (case start_on_clusters P E rest
                           (dict_set ctxs (name (ci_cluster best))
                              (try_again_later (clock (st_world s2)) (failure_retry_delay P) ctx))
                           s2 of
                      (Inl e', ctxs2, s3) \<Rightarrow> Some (Some e', ctxs2, s3)
                    | (Inr True, ctxs2, s3) \<Rightarrow> Some (None, ctxs2, s3)
                    | (Inr False, ctxs2, s3) \<Rightarrow> select_loop (Suc n) P E p clusters ctxs2 s3))))) \<and>
   (clusters = get_enabled_clusters_for_platform P p \<and> clusters \<noteq> [] \<and>
    (\<forall>c\<in>set clusters. load_query_answers E p c) \<and>
    0 < plugin_max_cluster_fails P \<and> 0 \<le> clock (st_world s) \<longrightarrow>
      (\<exists>best rest w1 q s2.
         get_clusters (Suc n) E (find_cluster_retry_delay P) p (new_retry_contexts P clusters)
             clusters (st_world s)
           = Some (Inr (best # rest), new_retry_contexts P clusters, w1) \<and>
         ci_cluster ` set (best # rest) = set clusters \<and>
         (\<forall>ci\<in>set (best # rest). ranked_before best ci \<and> load_measured E p ci) \<and>
         do_worker_build P E best (s\<lparr>st_world := w1\<rparr>) = (q, s2) \<and>
         (\<forall>kw h. get_worker_build_kwargs P (release P) p (koji_upload_dir P) (fs_task_id P)
                   (worker_openshift_of E (ci_osbs best)) (st_heap s) = (Inr kw, h) \<longrightarrow>
            (\<exists>kwargs evs. new_events w1 (st_world s2)
                             = CreateWorkerBuild (name (ci_cluster best)) kwargs # evs)) \<and>
         (q = None \<longrightarrow> select_and_start_cluster (Suc (Suc n)) P E p s = Some (None, s2)) \<and>
         (\<forall>e. q = Some e \<and> \<not> is_OsbsException e \<longrightarrow>
            select_and_start_cluster (Suc (Suc n)) P E p s = Some (Some e, s2))))"
proof (intro conjI impI)
  assume g: "get_clusters fuel E d p ctxs clusters w = Some (Inr ret, ctxs_g, w_g)"
  from g obtain pci where
    "get_clusters_loop fuel E p d (remdups clusters) ctxs [] w = Some (Inr pci, ctxs_g, w_g)"
    and ret: "ret = sort_key ci_load (sort_key (\<lambda>c. priority (ci_cluster c)) (map snd pci))"
    by (rule get_clusters_SomeE)
  show s: "sorted_wrt ranked_before ret" unfolding ret by (rule ranking_sorted)
  show "\<forall>ci\<in>set ret. ranked_before (hd ret) ci"
    using sorted_wrt_hd[OF s] ranked_before_refl by blast
  show "\<forall>ci\<in>set ret. ci_cluster ci \<in> set clusters \<and> \<not> dead ctxs (name (ci_cluster ci)) \<and>
                     load_measured E p ci"
    using get_clusters_members[OF g] get_clusters_load[OF g] by blast
  show "\<forall>c\<in>set clusters. usable ctxs (clock w) c \<and> answers E p c \<longrightarrow> c \<in> ci_cluster ` set ret"
    using get_clusters_complete[OF g] by blast
  assume "distinct (map name clusters)"
  with g show "\<forall>ci\<in>set ret. usable ctxs_g (clock w_g) (ci_cluster ci)"
    by (rule get_clusters_usable)
next
  assume a: "(\<forall>c\<in>set clusters. load_query_answers E p c \<and> map_of ctxs (name c) \<noteq> None) \<and>
    (\<exists>c\<in>set clusters. usable ctxs (clock (st_world s)) c)"
  show "\<exists>best rest w1 q s2.
         get_clusters (Suc n) E (find_cluster_retry_delay P) p ctxs clusters (st_world s)
           = Some (Inr (best # rest), ctxs, w1) \<and>
         (\<forall>c\<in>set clusters. usable ctxs (clock (st_world s)) c \<longrightarrow>
             (\<exists>ci\<in>set (best # rest). ci_cluster ci = c \<and> ranked_before best ci)) \<and>
         do_worker_build P E best (s\<lparr>st_world := w1\<rparr>) = (q, s2) \<and>
         (\<forall>kw h. get_worker_build_kwargs P (release P) p (koji_upload_dir P) (fs_task_id P)
                   (worker_openshift_of E (ci_osbs best)) (st_heap s) = (Inr kw, h) \<longrightarrow>
            (\<exists>kwargs evs. new_events w1 (st_world s2)
                             = CreateWorkerBuild (name (ci_cluster best)) kwargs # evs)) \<and>
         (q = None \<longrightarrow> select_loop (Suc (Suc n)) P E p clusters ctxs s = Some (None, ctxs, s2)) \<and>
         (\<forall>e. q = Some e \<and> \<not> is_OsbsException e \<longrightarrow>
            select_loop (Suc (Suc n)) P E p clusters ctxs s = Some (Some e, ctxs, s2)) \<and>
         (\<forall>e. q = Some e \<and> is_OsbsException e \<longrightarrow>
            (\<exists>ctx. map_of ctxs (name (ci_cluster best)) = Some ctx \<and>
               select_loop (Suc (Suc n)) P E p clusters ctxs s
                 = (case start_on_clusters P E rest
                           (dict_set ctxs (name (ci_cluster best))
                              (try_again_later (clock (st_world s2)) (failure_retry_delay P) ctx))
                           s2 of
                      (Inl e', ctxs2, s3) \<Rightarrow> Some (Some e', ctxs2, s3)
                    | (Inr True, ctxs2, s3) \<Rightarrow> Some (None, ctxs2, s3)
                    | (Inr False, ctxs2, s3) \<Rightarrow> select_loop (Suc n) P E p clusters ctxs2 s3)))"
    using a[THEN conjunct1] a[THEN conjunct2] by (rule first_launch)
next
  assume a: "clusters = get_enabled_clusters_for_platform P p \<and> clusters \<noteq> [] \<and>
    (\<forall>c\<in>set clusters. load_query_answers E p c) \<and>
    0 < plugin_max_cluster_fails P \<and> 0 \<le> clock (st_world s)"
  then have a1: "clusters = get_enabled_clusters_for_platform P p" and a2: "clusters \<noteq> []"
    and a3: "\<forall>c\<in>set clusters. load_query_answers E p c"
    and a4: "0 < plugin_max_cluster_fails P" and a5: "0 \<le> clock (st_world s)"
    by blast+
  show "\<exists>best rest w1 q s2.
         get_clusters (Suc n) E (find_cluster_retry_delay P) p (new_retry_contexts P clusters)
             clusters (st_world s)
           = Some (Inr (best # rest), new_retry_contexts P clusters, w1) \<and>
         ci_cluster ` set (best # rest) = set clusters \<and>
         (\<forall>ci\<in>set (best # rest). ranked_before best ci \<and> load_measured E p ci) \<and>
         do_worker_build P E best (s\<lparr>st_world := w1\<rparr>) = (q, s2) \<and>
         (\<forall>kw h. get_worker_build_kwargs P (release P) p (koji_upload_dir P) (fs_task_id P)
                   (worker_openshift_of E (ci_osbs best)) (st_heap s) = (Inr kw, h) \<longrightarrow>
            (\<exists>kwargs evs. new_events w1 (st_world s2)
                             = CreateWorkerBuild (name (ci_cluster best)) kwargs # evs)) \<and>
         (q = None \<longrightarrow> select_and_start_cluster (Suc (Suc n)) P E p s = Some (None, s2)) \<and>
         (\<forall>e. q = Some e \<and> \<not> is_OsbsException e \<longrightarrow>
            select_and_start_cluster (Suc (Suc n)) P E p s = Some (Some e, s2))"
    using a1 a2 a3 a4 a5 by (rule task_first_launch)
qed

theorem lowest_load_cluster_launched_first_witness:
  "load_query_answers healthy_env ''x86_64'' cluster_a \<and>
   load_query_answers healthy_env ''x86_64'' cluster_b \<and>
   get_enabled_clusters_for_platform plugin0 ''x86_64'' = [cluster_a, cluster_b] \<and>
   0 < plugin_max_cluster_fails plugin0 \<and> 0 \<le> clock (st_world state0) \<and>
   get_clusters 1 healthy_env 15000000 ''x86_64'' ctxs_ab [cluster_a, cluster_b] world0
     = Some (Inr [info_b, info_a], ctxs_ab,
             \<lparr>clock = 1003,
              trace = [Sleep 0, ListBuilds ''b'' ''x86_64'', ListBuilds ''a'' ''x86_64'']\<rparr>) \<and>
   ranked_before info_b info_a \<and> load_measured healthy_env ''x86_64'' info_b \<and>
   select_and_start_cluster 2 plugin0 healthy_env ''x86_64'' state0
     = Some (None,
             snd (do_worker_build plugin0 healthy_env info_b
                    (state0\<lparr>st_world :=
                       \<lparr>clock = 1003,
                        trace = [Sleep 0, ListBuilds ''b'' ''x86_64'',
                                 ListBuilds ''a'' ''x86_64'']\<rparr>\<rparr>))) \<and>
   map wb_cluster
     (worker_builds
        (snd (do_worker_build plugin0 healthy_env info_b
                (state0\<lparr>st_world :=
                   \<lparr>clock = 1003,
                    trace = [Sleep 0, ListBuilds ''b'' ''x86_64'',
                             ListBuilds ''a'' ''x86_64'']\<rparr>\<rparr>))))
     = [Some cluster_b]"
proof -
  define w1c where "w1c = \<lparr>clock = 1003,
              trace = [Sleep 0, ListBuilds ''b'' ''x86_64'', ListBuilds ''a'' ''x86_64'']\<rparr>"
  have la: "load_query_answers healthy_env ''x86_64'' cluster_a"
    and lb: "load_query_answers healthy_env ''x86_64'' cluster_b"
    by (simp_all add: load_query_answers_def get_cluster_info_def healthy_env_def
          cluster_a_def cluster_b_def Let_def)
  have en: "get_enabled_clusters_for_platform plugin0 ''x86_64'' = [cluster_a, cluster_b]"
    by (simp add: plugin0_def)
  have mx: "0 < plugin_max_cluster_fails plugin0" by (simp add: plugin0_def)
  have ck: "0 \<le> clock (st_world state0)" by (simp add: state0_def world0_def)
  have nc: "new_retry_contexts plugin0 [cluster_a, cluster_b] = ctxs_ab"
    by (simp add: new_retry_contexts_def plugin0_def ctxs_ab_def cluster_a_def cluster_b_def)
  have g: "get_clusters 1 healthy_env 15000000 ''x86_64'' ctxs_ab [cluster_a, cluster_b] world0
     = Some (Inr [info_b, info_a], ctxs_ab, w1c)"
    unfolding w1c_def by code_simp
  have dq: "fst (do_worker_build plugin0 healthy_env info_b (state0\<lparr>st_world := w1c\<rparr>)) = None"
    unfolding w1c_def by code_simp
  have wc: "map wb_cluster
     (worker_builds (snd (do_worker_build plugin0 healthy_env info_b (state0\<lparr>st_world := w1c\<rparr>))))
     = [Some cluster_b]"
    unfolding w1c_def by code_simp
  have hyp: "[cluster_a, cluster_b] = get_enabled_clusters_for_platform plugin0 ''x86_64'' \<and>
    [cluster_a, cluster_b] \<noteq> [] \<and>
    (\<forall>c\<in>set [cluster_a, cluster_b]. load_query_answers healthy_env ''x86_64'' c) \<and>
    0 < plugin_max_cluster_fails plugin0 \<and> 0 \<le> clock (st_world state0)"
    using la lb en mx ck by simp
  note T = lowest_load_cluster_launched_first[where P = plugin0 and E = healthy_env
      and p = "''x86_64''" and clusters = "[cluster_a, cluster_b]" and s = state0 and n = 0,
      THEN conjunct2, THEN conjunct2, rule_format, OF hyp]
  have fd: "find_cluster_retry_delay plugin0 = 15000000" "st_world state0 = world0"
    by (simp_all add: plugin0_def state0_def)
  from T obtain best rest w1 q s2 where
    t1: "get_clusters (Suc 0) healthy_env (find_cluster_retry_delay plugin0) ''x86_64''
           (new_retry_contexts plugin0 [cluster_a, cluster_b]) [cluster_a, cluster_b]
           (st_world state0)
         = Some (Inr (best # rest), new_retry_contexts plugin0 [cluster_a, cluster_b], w1)"
    and t2: "\<forall>ci\<in>set (best # rest). ranked_before best ci \<and> load_measured healthy_env ''x86_64'' ci"
    and t3: "do_worker_build plugin0 healthy_env best (state0\<lparr>st_world := w1\<rparr>) = (q, s2)"
    and t4: "q = None \<longrightarrow>
             select_and_start_cluster (Suc (Suc 0)) plugin0 healthy_env ''x86_64'' state0
               = Some (None, s2)"
    by blast
  from t1 g have b: "best = info_b" "rest = [info_a]" "w1 = w1c"
    by (simp_all add: nc fd)
  from t2 b have rb: "ranked_before info_b info_a" and lm: "load_measured healthy_env ''x86_64'' info_b"
    by simp_all
  from t3 dq b have q: "q = None"
    and s2: "s2 = snd (do_worker_build plugin0 healthy_env info_b (state0\<lparr>st_world := w1c\<rparr>))"
    by simp_all
  from t4 q s2 have sel: "select_and_start_cluster 2 plugin0 healthy_env ''x86_64'' state0
     = Some (None, snd (do_worker_build plugin0 healthy_env info_b (state0\<lparr>st_world := w1c\<rparr>)))"
    by (simp add: numeral_2_eq_2)
  show ?thesis
    using la lb en mx ck g rb lm sel wc unfolding w1c_def by (intro conjI)
qed

section \<open>Exhaustion of the clusters (claim C2)\<close>



section \<open>Dead clusters (claim C3)\<close>

text \<open>
  Claim C3 says that the failure count never exceeds \<^verbatim>\<open>max_cluster_fails\<close> and that a
  dead cluster is never again included in a selection round.  Neither holds for every
  configuration.  A context created with a negative \<^verbatim>\<open>max_cluster_fails\<close> has a count,
  0, above the maximum from the start.  And when two clusters of a platform have the same
  name they share one retry context: in the ranking \<open>[info_a, info_a2]\<close> the first
  creation is refused, which makes the context of \<^verbatim>\<open>a\<close> dead, and the loop over the
  ranking goes on to the second entry and asks the cluster \<^verbatim>\<open>a\<close> again.  The whole task
  sends the requests \<^verbatim>\<open>sleep, list a, list a, create a, create a\<close>: one refusal among
  the first four, with \<^verbatim>\<open>max_cluster_fails\<close> 1, and a fifth request to \<^verbatim>\<open>a\<close>.
\<close>

theorem dead_cluster_selected_again:
  "max_cluster_fails (new_ClusterRetryContext (- 1)) < fails (new_ClusterRetryContext (- 1)) \<and>
   (case start_on_cluster plugin_twins refuse_env info_a ctxs_a1 state0 of
      (r, c, s1) \<Rightarrow>
        r = Inr False \<and> dead c ''a'' \<and>
        map event_cluster
          (new_events (st_world s1)
             (st_world (snd (snd (start_on_cluster plugin_twins refuse_env info_a2 c s1)))))
          = [Some ''a'']) \<and>
   map_option (\<lambda>rs. (fst rs, map event_cluster (trace (st_world (snd rs)))))
     (select_and_start_cluster 3 plugin_twins refuse_env ''x86_64'' state0)
     = Some (None, [None, Some ''a'', Some ''a'', Some ''a'', Some ''a'']) \<and>
   map_option (\<lambda>rs. refusals refuse_env ''a'' (trace (st_world (snd rs))) 0 4)
     (select_and_start_cluster 3 plugin_twins refuse_env ''x86_64'' state0) = Some 1 \<and>
   plugin_max_cluster_fails plugin_twins = 1"
proof -
  have a: "max_cluster_fails (new_ClusterRetryContext (- 1)) < fails (new_ClusterRetryContext (- 1))"
    by (simp add: new_ClusterRetryContext_def)
  have b: "(case start_on_cluster plugin_twins refuse_env info_a ctxs_a1 state0 of
      (r, c, s1) \<Rightarrow>
        r = Inr False \<and> dead c ''a'' \<and>
        map event_cluster
          (new_events (st_world s1)
             (st_world (snd (snd (start_on_cluster plugin_twins refuse_env info_a2 c s1)))))
          = [Some ''a''])"
    by code_simp
  have c: "map_option (\<lambda>rs. (fst rs, map event_cluster (trace (st_world (snd rs)))))
     (select_and_start_cluster 3 plugin_twins refuse_env ''x86_64'' state0)
     = Some (None, [None, Some ''a'', Some ''a'', Some ''a'', Some ''a''])"
    by code_simp
  have d: "map_option (\<lambda>rs. refusals refuse_env ''a'' (trace (st_world (snd rs))) 0 4)
     (select_and_start_cluster 3 plugin_twins refuse_env ''x86_64'' state0) = Some 1"
    by code_simp
  have e: "plugin_max_cluster_fails plugin_twins = 1"
    by (simp add: plugin_twins_def plugin_one_def)
  from a b c d e show ?thesis by blast
qed

text \<open>
  Claim C3, amended.  \<^verbatim>\<open>try_again_later\<close> on a context that is not dead adds one to the
  failure count and sets the retry time to the current time plus the delay; on a dead
  context (failure count at or above \<^verbatim>\<open>max_cluster_fails\<close>) it changes nothing.  For a
  context created with a non-negative \<^verbatim>\<open>max_cluster_fails\<close> the failure count never
  exceeds it, however many failures are recorded.  A cluster that is dead when
  \<^verbatim>\<open>get_clusters\<close> or the selection loop of a platform's task is entered stays dead, is
  in no ranking and receives no request.  When the clusters of the platform have distinct
  names, the same holds for a cluster that dies on the way: the failure count of its
  context is the count at the start plus the number of its requests refused since, and
  once that number has reached \<^verbatim>\<open>max_cluster_fails\<close> no later request of the task, be it a
  load query, the creation of a build or the monitoring of one, is sent to the cluster.
  In particular a task, which starts from fresh contexts, sends nothing to a cluster after
  \<^verbatim>\<open>max_cluster_fails\<close> of its requests were refused.
\<close>

theorem dead_cluster_never_selected:
  "(\<not> failed ctx_a \<longrightarrow>
      try_again_later now d ctx_a = ctx_a\<lparr>fails := fails ctx_a + 1, retry_at := now + d\<rparr>) \<and>
   (failed ctx_d \<longrightarrow> try_again_later now d ctx_d = ctx_d) \<and>
   (0 \<le> m \<longrightarrow>
      fails (fold (\<lambda>(now, d). try_again_later now d) calls (new_ClusterRetryContext m)) \<le> m) \<and>
   (get_clusters fuel E delay p ctxs all w = Some (Inr ret, ctxs_g, w_g) \<and> dead ctxs k \<longrightarrow>
      dead ctxs_g k \<and> k \<notin> (\<lambda>ci. name (ci_cluster ci)) ` set ret \<and>
      (\<forall>e\<in>set (new_events w w_g). event_cluster e \<noteq> Some k)) \<and>
   (select_loop fuel P E p clusters ctxs s = Some (r, ctxs_s, s_s) \<and> dead ctxs k \<longrightarrow>
      dead ctxs_s k \<and>
      (\<forall>e\<in>set (new_events (st_world s) (st_world s_s)). event_cluster e \<noteq> Some k)) \<and>
   (select_loop fuel P E p clusters ctxs s = Some (r, ctxs_s, s_s) \<and>
    distinct (map name clusters) \<and> map_of ctxs k = Some ctx_k \<longrightarrow>
      (\<exists>ctx'. map_of ctxs_s k = Some ctx' \<and> max_cluster_fails ctx' = max_cluster_fails ctx_k \<and>
          fails ctx' = fails ctx_k + int (refusals E k (trace (st_world s_s))
                                            (length (trace (st_world s)))
                                            (length (trace (st_world s_s))))) \<and>
      (\<forall>i j. length (trace (st_world s)) \<le> i \<and> i \<le> j \<and> j < length (trace (st_world s_s)) \<and>
          max_cluster_fails ctx_k
            \<le> fails ctx_k + int (refusals E k (trace (st_world s_s)) (length (trace (st_world s))) i)
          \<longrightarrow> event_cluster (trace (st_world s_s) ! j) \<noteq> Some k)) \<and>
   (select_and_start_cluster fuel P E p s = Some (r_t, s_t) \<and>
    distinct (map name (get_enabled_clusters_for_platform P p)) \<and>
    c \<in> set (get_enabled_clusters_for_platform P p) \<longrightarrow>
      (\<forall>i j. length (trace (st_world s)) \<le> i \<and> i \<le> j \<and> j < length (trace (st_world s_t)) \<and>
          plugin_max_cluster_fails P
            \<le> int (refusals E (name c) (trace (st_world s_t)) (length (trace (st_world s))) i)
          \<longrightarrow> event_cluster (trace (st_world s_t) ! j) \<noteq> Some (name c)))"
proof (intro conjI impI)
  assume "\<not> failed ctx_a"
  then show "try_again_later now d ctx_a = ctx_a\<lparr>fails := fails ctx_a + 1, retry_at := now + d\<rparr>"
    by (rule try_again_later_alive)
next
  assume "failed ctx_d"
  then show "try_again_later now d ctx_d = ctx_d" by (rule try_again_later_dead)
next
  assume "0 \<le> m"
  then have "fails (new_ClusterRetryContext m) \<le> max_cluster_fails (new_ClusterRetryContext m)"
    by (simp add: new_ClusterRetryContext_def)
  from fold_try_again_later_bound[OF this, of calls]
  show "fails (fold (\<lambda>(now, d). try_again_later now d) calls (new_ClusterRetryContext m)) \<le> m"
    by (simp add: new_ClusterRetryContext_def)
next
  assume a: "get_clusters fuel E delay p ctxs all w = Some (Inr ret, ctxs_g, w_g) \<and> dead ctxs k"
  then have g: "get_clusters fuel E delay p ctxs all w = Some (Inr ret, ctxs_g, w_g)"
    and k: "dead ctxs k" by simp_all
  show "dead ctxs_g k" using get_clusters_world(2)[OF g] k ctxs_rel_dead by blast
  show "k \<notin> (\<lambda>ci. name (ci_cluster ci)) ` set ret"
    using get_clusters_members[OF g] k by auto
  show "\<forall>e\<in>set (new_events w w_g). event_cluster e \<noteq> Some k"
    using get_clusters_world(3)[OF g] k by blast
next
  assume a: "select_loop fuel P E p clusters ctxs s = Some (r, ctxs_s, s_s) \<and> dead ctxs k"
  then have g: "select_loop fuel P E p clusters ctxs s = Some (r, ctxs_s, s_s)"
    and k: "dead ctxs k" by simp_all
  note i = select_loop_inv[OF g]
  show "dead ctxs_s k" using i k ctxs_rel_dead by blast
  show "\<forall>e\<in>set (new_events (st_world s) (st_world s_s)). event_cluster e \<noteq> Some k"
    using i[THEN conjunct2, THEN conjunct2, THEN conjunct1] k by blast
next
  assume a: "select_loop fuel P E p clusters ctxs s = Some (r, ctxs_s, s_s) \<and>
    distinct (map name clusters) \<and> map_of ctxs k = Some ctx_k"
  then have g: "select_loop fuel P E p clusters ctxs s = Some (r, ctxs_s, s_s)"
    and d: "distinct (map name clusters)" and k: "map_of ctxs k = Some ctx_k" by simp_all
  show "\<exists>ctx'. map_of ctxs_s k = Some ctx' \<and> max_cluster_fails ctx' = max_cluster_fails ctx_k \<and>
          fails ctx' = fails ctx_k + int (refusals E k (trace (st_world s_s))
                                            (length (trace (st_world s)))
                                            (length (trace (st_world s_s))))"
    using g d k by (rule select_loop_refusals(1))
  show "\<forall>i j. length (trace (st_world s)) \<le> i \<and> i \<le> j \<and> j < length (trace (st_world s_s)) \<and>
          max_cluster_fails ctx_k
            \<le> fails ctx_k + int (refusals E k (trace (st_world s_s)) (length (trace (st_world s))) i)
          \<longrightarrow> event_cluster (trace (st_world s_s) ! j) \<noteq> Some k"
    using g d k by (rule select_loop_refusals(2))
next
  assume a: "select_and_start_cluster fuel P E p s = Some (r_t, s_t) \<and>
    distinct (map name (get_enabled_clusters_for_platform P p)) \<and>
    c \<in> set (get_enabled_clusters_for_platform P p)"
  then have g: "select_and_start_cluster fuel P E p s = Some (r_t, s_t)"
    and d: "distinct (map name (get_enabled_clusters_for_platform P p))"
    and c: "c \<in> set (get_enabled_clusters_for_platform P p)" by simp_all
  show "\<forall>i j. length (trace (st_world s)) \<le> i \<and> i \<le> j \<and> j < length (trace (st_world s_t)) \<and>
          plugin_max_cluster_fails P
            \<le> int (refusals E (name c) (trace (st_world s_t)) (length (trace (st_world s))) i)
          \<longrightarrow> event_cluster (trace (st_world s_t) ! j) \<noteq> Some (name c)"
    using g d c by (rule select_and_start_cluster_refusals)
qed

theorem dead_cluster_never_selected_witness:
  "\<not> failed (new_ClusterRetryContext 1) \<and>
   try_again_later 7 5 (new_ClusterRetryContext 1)
     = \<lparr>fails = 1, retry_at = 12, max_cluster_fails = 1\<rparr> \<and>
   failed \<lparr>fails = 1, retry_at = 12, max_cluster_fails = 1\<rparr> \<and>
   try_again_later 7 5 \<lparr>fails = 1, retry_at = 12, max_cluster_fails = 1\<rparr>
     = \<lparr>fails = 1, retry_at = 12, max_cluster_fails = 1\<rparr> \<and>
   (0::int) \<le> 1 \<and>
   fails (fold (\<lambda>(now, d). try_again_later now d) [(7, 5), (9, 5), (11, 5)]
            (new_ClusterRetryContext 1)) \<le> 1 \<and>
   dead ctxs_a_dead ''a'' \<and>
   get_clusters 1 healthy_env 15000000 ''x86_64'' ctxs_a_dead [cluster_a, cluster_b] world0
     = Some (Inr [\<lparr>ci_cluster = cluster_b, ci_platform = ''x86_64'', ci_osbs = ''b'',
                   ci_load = 1/4\<rparr>],
             ctxs_a_dead, \<lparr>clock = 1002, trace = [Sleep 0, ListBuilds ''b'' ''x86_64'']\<rparr>) \<and>
   ''a'' \<notin> (\<lambda>ci. name (ci_cluster ci)) `
            set [\<lparr>ci_cluster = cluster_b, ci_platform = ''x86_64'', ci_osbs = ''b'', ci_load = 1/4\<rparr>] \<and>
   (\<exists>r c s'. select_loop 2 plugin0 healthy_env ''x86_64'' [cluster_a, cluster_b] ctxs_a_dead state0
               = Some (r, c, s') \<and> dead c ''a'' \<and>
             (\<forall>e\<in>set (new_events (st_world state0) (st_world s')). event_cluster e \<noteq> Some ''a'')) \<and>
   distinct (map name [cluster_a, cluster_b]) \<and>
   map_of ctxs_ab1 ''b'' = Some (new_ClusterRetryContext 1) \<and>
   (\<exists>r c s'. select_loop 3 plugin_one refuse_env ''x86_64'' [cluster_a, cluster_b] ctxs_ab1 state0
               = Some (r, c, s') \<and>
             map event_cluster (trace (st_world s'))
               = [None, Some ''b'', Some ''a'', Some ''b'', Some ''a''] \<and>
             refusals refuse_env ''b'' (trace (st_world s')) 0 4 = 1 \<and>
             event_cluster (trace (st_world s') ! 4) \<noteq> Some ''b'' \<and>
             (\<exists>ctx'. map_of c ''b'' = Some ctx' \<and> max_cluster_fails ctx' = 1 \<and>
                     fails ctx' = int (refusals refuse_env ''b'' (trace (st_world s')) 0 5))) \<and>
   cluster_b \<in> set (get_enabled_clusters_for_platform plugin_one ''x86_64'') \<and>
   (\<exists>r s'. select_and_start_cluster 3 plugin_one refuse_env ''x86_64'' state0 = Some (r, s') \<and>
           refusals refuse_env ''b'' (trace (st_world s')) 0 4 = 1 \<and>
           event_cluster (trace (st_world s') ! 4) \<noteq> Some ''b'')"
proof -
  have g: "get_clusters 1 healthy_env 15000000 ''x86_64'' ctxs_a_dead [cluster_a, cluster_b] world0
     = Some (Inr [\<lparr>ci_cluster = cluster_b, ci_platform = ''x86_64'', ci_osbs = ''b'',
                   ci_load = 1/4\<rparr>],
             ctxs_a_dead, \<lparr>clock = 1002, trace = [Sleep 0, ListBuilds ''b'' ''x86_64'']\<rparr>)"
    by code_simp
  have k: "dead ctxs_a_dead ''a''" by (simp add: dead_def ctxs_a_dead_def failed_def)
  have "select_loop 2 plugin0 healthy_env ''x86_64'' [cluster_a, cluster_b] ctxs_a_dead state0 \<noteq> None"
    by code_simp
  then obtain r c s' where
    sl: "select_loop 2 plugin0 healthy_env ''x86_64'' [cluster_a, cluster_b] ctxs_a_dead state0
           = Some (r, c, s')"
    by (metis not_None_eq prod_cases3)
  have a: "\<not> failed (new_ClusterRetryContext 1)"
    and f: "failed \<lparr>fails = 1, retry_at = 12, max_cluster_fails = 1\<rparr>"
    by (simp_all add: failed_def new_ClusterRetryContext_def)
  note T1 = dead_cluster_never_selected[where ctx_a = "new_ClusterRetryContext 1"
      and ctx_d = "\<lparr>fails = 1, retry_at = 12, max_cluster_fails = 1\<rparr>" and now = 7 and d = 5
      and m = 1 and calls = "[(7, 5), (9, 5), (11, 5)]"
      and fuel = 1 and E = healthy_env and delay = 15000000 and p = "''x86_64''"
      and ctxs = ctxs_a_dead and all = "[cluster_a, cluster_b]" and w = world0 and k = "''a''"
      and ret = "[\<lparr>ci_cluster = cluster_b, ci_platform = ''x86_64'', ci_osbs = ''b'', ci_load = 1/4\<rparr>]"
      and ctxs_g = ctxs_a_dead
      and w_g = "\<lparr>clock = 1002, trace = [Sleep 0, ListBuilds ''b'' ''x86_64'']\<rparr>"]
  note T2 = dead_cluster_never_selected[where ctx_a = "new_ClusterRetryContext 1"
      and ctx_d = "\<lparr>fails = 1, retry_at = 12, max_cluster_fails = 1\<rparr>" and now = 7 and d = 5
      and m = 1 and calls = "[(7, 5), (9, 5), (11, 5)]"
      and fuel = 2 and E = healthy_env and P = plugin0 and p = "''x86_64''"
      and clusters = "[cluster_a, cluster_b]"
      and ctxs = ctxs_a_dead and s = state0 and k = "''a''" and r = r and ctxs_s = c and s_s = s']
  have c1: "try_again_later 7 5 (new_ClusterRetryContext 1)
              = \<lparr>fails = 1, retry_at = 12, max_cluster_fails = 1\<rparr>"
    using T1[THEN conjunct1] a by (simp add: new_ClusterRetryContext_def)
  have c2: "try_again_later 7 5 \<lparr>fails = 1, retry_at = 12, max_cluster_fails = 1\<rparr>
              = \<lparr>fails = 1, retry_at = 12, max_cluster_fails = 1\<rparr>"
    using T1[THEN conjunct2, THEN conjunct1] f by blast
  have z: "(0::int) \<le> 1" by simp
  have c3: "fails (fold (\<lambda>(now, d). try_again_later now d) [(7, 5), (9, 5), (11, 5)]
            (new_ClusterRetryContext 1)) \<le> 1"
    using T1[THEN conjunct2, THEN conjunct2, THEN conjunct1] z by blast
  have c4: "''a'' \<notin> (\<lambda>ci. name (ci_cluster ci)) `
            set [\<lparr>ci_cluster = cluster_b, ci_platform = ''x86_64'', ci_osbs = ''b'', ci_load = 1/4\<rparr>]"
    using T1[THEN conjunct2, THEN conjunct2, THEN conjunct2, THEN conjunct1] g k by blast
  have c5: "\<exists>r c s'. select_loop 2 plugin0 healthy_env ''x86_64'' [cluster_a, cluster_b] ctxs_a_dead state0
               = Some (r, c, s') \<and> dead c ''a'' \<and>
             (\<forall>e\<in>set (new_events (st_world state0) (st_world s')). event_cluster e \<noteq> Some ''a'')"
    using T2[THEN conjunct2, THEN conjunct2, THEN conjunct2, THEN conjunct2, THEN conjunct1] sl k
    by blast
  have dn: "distinct (map name [cluster_a, cluster_b])"
    by (simp add: cluster_a_def cluster_b_def)
  have mb: "map_of ctxs_ab1 ''b'' = Some (new_ClusterRetryContext 1)"
    by (simp add: ctxs_ab1_def)
  have i0: "length (trace (st_world state0)) = 0" by (simp add: state0_def world0_def)
  have e1: "map_option (\<lambda>x. (map event_cluster (trace (st_world (snd (snd x)))),
                              refusals refuse_env ''b'' (trace (st_world (snd (snd x)))) 0 4))
              (select_loop 3 plugin_one refuse_env ''x86_64'' [cluster_a, cluster_b] ctxs_ab1 state0)
            = Some ([None, Some ''b'', Some ''a'', Some ''b'', Some ''a''], 1)"
    by code_simp
  then obtain r1 cc s1 where
    s1: "select_loop 3 plugin_one refuse_env ''x86_64'' [cluster_a, cluster_b] ctxs_ab1 state0
           = Some (r1, cc, s1)"
    and tr1: "map event_cluster (trace (st_world s1)) = [None, Some ''b'', Some ''a'', Some ''b'', Some ''a'']"
    and rf1: "refusals refuse_env ''b'' (trace (st_world s1)) 0 4 = 1"
    by auto
  have len1: "length (trace (st_world s1)) = 5"
    using arg_cong[OF tr1, of length] by simp
  note T3 = dead_cluster_never_selected[where fuel = 3 and E = refuse_env and P = plugin_one
      and p = "''x86_64''" and clusters = "[cluster_a, cluster_b]" and ctxs = ctxs_ab1
      and s = state0 and k = "''b''" and r = r1 and ctxs_s = cc and s_s = s1
      and ctx_k = "new_ClusterRetryContext 1",
      THEN conjunct2, THEN conjunct2, THEN conjunct2, THEN conjunct2, THEN conjunct2,
      THEN conjunct1, rule_format, OF conjI[OF s1 conjI[OF dn mb]]]
  have c6a: "event_cluster (trace (st_world s1) ! 4) \<noteq> Some ''b''"
    using T3[THEN conjunct2, rule_format, of 4 4] rf1 len1 i0
    by (simp add: new_ClusterRetryContext_def)
  have c6b: "\<exists>ctx'. map_of cc ''b'' = Some ctx' \<and> max_cluster_fails ctx' = 1 \<and>
                     fails ctx' = int (refusals refuse_env ''b'' (trace (st_world s1)) 0 5)"
    using T3[THEN conjunct1] len1 i0 by (simp add: new_ClusterRetryContext_def)
  have c6: "\<exists>r c s'. select_loop 3 plugin_one refuse_env ''x86_64'' [cluster_a, cluster_b] ctxs_ab1 state0
               = Some (r, c, s') \<and>
             map event_cluster (trace (st_world s'))
               = [None, Some ''b'', Some ''a'', Some ''b'', Some ''a''] \<and>
             refusals refuse_env ''b'' (trace (st_world s')) 0 4 = 1 \<and>
             event_cluster (trace (st_world s') ! 4) \<noteq> Some ''b'' \<and>
             (\<exists>ctx'. map_of c ''b'' = Some ctx' \<and> max_cluster_fails ctx' = 1 \<and>
                     fails ctx' = int (refusals refuse_env ''b'' (trace (st_world s')) 0 5))"
    by (rule exI[of _ r1], rule exI[of _ cc], rule exI[of _ s1]) (intro conjI s1 tr1 rf1 c6a c6b)
  have en: "get_enabled_clusters_for_platform plugin_one ''x86_64'' = [cluster_a, cluster_b]"
    by (simp add: plugin_one_def plugin0_def)
  have cb: "cluster_b \<in> set (get_enabled_clusters_for_platform plugin_one ''x86_64'')"
    by (simp add: en)
  have e2: "map_option (\<lambda>x. (length (trace (st_world (snd x))),
                              refusals refuse_env ''b'' (trace (st_world (snd x))) 0 4))
              (select_and_start_cluster 3 plugin_one refuse_env ''x86_64'' state0)
            = Some (5, 1)"
    by code_simp
  then obtain r2 s2 where
    s2: "select_and_start_cluster 3 plugin_one refuse_env ''x86_64'' state0 = Some (r2, s2)"
    and len2: "length (trace (st_world s2)) = 5"
    and rf2: "refusals refuse_env ''b'' (trace (st_world s2)) 0 4 = 1"
    by auto
  have nb: "name cluster_b = ''b''" by (simp add: cluster_b_def)
  have pm: "plugin_max_cluster_fails plugin_one = 1" by (simp add: plugin_one_def)
  note T4 = dead_cluster_never_selected[where fuel = 3 and E = refuse_env and P = plugin_one
      and p = "''x86_64''" and s = state0 and c = cluster_b and r_t = r2 and s_t = s2,
      THEN conjunct2, THEN conjunct2, THEN conjunct2, THEN conjunct2, THEN conjunct2,
      THEN conjunct2, rule_format, OF conjI[OF s2 conjI[OF dn[folded en] cb]], of 4 4]
  have c7a: "event_cluster (trace (st_world s2) ! 4) \<noteq> Some ''b''"
    using T4 rf2 len2 i0 nb pm by simp
  have c7: "\<exists>r s'. select_and_start_cluster 3 plugin_one refuse_env ''x86_64'' state0 = Some (r, s') \<and>
           refusals refuse_env ''b'' (trace (st_world s')) 0 4 = 1 \<and>
           event_cluster (trace (st_world s') ! 4) \<noteq> Some ''b''"
    by (rule exI[of _ r2], rule exI[of _ s2]) (intro conjI s2 rf2 c7a)
  from a c1 f c2 z c3 k g c4 c5 dn mb c6 cb c7 show ?thesis by blast
qed

section \<open>Diagnosing a failed build (claim C10)\<close>

text \<open>
  Claim C10 says that \<^verbatim>\<open>get_fail_reason\<close> never raises.  It does: the text of the
  \<^verbatim>\<open>plugins-metadata\<close> annotation is decoded outside any \<^verbatim>\<open>try\<close>, so what
  \<^verbatim>\<open>json.loads\<close> raises on a text that is not JSON leaves \<^verbatim>\<open>get_fail_reason\<close>, and so
  does the \<^verbatim>\<open>TypeError\<close> of \<^verbatim>\<open>metadata['errors']\<close> on a decoded list.
\<close>

theorem get_fail_reason_can_raise:
  "get_fail_reason healthy_env undecodable_build world0
     = Some (Inl (ValueError ''Expecting value: line 1 column 1 (char 0)''), world0) \<and>
   get_fail_reason healthy_env list_metadata_build world0
     = Some (Inl (TypeError ''list indices must be integers or slices, not str''), world0)"
  by (simp add: get_fail_reason_def undecodable_build_def list_metadata_build_def
        plugins_metadata_def healthy_env_def scenario_json_loads_def errors_general_text_def)

text \<open>
  Claim C10, amended.  \<^verbatim>\<open>get_fail_reason\<close> returns a mapping and raises nothing whenever
  there is no build, or the \<^verbatim>\<open>plugins-metadata\<close> annotation decodes to a JSON object whose
  \<^verbatim>\<open>errors\<close> entry is an object, or it decodes to a JSON object without \<^verbatim>\<open>errors\<close>
  and asking for the pod's failure reason raises nothing but \<^verbatim>\<open>OsbsException\<close> or
  \<^verbatim>\<open>AttributeError\<close>.  The mapping starts from \<^verbatim>\<open>{'general': str(monitor_exception)}\<close>
  when a monitor exception is recorded, from \<^verbatim>\<open>{'general': 'build not started'}\<close> when
  there is neither an exception nor a build, and empty otherwise.  With no build that is
  the result; with a build the \<^verbatim>\<open>errors\<close> object is merged into it (an entry
  \<^verbatim>\<open>general\<close> of that object replaces the exception's text), or, when there is no
  \<^verbatim>\<open>errors\<close> entry, the pod's failure reason is added under \<^verbatim>\<open>pod\<close> if it can be had.
\<close>

theorem get_fail_reason_returns:
  "(wb_build bi = None \<longrightarrow> get_fail_reason E bi w = Some (Inr (base_reason bi), w)) \<and>
   (wb_build bi = Some b \<and> json_loads E (plugins_metadata b) = Inr (PDict md) \<and>
    map_of md ''errors'' = Some (PDict errs) \<longrightarrow>
      get_fail_reason E bi w = Some (Inr (dict_update (base_reason bi) errs), w) \<and>
      (''general'' \<notin> fst ` set errs \<longrightarrow>
         map_of (dict_update (base_reason bi) errs) ''general''
           = map_of (base_reason bi) ''general'')) \<and>
   (wb_build bi = Some b \<and> json_loads E (plugins_metadata b) = Inr (PDict md) \<and>
    map_of md ''errors'' = None \<and>
    (\<forall>e. pod_outcome E bi b w = Inl e \<longrightarrow> is_OsbsException_or_AttributeError e) \<longrightarrow>
      (\<exists>w'. get_fail_reason E bi w =
          Some (Inr (case pod_outcome E bi b w of
                       Inr v \<Rightarrow> dict_set (base_reason bi) ''pod'' v
                     | Inl e \<Rightarrow> base_reason bi), w'))) \<and>
   (truthy_monitor (wb_monitor_exception bi) \<longrightarrow>
      base_reason bi = [(''general'', PStr (str_monitor (wb_monitor_exception bi)))]) \<and>
   (\<not> truthy_monitor (wb_monitor_exception bi) \<and> wb_build bi = None \<longrightarrow>
      base_reason bi = [(''general'', PStr ''build not started'')]) \<and>
   (\<not> truthy_monitor (wb_monitor_exception bi) \<and> wb_build bi \<noteq> None \<longrightarrow>
      base_reason bi = [])"
proof (intro conjI impI)
  assume "wb_build bi = None"
  then show "get_fail_reason E bi w = Some (Inr (base_reason bi), w)"
    by (rule get_fail_reason_no_build)
next
  assume a: "wb_build bi = Some b \<and> json_loads E (plugins_metadata b) = Inr (PDict md) \<and>
    map_of md ''errors'' = Some (PDict errs)"
  then show "get_fail_reason E bi w = Some (Inr (dict_update (base_reason bi) errs), w)"
    by (simp add: get_fail_reason_errors)
next
  assume "''general'' \<notin> fst ` set errs"
  then show "map_of (dict_update (base_reason bi) errs) ''general''
           = map_of (base_reason bi) ''general''"
    by (rule map_of_dict_update_notin)
next
  assume a: "wb_build bi = Some b \<and> json_loads E (plugins_metadata b) = Inr (PDict md) \<and>
    map_of md ''errors'' = None \<and>
    (\<forall>e. pod_outcome E bi b w = Inl e \<longrightarrow> is_OsbsException_or_AttributeError e)"
  then have g: "get_fail_reason E bi w = Some (pod_fail_reason E bi b (base_reason bi) w)"
    by (simp add: get_fail_reason_pod)
  show "\<exists>w'. get_fail_reason E bi w =
          Some (Inr (case pod_outcome E bi b w of
                       Inr v \<Rightarrow> dict_set (base_reason bi) ''pod'' v
                     | Inl e \<Rightarrow> base_reason bi), w')"
    unfolding g pod_fail_reason_cases using a
    by (cases "pod_outcome E bi b w") auto
qed (simp_all add: base_reason_def)

theorem get_fail_reason_returns_witness:
  "get_fail_reason healthy_env (exhausted_build_info ''ppc64le'' no_cluster_message) world0
     = Some (Inr [(''general'', PStr no_cluster_message)], world0) \<and>
   get_fail_reason healthy_env errors_general_build world0
     = Some (Inr [(''general'', PStr ''plugin failed'')], world0) \<and>
   (\<exists>w'. get_fail_reason healthy_env unwatched_build world0
            = Some (Inr [(''general'', PStr ''it happens'')], w'))"
proof -
  obtain b3 where b3: "wb_build errors_general_build = Some b3"
    "plugins_metadata b3 = errors_general_text"
    by (simp add: errors_general_build_def plugins_metadata_def)
  obtain b4 where b4: "wb_build unwatched_build = Some b4" "plugins_metadata b4 = ''{}''"
    "build_name b4 = ''worker-build-4''"
    by (simp add: unwatched_build_def plugins_metadata_def)
  have n1: "wb_build (exhausted_build_info ''ppc64le'' no_cluster_message) = None"
    by (simp add: exhausted_build_info_def placeholder_WorkerBuildInfo_def)
  have r1: "base_reason (exhausted_build_info ''ppc64le'' no_cluster_message)
              = [(''general'', PStr no_cluster_message)]"
    by (simp add: base_reason_def exhausted_build_info_def placeholder_WorkerBuildInfo_def
          no_cluster_message_def)
  have d3: "json_loads healthy_env (plugins_metadata b3)
              = Inr (PDict [(''errors'', PDict [(''general'', PStr ''plugin failed'')])])"
    by (simp add: b3 healthy_env_def scenario_json_loads_def errors_general_text_def)
  have d4: "json_loads healthy_env (plugins_metadata b4) = Inr (PDict [])"
    by (simp add: b4 healthy_env_def scenario_json_loads_def)
  have o4: "pod_outcome healthy_env unwatched_build b4 world0 = Inl (OsbsException ''no pod'')"
    by (simp add: pod_outcome_def healthy_env_def unwatched_build_def)
  have p4: "\<forall>e. pod_outcome healthy_env unwatched_build b4 world0 = Inl e
              \<longrightarrow> is_OsbsException_or_AttributeError e"
    by (simp add: o4 is_OsbsException_or_AttributeError_def)
  have r3: "base_reason errors_general_build = []"
    using b3 by (simp add: base_reason_def errors_general_build_def)
  have r4: "base_reason unwatched_build = [(''general'', PStr ''it happens'')]"
    by (simp add: base_reason_def unwatched_build_def)
  note T1 = get_fail_reason_returns[of "exhausted_build_info ''ppc64le'' no_cluster_message"
      healthy_env world0, THEN conjunct1]
  note T3 = get_fail_reason_returns[of errors_general_build healthy_env world0 b3
      "[(''errors'', PDict [(''general'', PStr ''plugin failed'')])]"
      "[(''general'', PStr ''plugin failed'')]", THEN conjunct2, THEN conjunct1]
  note T4 = get_fail_reason_returns[of unwatched_build healthy_env world0 b4 "[]",
      THEN conjunct2, THEN conjunct2, THEN conjunct1]
  have c1: "get_fail_reason healthy_env (exhausted_build_info ''ppc64le'' no_cluster_message) world0
     = Some (Inr [(''general'', PStr no_cluster_message)], world0)"
    using T1 n1 r1 by simp
  have c3: "get_fail_reason healthy_env errors_general_build world0
     = Some (Inr [(''general'', PStr ''plugin failed'')], world0)"
    using T3 b3 d3 r3 by simp
  have c4: "\<exists>w'. get_fail_reason healthy_env unwatched_build world0
     = Some (Inr [(''general'', PStr ''it happens'')], w')"
    using T4 b4 d4 p4 o4 r4 by simp
  from c1 c3 c4 show ?thesis by blast
qed

section \<open>An unexpected error while creating the build (claim C9)\<close>

text \<open>
  Claim C9 says that an error other than \<^verbatim>\<open>OsbsException\<close> raised while the build is
  created is recorded as the monitor error of the resulting \<^verbatim>\<open>WorkerBuildInfo\<close>.  It is
  not: the handler only logs it, and \<^verbatim>\<open>monitor_exception\<close> stays \<^verbatim>\<open>None\<close>.  So it is
  when the remote session raises, and when \<^verbatim>\<open>_update_content_versions\<close> raises
  \<^verbatim>\<open>RuntimeError\<close> before the session is asked.
\<close>

theorem create_error_is_not_recorded:
  "fst (create_build plugin0 create_boom_env info_b state0) = Inl (OtherException ''boom'') \<and>
   fst (do_worker_build plugin0 create_boom_env info_b state0) = None \<and>
   map wb_monitor_exception (worker_builds (snd (do_worker_build plugin0 create_boom_env info_b state0)))
     = [None] \<and>
   fst (create_build plugin_v1 healthy_env info_b state_v1)
     = Inl (RuntimeError ''content_versions is empty'') \<and>
   fst (do_worker_build plugin_v1 healthy_env info_b state_v1) = None \<and>
   map wb_monitor_exception (worker_builds (snd (do_worker_build plugin_v1 healthy_env info_b state_v1)))
     = [None]"
proof -
  have wb: "worker_builds (snd (create_build P E ci s)) = worker_builds s" for P E ci s
    using create_build_world(3)[of P E ci s] by (metis prod.collapse)
  have a: "create_build plugin0 create_boom_env info_b state0
             = (Inl (OtherException ''boom''), snd (create_build plugin0 create_boom_env info_b state0))"
    using boom_create by (metis prod.collapse)
  have b: "create_build plugin_v1 healthy_env info_b state_v1
             = (Inl (RuntimeError ''content_versions is empty''),
                snd (create_build plugin_v1 healthy_env info_b state_v1))"
    using v1_create by (metis prod.collapse)
  have m: "wb_monitor_exception (new_WorkerBuildInfo None info_b) = None"
    by (simp add: new_WorkerBuildInfo_def)
  have e: "worker_builds state0 = []" "worker_builds state_v1 = []"
    by (simp_all add: state0_def state_v1_def)
  show ?thesis
    using do_worker_build_create_error[OF a] do_worker_build_create_error[OF b]
      boom_create v1_create m
    by (simp add: wb e)
qed

text \<open>
  Claim C9, amended.  An error other than \<^verbatim>\<open>OsbsException\<close> raised while the build is
  created is logged and not recorded: \<^verbatim>\<open>do_worker_build\<close> returns normally, having
  appended a \<^verbatim>\<open>WorkerBuildInfo\<close> with no build and no monitor exception, which counts as
  failed and whose failure reason is \<^verbatim>\<open>{'general': 'build not started'}\<close>.  The loop over
  the ranked clusters ends there and the platform's task returns without an exception, so
  the dispatch is not aborted.
\<close>

theorem create_error_gives_unstarted_build:
  assumes "create_build P E ci s = (Inl e, s1)" and "\<not> is_OsbsException e"
  shows "do_worker_build P E ci s
           = (None, s1\<lparr>worker_builds := worker_builds s1 @ [new_WorkerBuildInfo None ci]\<rparr>) \<and>
         worker_builds s1 = worker_builds s \<and>
         wb_build (new_WorkerBuildInfo None ci) = None \<and>
         wb_monitor_exception (new_WorkerBuildInfo None ci) = None \<and>
         wb_platform (new_WorkerBuildInfo None ci) = ci_platform ci \<and>
         build_failed (new_WorkerBuildInfo None ci) \<and>
         get_fail_reason E (new_WorkerBuildInfo None ci) w
           = Some (Inr [(''general'', PStr ''build not started'')], w) \<and>
         ((\<exists>ctx. map_of ctxs (name (ci_cluster ci)) = Some ctx) \<longrightarrow>
            start_on_clusters P E (ci # rest) ctxs s
              = (Inr True, ctxs,
                 s1\<lparr>worker_builds := worker_builds s1 @ [new_WorkerBuildInfo None ci]\<rparr>))"
proof -
  have d: "do_worker_build P E ci s
           = (None, s1\<lparr>worker_builds := worker_builds s1 @ [new_WorkerBuildInfo None ci]\<rparr>)"
    using assms by (rule do_worker_build_create_error)
  have n: "wb_build (new_WorkerBuildInfo None ci) = None"
    "wb_monitor_exception (new_WorkerBuildInfo None ci) = None"
    "wb_platform (new_WorkerBuildInfo None ci) = ci_platform ci"
    by (simp_all add: new_WorkerBuildInfo_def)
  have g: "get_fail_reason E (new_WorkerBuildInfo None ci) w
           = Some (Inr [(''general'', PStr ''build not started'')], w)"
    using get_fail_reason_no_build[OF n(1)] n by (simp add: base_reason_def)
  have st: "(\<exists>ctx. map_of ctxs (name (ci_cluster ci)) = Some ctx) \<longrightarrow>
            start_on_clusters P E (ci # rest) ctxs s
              = (Inr True, ctxs,
                 s1\<lparr>worker_builds := worker_builds s1 @ [new_WorkerBuildInfo None ci]\<rparr>)"
    using d by (auto simp: start_on_cluster_def)
  show ?thesis
    using d n g st create_build_world(3)[OF assms(1)] by (simp add: build_failed_def)
qed

theorem create_error_gives_unstarted_build_witness:
  "\<not> is_OsbsException (OtherException ''boom'') \<and>
   fst (create_build plugin0 create_boom_env info_b state0) = Inl (OtherException ''boom'') \<and>
   do_worker_build plugin0 create_boom_env info_b state0
     = (None, (snd (create_build plugin0 create_boom_env info_b state0))
                \<lparr>worker_builds := [new_WorkerBuildInfo None info_b]\<rparr>) \<and>
   get_fail_reason create_boom_env (new_WorkerBuildInfo None info_b) world0
     = Some (Inr [(''general'', PStr ''build not started'')], world0) \<and>
   fst (start_on_clusters plugin0 create_boom_env [info_b, info_b] ctxs_ab state0) = Inr True"
proof -
  have c: "fst (create_build plugin0 create_boom_env info_b state0) = Inl (OtherException ''boom'')"
    by (rule boom_create)
  then have c': "create_build plugin0 create_boom_env info_b state0
                   = (Inl (OtherException ''boom''), snd (create_build plugin0 create_boom_env info_b state0))"
    by (metis prod.collapse)
  have o: "\<not> is_OsbsException (OtherException ''boom'')" by simp
  have m: "\<exists>ctx. map_of ctxs_ab (name (ci_cluster info_b)) = Some ctx"
    by (simp add: ctxs_ab_def info_b_def cluster_b_def)
  have ws: "worker_builds state0 = []" by (simp add: state0_def)
  note T = create_error_gives_unstarted_build[OF c' o, of world0 ctxs_ab "[info_b]"]
  have t1: "do_worker_build plugin0 create_boom_env info_b state0
     = (None, (snd (create_build plugin0 create_boom_env info_b state0))
                \<lparr>worker_builds := [new_WorkerBuildInfo None info_b]\<rparr>)"
    using T ws by simp
  have t2: "get_fail_reason create_boom_env (new_WorkerBuildInfo None info_b) world0
     = Some (Inr [(''general'', PStr ''build not started'')], world0)"
    using T by blast
  have t3: "fst (start_on_clusters plugin0 create_boom_env [info_b, info_b] ctxs_ab state0) = Inr True"
    using T m by simp
  show ?thesis using o c t1 t2 t3 by blast
qed

section \<open>A failure while the build is monitored (claim C7)\<close>

text \<open>
  Claim C7 says that after an exception raised while the build is watched or waited for,
  the \<^verbatim>\<open>general\<close> entry of the failure reason is the text of that exception, and that
  what the request to cancel raises is passed over.  Neither holds in general: the
  \<^verbatim>\<open>errors\<close> object of the build's \<^verbatim>\<open>plugins-metadata\<close> annotation is merged over the
  entry, so that its own \<^verbatim>\<open>general\<close> replaces the exception's text; and only
  \<^verbatim>\<open>OsbsException\<close> is passed over when the build is cancelled, any other exception
  leaves \<^verbatim>\<open>do_worker_build\<close>.
\<close>

theorem monitor_error_text_can_be_replaced:
  "fst (do_worker_build plugin0 wait_fails_env info_b state0) = None \<and>
   map wb_monitor_exception (worker_builds (snd (do_worker_build plugin0 wait_fails_env info_b state0)))
     = [Some (MonExc (OsbsException ''it happens''))] \<and>
   map (\<lambda>bi. get_fail_reason wait_fails_env bi world0)
       (worker_builds (snd (do_worker_build plugin0 wait_fails_env info_b state0)))
     = [Some (Inr [(''general'', PStr ''plugin failed'')], world0)] \<and>
   fst (do_worker_build plugin0 cancel_fails_env info_b state0)
     = Some (OtherException ''cancel failed'')"
  by code_simp

text \<open>
  Claim C7, amended.  When the build was created and watching its logs or waiting for it
  raises \<open>e\<close>, the exception is recorded as the monitor exception of the build
  information, which is appended to the worker builds with the build as it was created.
  The build is cancelled through \<^verbatim>\<open>cancel_build\<close> once: one request to cancel is sent
  unless the build reports itself finished, in which case none is.  An \<^verbatim>\<open>OsbsException\<close>
  of that request is passed over and \<^verbatim>\<open>do_worker_build\<close> returns normally; any other
  exception of that request leaves \<^verbatim>\<open>do_worker_build\<close> and the platform's task.  In no
  case does the task return to the selection of a cluster: the loop over the ranking ends
  and the retry contexts are unchanged.  The failure reason starts as
  \<^verbatim>\<open>{'general': str(e)}\<close>; whenever \<^verbatim>\<open>get_fail_reason\<close> returns, its \<^verbatim>\<open>general\<close> entry is
  that text, unless the \<^verbatim>\<open>errors\<close> object of the build's \<^verbatim>\<open>plugins-metadata\<close> annotation
  has a \<^verbatim>\<open>general\<close> entry of its own, which then replaces it.
\<close>

theorem monitor_failure_is_terminal:
  assumes "create_build P E ci s = (Inr b, s1)"
    and "watch_and_wait E (new_WorkerBuildInfo (Some b) ci) (st_world s1) = (Some e, bi, w)"
    and "do_worker_build P E ci s = (r, s')"
  shows "worker_builds s' = worker_builds s @ [monitor_failed_info b ci e] \<and>
     wb_monitor_exception (monitor_failed_info b ci e) = Some (MonExc e) \<and>
     wb_build (monitor_failed_info b ci e) = Some b \<and>
     filter is_cancel (new_events (st_world s) (st_world s'))
       = (if is_finished b then [] else [CancelBuild (ci_osbs ci) (build_name b)]) \<and>
     r = (if is_finished b then None
          else case osbs_cancel_build E (ci_osbs ci) (build_name b) (length (trace w)) of
                 None \<Rightarrow> None
               | Some ce \<Rightarrow> if is_OsbsException ce then None else Some ce) \<and>
     (\<forall>ctxs ctx rest. map_of ctxs (name (ci_cluster ci)) = Some ctx \<longrightarrow>
        start_on_clusters P E (ci # rest) ctxs s
          = (case r of None \<Rightarrow> Inr True | Some ce \<Rightarrow> Inl ce, ctxs, s')) \<and>
     base_reason (monitor_failed_info b ci e) = [(''general'', PStr (str_exn e))] \<and>
     (\<forall>w0 fr w1. get_fail_reason E (monitor_failed_info b ci e) w0 = Some (Inr fr, w1) \<longrightarrow>
        map_of fr ''general'' = Some (PStr (str_exn e)) \<or>
        (\<exists>md errs v. json_loads E (plugins_metadata b) = Inr (PDict md) \<and>
           map_of md ''errors'' = Some (PDict errs) \<and> map_of (rev errs) ''general'' = Some v \<and>
           map_of fr ''general'' = Some v))"
proof -
  note l = monitor_failed_launch[OF assms]
  have m: "wb_monitor_exception (monitor_failed_info b ci e) = Some (MonExc e)"
    "wb_build (monitor_failed_info b ci e) = Some b"
    by (simp_all add: monitor_failed_info_def new_WorkerBuildInfo_def)
  have br: "base_reason (monitor_failed_info b ci e) = [(''general'', PStr (str_exn e))]"
    by (simp add: base_reason_def m)
  have no: "\<not> (\<exists>x. r = Some x \<and> is_OsbsException x)"
    unfolding l(3) by (auto split: option.splits if_splits)
  have st: "\<forall>ctxs ctx rest. map_of ctxs (name (ci_cluster ci)) = Some ctx \<longrightarrow>
        start_on_clusters P E (ci # rest) ctxs s
          = (case r of None \<Rightarrow> Inr True | Some ce \<Rightarrow> Inl ce, ctxs, s')"
    using start_on_clusters_settled[OF assms(3) no] by blast
  have gf: "\<forall>w0 fr w1. get_fail_reason E (monitor_failed_info b ci e) w0 = Some (Inr fr, w1) \<longrightarrow>
        map_of fr ''general'' = Some (PStr (str_exn e)) \<or>
        (\<exists>md errs v. json_loads E (plugins_metadata b) = Inr (PDict md) \<and>
           map_of md ''errors'' = Some (PDict errs) \<and> map_of (rev errs) ''general'' = Some v \<and>
           map_of fr ''general'' = Some v)"
  proof (intro allI impI)
    fix w0 fr w1
    assume "get_fail_reason E (monitor_failed_info b ci e) w0 = Some (Inr fr, w1)"
    from get_fail_reason_general[OF this m(2)]
    show "map_of fr ''general'' = Some (PStr (str_exn e)) \<or>
        (\<exists>md errs v. json_loads E (plugins_metadata b) = Inr (PDict md) \<and>
           map_of md ''errors'' = Some (PDict errs) \<and> map_of (rev errs) ''general'' = Some v \<and>
           map_of fr ''general'' = Some v)"
      by (simp add: br)
  qed
  from l(1) m l(2) l(3) st br gf show ?thesis by (intro conjI)
qed

theorem monitor_failure_is_terminal_witness:
  "fst (create_build plugin0 wait_fails_env info_b state0) = Inr annotated_build \<and>
   fst (watch_and_wait wait_fails_env (new_WorkerBuildInfo (Some annotated_build) info_b)
          (st_world (snd (create_build plugin0 wait_fails_env info_b state0))))
     = Some (OsbsException ''it happens'') \<and>
   fst (do_worker_build plugin0 wait_fails_env info_b state0) = None \<and>
   worker_builds (snd (do_worker_build plugin0 wait_fails_env info_b state0))
     = [monitor_failed_info annotated_build info_b (OsbsException ''it happens'')] \<and>
   filter is_cancel
     (new_events (st_world state0)
        (st_world (snd (do_worker_build plugin0 wait_fails_env info_b state0))))
     = [CancelBuild ''b'' ''worker-build-b''] \<and>
   fst (start_on_clusters plugin0 wait_fails_env [info_b, info_a] ctxs_ab state0) = Inr True \<and>
   fst (create_build plugin0 cancel_fails_env info_b state0) = Inr plain_build \<and>
   fst (do_worker_build plugin0 cancel_fails_env info_b state0)
     = Some (OtherException ''cancel failed'') \<and>
   fst (start_on_clusters plugin0 cancel_fails_env [info_b, info_a] ctxs_ab state0)
     = Inl (OtherException ''cancel failed'') \<and>
   get_fail_reason cancel_fails_env
       (monitor_failed_info plain_build info_b (OsbsException ''it happens'')) world0
     = Some (Inr [(''general'', PStr ''it happens'')],
             emit cancel_fails_env (GetPodForBuild ''b'' ''worker-build-b'') world0)"
proof -
  have c1: "fst (create_build plugin0 wait_fails_env info_b state0) = Inr annotated_build"
    by code_simp
  have w1: "fst (watch_and_wait wait_fails_env (new_WorkerBuildInfo (Some annotated_build) info_b)
          (st_world (snd (create_build plugin0 wait_fails_env info_b state0))))
     = Some (OsbsException ''it happens'')"
    by code_simp
  have c2: "fst (create_build plugin0 cancel_fails_env info_b state0) = Inr plain_build"
    by code_simp
  have w2: "fst (watch_and_wait cancel_fails_env (new_WorkerBuildInfo (Some plain_build) info_b)
          (st_world (snd (create_build plugin0 cancel_fails_env info_b state0))))
     = Some (OsbsException ''it happens'')"
    by code_simp
  have g2: "get_fail_reason cancel_fails_env
       (monitor_failed_info plain_build info_b (OsbsException ''it happens'')) world0
     = Some (Inr [(''general'', PStr ''it happens'')],
             emit cancel_fails_env (GetPodForBuild ''b'' ''worker-build-b'') world0)"
    by code_simp
  have wb: "worker_builds state0 = []" by (simp add: state0_def)
  have mc: "map_of ctxs_ab (name (ci_cluster info_b)) = Some (new_ClusterRetryContext 20)"
    by (simp add: ctxs_ab_def info_b_def cluster_b_def)
  have ib: "ci_osbs info_b = ''b''" by (simp add: info_b_def)
  have ab: "\<not> is_finished annotated_build" "build_name annotated_build = ''worker-build-b''"
    "\<not> is_finished plain_build" "build_name plain_build = ''worker-build-b''"
    by (simp_all add: annotated_build_def plain_build_def)
  have oc: "osbs_cancel_build wait_fails_env c b n = None"
    "osbs_cancel_build cancel_fails_env c b n = Some (OtherException ''cancel failed'')" for c b n
    by (simp_all add: wait_fails_env_def cancel_fails_env_def healthy_env_def)
  note T1 = monitor_failure_is_terminal[OF
      trans[OF prod.collapse[symmetric] arg_cong2[OF c1 refl, of Pair]]
      trans[OF prod.collapse[symmetric]
        arg_cong2[OF w1 trans[OF prod.collapse[symmetric] refl], of Pair]]
      prod.collapse[symmetric], unfolded wb ib, simplified ab oc]
  note T2 = monitor_failure_is_terminal[OF
      trans[OF prod.collapse[symmetric] arg_cong2[OF c2 refl, of Pair]]
      trans[OF prod.collapse[symmetric]
        arg_cong2[OF w2 trans[OF prod.collapse[symmetric] refl], of Pair]]
      prod.collapse[symmetric], unfolded wb ib, simplified ab oc]
  have a1: "fst (do_worker_build plugin0 wait_fails_env info_b state0) = None"
    using T1 by simp
  have a2: "worker_builds (snd (do_worker_build plugin0 wait_fails_env info_b state0))
     = [monitor_failed_info annotated_build info_b (OsbsException ''it happens'')]"
    using T1 by simp
  have a3: "filter is_cancel
     (new_events (st_world state0)
        (st_world (snd (do_worker_build plugin0 wait_fails_env info_b state0))))
     = [CancelBuild ''b'' ''worker-build-b'']"
    using T1 by simp
  have a4: "fst (start_on_clusters plugin0 wait_fails_env [info_b, info_a] ctxs_ab state0) = Inr True"
    using T1 mc a1 by simp
  have b1: "fst (do_worker_build plugin0 cancel_fails_env info_b state0)
     = Some (OtherException ''cancel failed'')"
    using T2 by simp
  have b2: "fst (start_on_clusters plugin0 cancel_fails_env [info_b, info_a] ctxs_ab state0)
     = Inl (OtherException ''cancel failed'')"
    using T2 mc b1 by simp
  from c1 w1 a1 a2 a3 a4 c2 b1 b2 g2 show ?thesis by (intro conjI)
qed

section \<open>The keyword arguments of the build (claim C5)\<close>

text \<open>
  Claim C5.  The base parameters are the dictionary \<^verbatim>\<open>get_worker_build_kwargs\<close> returns: a
  new object, which in the default reactor configuration holds the contents of
  \<^verbatim>\<open>self.build_kwargs\<close> without \<^verbatim>\<open>architecture\<close> and with the release, the platform, the
  upload directory and the task id set.  The keyword arguments submitted to
  \<^verbatim>\<open>create_worker_build\<close> are the base parameters updated with the overrides for all
  platforms and then with the overrides for the platform: the value of a key is the
  platform's if it has one, else the one for all platforms if there is one, else the base
  value.  Neither the creation of the build, nor \<^verbatim>\<open>do_worker_build\<close>, nor the whole of
  \<^verbatim>\<open>run\<close> changes an object that was in the heap before (\<^verbatim>\<open>self.build_kwargs\<close>, the
  reactor configuration, the override dictionaries) or the override mapping of the
  workspace: after \<^verbatim>\<open>run\<close> the overrides read as before, so that a second dispatch
  starts from the same parameters.
\<close>

theorem build_parameters_are_merged:
  "(create_build P E ci s = (r, s') \<and> live_overrides s \<and>
    get_worker_build_kwargs P (release P) (ci_platform ci) (koji_upload_dir P) (fs_task_id P)
      (worker_openshift_of E (ci_osbs ci)) (st_heap s) = (Inr kw, h) \<longrightarrow>
      new_events (st_world s) (st_world s')
        = [CreateWorkerBuild (ci_osbs ci)
             (dict_update (dict_update (heap_get h kw) (override_for s None))
                (override_for s (Some (ci_platform ci))))] \<and>
      r = osbs_create_worker_build E (ci_osbs ci)
            (dict_update (dict_update (heap_get h kw) (override_for s None))
               (override_for s (Some (ci_platform ci))))
            (length (trace (st_world s))) \<and>
      (distinct (map fst (override_for s None)) \<and>
       distinct (map fst (override_for s (Some (ci_platform ci)))) \<longrightarrow>
         (\<forall>k. map_of (dict_update (dict_update (heap_get h kw) (override_for s None))
                        (override_for s (Some (ci_platform ci)))) k
              = spec_build_parameters (heap_get h kw) (override_for s None)
                  (override_for s (Some (ci_platform ci))) k))) \<and>
   (reactor_config_is_default P \<longrightarrow>
      get_worker_build_kwargs P (release P) (ci_platform ci) (koji_upload_dir P) (fs_task_id P)
        (worker_openshift_of E (ci_osbs ci)) (st_heap s)
      = (Inr (length (st_heap s)),
         st_heap s @ [adjusted_kwargs (release P) (ci_platform ci) (koji_upload_dir P)
                        (fs_task_id P) (heap_get (st_heap s) (build_kwargs P))])) \<and>
   (create_build P E ci s = (r, s') \<longrightarrow>
      heap_extends (st_heap s) (st_heap s') \<and> st_workspace s' = st_workspace s) \<and>
   (do_worker_build P E ci s = (r_d, s_d) \<longrightarrow>
      heap_extends (st_heap s) (st_heap s_d) \<and> st_workspace s_d = st_workspace s) \<and>
   (run fuel P E s = Some (r_r, s_r) \<longrightarrow>
      heap_extends (st_heap s) (st_heap s_r) \<and>
      (\<forall>a<length (st_heap s). heap_get (st_heap s_r) a = heap_get (st_heap s) a) \<and>
      ws_override_kwargs (st_workspace s_r) = ws_override_kwargs (st_workspace s) \<and>
      (live_overrides s \<longrightarrow> live_overrides s_r \<and> (\<forall>k. override_for s_r k = override_for s k)))"
proof (intro conjI impI allI)
  assume a: "create_build P E ci s = (r, s') \<and> live_overrides s \<and>
    get_worker_build_kwargs P (release P) (ci_platform ci) (koji_upload_dir P) (fs_task_id P)
      (worker_openshift_of E (ci_osbs ci)) (st_heap s) = (Inr kw, h)"
  then have cb: "create_build P E ci s = (r, s')" and lv: "live_overrides s"
    and g: "get_worker_build_kwargs P (release P) (ci_platform ci) (koji_upload_dir P) (fs_task_id P)
      (worker_openshift_of E (ci_osbs ci)) (st_heap s) = (Inr kw, h)" by blast+
  show "new_events (st_world s) (st_world s')
        = [CreateWorkerBuild (ci_osbs ci)
             (dict_update (dict_update (heap_get h kw) (override_for s None))
                (override_for s (Some (ci_platform ci))))]"
    using cb lv g by (rule create_build_merge(1))
  show "r = osbs_create_worker_build E (ci_osbs ci)
            (dict_update (dict_update (heap_get h kw) (override_for s None))
               (override_for s (Some (ci_platform ci))))
            (length (trace (st_world s)))"
    using cb lv g by (rule create_build_merge(2))
next
  fix k
  assume "distinct (map fst (override_for s None)) \<and>
       distinct (map fst (override_for s (Some (ci_platform ci))))"
  then show "map_of (dict_update (dict_update (heap_get h kw) (override_for s None))
                        (override_for s (Some (ci_platform ci)))) k
              = spec_build_parameters (heap_get h kw) (override_for s None)
                  (override_for s (Some (ci_platform ci))) k"
    by (simp add: dict_update_spec)
next
  assume "reactor_config_is_default P"
  then show "get_worker_build_kwargs P (release P) (ci_platform ci) (koji_upload_dir P) (fs_task_id P)
        (worker_openshift_of E (ci_osbs ci)) (st_heap s)
      = (Inr (length (st_heap s)),
         st_heap s @ [adjusted_kwargs (release P) (ci_platform ci) (koji_upload_dir P)
                        (fs_task_id P) (heap_get (st_heap s) (build_kwargs P))])"
    by (rule get_worker_build_kwargs_default)
next
  assume cb: "create_build P E ci s = (r, s')"
  show "heap_extends (st_heap s) (st_heap s')" using cb by (rule create_build_heap)
  show "st_workspace s' = st_workspace s" using cb by (rule create_build_world(4))
next
  assume d: "do_worker_build P E ci s = (r_d, s_d)"
  show "heap_extends (st_heap s) (st_heap s_d)" using d by (rule do_worker_build_heap)
  show "st_workspace s_d = st_workspace s" using d by (rule do_worker_build_world(3))
next
  assume rn: "run fuel P E s = Some (r_r, s_r)"
  show he: "heap_extends (st_heap s) (st_heap s_r)" using rn by (rule run_heap(1))
  show ov: "ws_override_kwargs (st_workspace s_r) = ws_override_kwargs (st_workspace s)"
    using rn by (rule run_heap(2))
  { fix a assume "a < length (st_heap s)"
    with he show "heap_get (st_heap s_r) a = heap_get (st_heap s) a" by (rule heap_extends_get) }
  { assume lv: "live_overrides s"
    show "live_overrides s_r" using lv he ov by (rule live_overrides_extends(1))
    fix k
    show "override_for s_r k = override_for s k" using lv he ov by (rule live_overrides_extends(2)) }
qed

theorem build_parameters_are_merged_witness:
  "live_overrides state_ov \<and> reactor_config_is_default plugin0 \<and>
   override_for state_ov None = [(''release'', PStr ''99''), (''user'', PStr ''eggs'')] \<and>
   override_for state_ov (Some ''x86_64'') = [(''release'', PStr ''4'')] \<and>
   new_events (st_world state_ov)
     (st_world (snd (create_build plugin0 healthy_env info_b state_ov)))
     = [CreateWorkerBuild ''b'' submitted_ov] \<and>
   map_of submitted_ov ''release'' = Some (PStr ''4'') \<and>
   map_of submitted_ov ''user'' = Some (PStr ''eggs'') \<and>
   map_of submitted_ov ''git_uri'' = Some (PStr ''https://git/repo'') \<and>
   (\<exists>r s'. run 3 plugin0 healthy_env state_ov = Some (r, s') \<and>
           take 4 (st_heap s') = st_heap state_ov \<and>
           override_for s' None = [(''release'', PStr ''99''), (''user'', PStr ''eggs'')] \<and>
           override_for s' (Some ''x86_64'') = [(''release'', PStr ''4'')])"
proof -
  have lv: "live_overrides state_ov"
    by (simp add: live_overrides_def state_ov_def state0_def)
  have df: "reactor_config_is_default plugin0" by (simp add: plugin0_def)
  have o1: "override_for state_ov None = [(''release'', PStr ''99''), (''user'', PStr ''eggs'')]"
    and o2: "override_for state_ov (Some ''x86_64'') = [(''release'', PStr ''4'')]"
    by (simp_all add: override_for_def state_ov_def state0_def heap_get_def)
  have ip: "ci_platform info_b = ''x86_64''" "ci_osbs info_b = ''b''" by (simp_all add: info_b_def)
  note T = build_parameters_are_merged[where P = plugin0 and E = healthy_env and ci = info_b
      and s = state_ov]
  note g = T[THEN conjunct2, THEN conjunct1, rule_format, OF df]
  have sb: "dict_update
              (dict_update
                 (heap_get (st_heap state_ov @
                     [adjusted_kwargs (release plugin0) (ci_platform info_b) (koji_upload_dir plugin0)
                        (fs_task_id plugin0) (heap_get (st_heap state_ov) (build_kwargs plugin0))])
                    (length (st_heap state_ov)))
                 (override_for state_ov None))
              (override_for state_ov (Some (ci_platform info_b))) = submitted_ov"
    unfolding o1 ip o2 heap_get_last by code_simp
  have ev: "new_events (st_world state_ov)
     (st_world (snd (create_build plugin0 healthy_env info_b state_ov)))
     = [CreateWorkerBuild ''b'' submitted_ov]"
    using T[where r = "fst (create_build plugin0 healthy_env info_b state_ov)"
        and s' = "snd (create_build plugin0 healthy_env info_b state_ov)",
        THEN conjunct1, rule_format, OF conjI[OF prod.collapse[symmetric] conjI[OF lv g]],
        THEN conjunct1]
    unfolding ip sb[unfolded ip] .
  have m: "map_of submitted_ov ''release'' = Some (PStr ''4'')"
    "map_of submitted_ov ''user'' = Some (PStr ''eggs'')"
    "map_of submitted_ov ''git_uri'' = Some (PStr ''https://git/repo'')"
    by (simp_all add: submitted_ov_def)
  have "run 3 plugin0 healthy_env state_ov \<noteq> None" by code_simp
  then obtain r s' where rn: "run 3 plugin0 healthy_env state_ov = Some (r, s')" by auto
  note R = build_parameters_are_merged[where P = plugin0 and E = healthy_env and s = state_ov
      and fuel = 3 and r_r = r and s_r = s',
      THEN conjunct2, THEN conjunct2, THEN conjunct2, THEN conjunct2, rule_format, OF rn]
  have l4: "length (st_heap state_ov) = 4" by (simp add: state_ov_def)
  have tk: "take 4 (st_heap s') = st_heap state_ov"
    using R[THEN conjunct1] by (simp add: heap_extends_def l4)
  have p1: "override_for s' None = [(''release'', PStr ''99''), (''user'', PStr ''eggs'')]"
    and p2: "override_for s' (Some ''x86_64'') = [(''release'', PStr ''4'')]"
    using R[THEN conjunct2, THEN conjunct2, THEN conjunct2, rule_format, OF lv] o1 o2 by simp_all
  have run: "\<exists>r s'. run 3 plugin0 healthy_env state_ov = Some (r, s') \<and>
           take 4 (st_heap s') = st_heap state_ov \<and>
           override_for s' None = [(''release'', PStr ''99''), (''user'', PStr ''eggs'')] \<and>
           override_for s' (Some ''x86_64'') = [(''release'', PStr ''4'')]"
    by (rule exI[of _ r], rule exI[of _ s']) (intro conjI rn tk p1 p2)
  from lv df o1 o2 ev m run show ?thesis by (intro conjI)
qed

end
